(* ===== verification/Prelude.thy ===== *)
theory Prelude
  imports Main "HOL-Library.Word" "HOL-Library.Multiset" "HOL-Library.AList"
begin

text \<open>
  Shared vocabulary of the development: Go's machine integers and byte slices, the byte orders
  of \<^verbatim>\<open>encoding/binary\<close>, the values of Go's \<^verbatim>\<open>error\<close> interface that the program returns, run-time
  panics, time, and generic lemmas on lists and association lists.

  Conventions used everywhere:
  \<^item> a \<^verbatim>\<open>[]byte\<close> is a \<open>bytes\<close> list; fixed arrays (\<^verbatim>\<open>[6]byte\<close>, \<^verbatim>\<open>[4]byte\<close>) are datatypes with that
    many byte arguments, so that their length is part of the type;
  \<^item> where the program distinguishes a nil slice from an empty one, the slice is a
    \<open>bytes option\<close> and \<open>None\<close> is nil;
  \<^item> \<^verbatim>\<open>uint8\<close>, \<^verbatim>\<open>uint16\<close>, \<^verbatim>\<open>uint32\<close> and \<^verbatim>\<open>uint64\<close> are words of that width; \<^verbatim>\<open>int\<close> is \<open>int\<close> or \<open>nat\<close>
    where it only counts elements of a slice or objects in memory;
  \<^item> \<^verbatim>\<open>time.Time\<close> and \<^verbatim>\<open>time.Duration\<close> are nanoseconds (\<open>int\<close>), with 0 for the zero time; every
    \<^verbatim>\<open>time.Now()\<close> is an argument of the definition that reads the clock.
\<close>

unbundle bit_operations_syntax

section \<open>Types\<close>

type_synonym byte = "8 word"
type_synonym bytes = "byte list"
type_synonym u8 = "8 word"
type_synonym u16 = "16 word"
type_synonym u32 = "32 word"
type_synonym u64 = "64 word"
type_synonym time = int
type_synonym duration = int

abbreviation second :: duration where
  "second \<equiv> 1000000000"

text \<open>
  The values of Go's \<^verbatim>\<open>error\<close> interface. Sentinel errors of the program and of the standard
  library are constants; an error built with \<^verbatim>\<open>fmt.Errorf\<close> is a constructor that carries the
  values the message is formatted from.
\<close>

datatype error =
    EOF                              \<comment> \<open>\<^verbatim>\<open>io.EOF\<close>\<close>
  | ErrClosedPipe                    \<comment> \<open>\<^verbatim>\<open>io.ErrClosedPipe\<close>\<close>
  | ContextCanceled                  \<comment> \<open>\<^verbatim>\<open>context.Canceled\<close>\<close>
  | ContextDeadlineExceeded          \<comment> \<open>\<^verbatim>\<open>context.DeadlineExceeded\<close>\<close>
  | HeaderAddressTooShort nat nat    \<comment> \<open>ipx: header address too short to decode\<close>
  | IPXHeaderTooShort nat nat        \<comment> \<open>ipx: header too short to decode\<close>
  | PipeFullError                    \<comment> \<open>network/pipe\<close>
  | ForwardErrors "error list"       \<comment> \<open>network/ipxswitch: errors when forwarding packets\<close>
  | FilteredPacketError              \<comment> \<open>network/filter\<close>
  | WrongAddressError                \<comment> \<open>network/addressable\<close>
  | Errorf string "int list"         \<comment> \<open>any other \<^verbatim>\<open>fmt.Errorf\<close>: the message and its integer arguments\<close>
  | OtherError string                \<comment> \<open>an error of a library the program only calls\<close>

text \<open>A Go call that can panic: it returns a value, returns an error, or panics.\<close>

datatype 'a outcome = Return 'a | Fail error | Panic

section \<open>Byte orders\<close>

definition be_u16 :: "byte \<Rightarrow> byte \<Rightarrow> u16" where
  "be_u16 b0 b1 = push_bit 8 (ucast b0) OR ucast b1"

definition put_be16 :: "u16 \<Rightarrow> bytes" where
  "put_be16 v = [ucast (drop_bit 8 v), ucast v]"

definition be_u32 :: "byte \<Rightarrow> byte \<Rightarrow> byte \<Rightarrow> byte \<Rightarrow> u32" where
  "be_u32 b0 b1 b2 b3 =
     push_bit 24 (ucast b0) OR push_bit 16 (ucast b1) OR push_bit 8 (ucast b2) OR ucast b3"

definition put_be32 :: "u32 \<Rightarrow> bytes" where
  "put_be32 v = [ucast (drop_bit 24 v), ucast (drop_bit 16 v), ucast (drop_bit 8 v), ucast v]"

abbreviation (input) le_u16 :: "byte \<Rightarrow> byte \<Rightarrow> u16" where
  "le_u16 b0 b1 \<equiv> be_u16 b1 b0"

definition put_le16 :: "u16 \<Rightarrow> bytes" where
  "put_le16 v = [ucast v, ucast (drop_bit 8 v)]"

abbreviation (input) le_u32 :: "byte \<Rightarrow> byte \<Rightarrow> byte \<Rightarrow> byte \<Rightarrow> u32" where
  "le_u32 b0 b1 b2 b3 \<equiv> be_u32 b3 b2 b1 b0"

definition put_le32 :: "u32 \<Rightarrow> bytes" where
  "put_le32 v = [ucast v, ucast (drop_bit 8 v), ucast (drop_bit 16 v), ucast (drop_bit 24 v)]"

lemmas put_defs = put_be16_def put_be32_def put_le16_def put_le32_def

lemma bit_byte_ge [simp]: "8 \<le> n \<Longrightarrow> \<not> bit (b :: byte) n"
  by (auto dest: bit_imp_le_length)

lemma be_u16_split [simp]: "be_u16 (ucast (drop_bit 8 v)) (ucast v) = v"
  by (rule bit_word_eqI) (auto simp: be_u16_def bit_simps)

lemma be_u16_hi [simp]: "ucast (drop_bit 8 (be_u16 a b)) = a"
  by (rule bit_word_eqI) (auto simp: be_u16_def bit_simps)

lemma be_u16_lo [simp]: "ucast (be_u16 a b) = b"
  by (rule bit_word_eqI) (auto simp: be_u16_def bit_simps)

lemma be_u32_split [simp]:
  "be_u32 (ucast (drop_bit 24 v)) (ucast (drop_bit 16 v)) (ucast (drop_bit 8 v)) (ucast v) = v"
proof (rule bit_word_eqI)
  fix n assume "n < LENGTH(32)"
  then consider "n < 8" | "8 \<le> n \<and> n < 16" | "16 \<le> n \<and> n < 24" | "24 \<le> n \<and> n < 32"
    by fastforce
  then show "bit (be_u32 (ucast (drop_bit 24 v)) (ucast (drop_bit 16 v)) (ucast (drop_bit 8 v))
      (ucast v)) n = bit v n"
    by cases (auto simp: be_u32_def bit_simps)
qed

lemma be_u32_byte3 [simp]: "ucast (drop_bit 24 (be_u32 a b c d)) = a"
  by (rule bit_word_eqI) (auto simp: be_u32_def bit_simps)

lemma be_u32_byte2 [simp]: "ucast (drop_bit 16 (be_u32 a b c d)) = b"
  by (rule bit_word_eqI) (auto simp: be_u32_def bit_simps)

lemma be_u32_byte1 [simp]: "ucast (drop_bit 8 (be_u32 a b c d)) = c"
  by (rule bit_word_eqI) (auto simp: be_u32_def bit_simps)

lemma be_u32_byte0 [simp]: "ucast (be_u32 a b c d) = d"
  by (rule bit_word_eqI) (auto simp: be_u32_def bit_simps)

lemma length_put [simp]:
  "length (put_be16 v) = 2" "length (put_le16 v) = 2"
  "length (put_be32 w) = 4" "length (put_le32 w) = 4"
  by (simp_all add: put_defs)

section \<open>Slices\<close>

text \<open>\<open>go_slice lo hi xs\<close> is Go's \<^verbatim>\<open>xs[lo:hi]\<close> for bounds within the length.\<close>

definition go_slice :: "nat \<Rightarrow> nat \<Rightarrow> 'a list \<Rightarrow> 'a list" where
  "go_slice lo hi xs = take (hi - lo) (drop lo xs)"

lemma length_go_slice [simp]: "hi \<le> length xs \<Longrightarrow> length (go_slice lo hi xs) = hi - lo"
  by (simp add: go_slice_def)

lemma nth_go_slice [simp]: "lo + i < hi \<Longrightarrow> hi \<le> length xs \<Longrightarrow> go_slice lo hi xs ! i = xs ! (lo + i)"
  by (simp add: go_slice_def)

lemma take_eq_nths: "n \<le> length xs \<Longrightarrow> take n xs = map (\<lambda>i. xs ! i) [0..<n]"
  by (auto intro: nth_equalityI)

lemma upt_6: "[0..<6] = [0, 1, 2, 3, 4, 5 :: nat]"
  by (simp add: upt_rec)

lemma upt_12: "[0..<12] = [0, 1, 2, 3, 4, 5, 6, 7, 8, 9, 10, 11 :: nat]"
  by (simp add: upt_rec)

section \<open>Words\<close>

lemma word_ge_1: "1 \<le> (x :: 'a :: len word) \<longleftrightarrow> x \<noteq> 0"
  by (auto simp: word_le_nat_alt Suc_le_eq unat_gt_0)

lemma unat_bounds:
  "unat (a :: u8) < 256" "unat (b :: u16) < 65536" "unat (c :: u32) < 4294967296"
  using unsigned_less [of a, where ?'a = nat] unsigned_less [of b, where ?'a = nat]
    unsigned_less [of c, where ?'a = nat] by simp_all

lemma unat_low: "unat (ucast (t :: u32) :: byte) = unat t mod 256"
  by (simp add: unsigned_ucast_eq take_bit_eq_mod)

lemma unat_ucast_up:
  "unat (ucast (b :: byte) :: u32) = unat b" "unat (ucast (b :: byte) :: u16) = unat b"
  using unat_bounds(1) [of b] by (simp_all add: unsigned_ucast_eq take_bit_eq_mod)

lemma unat_add_u32: "unat a + unat b < 2 ^ 32 \<Longrightarrow> unat (a + b :: u32) = unat a + unat b"
  by (simp add: unat_word_ariths)

lemma unat_sub_u32: "b \<le> a \<Longrightarrow> unat (a - b :: u32) = unat a - unat b"
  by (simp add: unat_sub word_le_nat_alt)

lemma unat_pred: "x \<noteq> 0 \<Longrightarrow> unat (x - 1 :: 'a :: len word) = unat x - 1"
  by (rule unat_minus_one)

section \<open>Reordered lists\<close>

lemma mset_eq_mapE:
  assumes "mset xs = mset (map f ys)"
  obtains zs where "xs = map f zs" "mset zs = mset ys"
proof -
  have "\<exists>zs. xs = map f zs \<and> mset zs = mset ys"
    using assms
  proof (induction xs arbitrary: ys)
    case (Cons x xs)
    then have "x \<in> set (map f ys)" by (metis list.set_intros(1) mset_eq_setD)
    then obtain y where y: "y \<in> set ys" "x = f y" by auto
    then have ys: "mset ys = mset (y # remove1 y ys)" by simp
    then have "mset (map f ys) = mset (map f (y # remove1 y ys))" by (metis mset_map)
    with Cons.prems y have "mset xs = mset (map f (remove1 y ys))" by (metis add_mset_add_mset_same_iff list.simps(9) mset.simps(2))
    from Cons.IH [OF this] obtain zs where "xs = map f zs" "mset zs = mset (remove1 y ys)" by auto
    with y ys have "x # xs = map f (y # zs) \<and> mset (y # zs) = mset ys" by (metis list.simps(9) mset.simps(2))
    then show ?case by (rule exI)
  qed simp
  with that show thesis by blast
qed

end
