(* ===== verification/Ipx.thy ===== *)
theory Ipx
  imports Prelude
begin

text \<open>
  Package \<^verbatim>\<open>ipx\<close> (\<^verbatim>\<open>src/ipx/ipx.go\<close>, \<^verbatim>\<open>src/ipx/packet.go\<close>): IPX addresses, the 30-byte header and
  packets with their wire format, and the packet copying loop \<^verbatim>\<open>CopyPackets\<close> that joins a reader to
  a writer. The lemmas show that the encoders and decoders are inverse to each other in both
  directions and on every error branch, and what the copying loop delivers.
\<close>

section \<open>Addresses and headers\<close>

datatype addr = MkAddr byte byte byte byte byte byte

datatype net4 = MkNet byte byte byte byte

record HeaderAddr =
  Network :: net4
  Addr :: addr
  Socket :: u16

record Header =
  Checksum :: u16
  Length :: u16
  TransControl :: byte
  PacketType :: byte
  Dest :: HeaderAddr
  Src :: HeaderAddr

record Packet =
  Header :: Header
  Payload :: bytes

definition ZeroNetwork :: net4 where
  "ZeroNetwork = MkNet 0 0 0 0"

definition AddrNull :: addr where
  "AddrNull = MkAddr 0 0 0 0 0 0"

definition AddrBroadcast :: addr where
  "AddrBroadcast = MkAddr 0xff 0xff 0xff 0xff 0xff 0xff"

definition HeaderLength :: nat where
  "HeaderLength = 30"

definition minHeaderAddressLength :: nat where
  "minHeaderAddressLength = 12"

text \<open>The zero values of the Go structs, which composite literals start from.\<close>

definition zeroHeaderAddr :: HeaderAddr where
  "zeroHeaderAddr = \<lparr>Network = ZeroNetwork, Addr = AddrNull, Socket = 0\<rparr>"

definition zeroHeader :: Header where
  "zeroHeader = \<lparr>Checksum = 0, Length = 0, TransControl = 0, PacketType = 0,
     Dest = zeroHeaderAddr, Src = zeroHeaderAddr\<rparr>"

fun addr_bytes :: "addr \<Rightarrow> bytes" where
  "addr_bytes (MkAddr a b c d e f) = [a, b, c, d, e, f]"

fun net_bytes :: "net4 \<Rightarrow> bytes" where
  "net_bytes (MkNet a b c d) = [a, b, c, d]"

text \<open>\<^verbatim>\<open>Addr.String\<close>: six two-digit hexadecimal numbers joined by colons.\<close>

definition hexdigit :: "nat \<Rightarrow> char" where
  "hexdigit n = ''0123456789abcdef'' ! n"

definition hex02 :: "byte \<Rightarrow> string" where
  "hex02 b = [hexdigit (unat b div 16), hexdigit (unat b mod 16)]"

fun Addr_String :: "addr \<Rightarrow> string" where
  "Addr_String (MkAddr a b c d e f) =
     hex02 a @ '':'' @ hex02 b @ '':'' @ hex02 c @ '':'' @ hex02 d @ '':'' @ hex02 e @ '':'' @ hex02 f"

section \<open>Wire format\<close>

definition HeaderAddr_UnmarshalBinary :: "bytes \<Rightarrow> error + HeaderAddr" where
  "HeaderAddr_UnmarshalBinary data =
     (if length data < minHeaderAddressLength
      then Inl (HeaderAddressTooShort (length data) minHeaderAddressLength)
      else Inr \<lparr>Network = MkNet (data ! 0) (data ! 1) (data ! 2) (data ! 3),
                Addr = MkAddr (data ! 4) (data ! 5) (data ! 6) (data ! 7) (data ! 8) (data ! 9),
                Socket = be_u16 (data ! 10) (data ! 11)\<rparr>)"

definition HeaderAddr_MarshalBinary :: "HeaderAddr \<Rightarrow> bytes" where
  "HeaderAddr_MarshalBinary a = net_bytes (Network a) @ addr_bytes (Addr a) @ put_be16 (Socket a)"

definition Header_UnmarshalBinary :: "bytes \<Rightarrow> error + Header" where
  "Header_UnmarshalBinary packet =
     (if length packet < HeaderLength
      then Inl (IPXHeaderTooShort (length packet) HeaderLength)
      else case HeaderAddr_UnmarshalBinary (go_slice 6 18 packet) of
             Inl err \<Rightarrow> Inl err
           | Inr dest \<Rightarrow>
               (case HeaderAddr_UnmarshalBinary (go_slice 18 30 packet) of
                  Inl err \<Rightarrow> Inl err
                | Inr src \<Rightarrow> Inr \<lparr>Checksum = be_u16 (packet ! 0) (packet ! 1),
                                 Length = be_u16 (packet ! 2) (packet ! 3),
                                 TransControl = packet ! 4, PacketType = packet ! 5,
                                 Dest = dest, Src = src\<rparr>))"

definition Header_MarshalBinary :: "Header \<Rightarrow> bytes" where
  "Header_MarshalBinary h =
     put_be16 (Checksum h) @ put_be16 (Length h) @ [TransControl h, PacketType h]
       @ HeaderAddr_MarshalBinary (Dest h) @ HeaderAddr_MarshalBinary (Src h)"

definition IsBroadcast :: "Header \<Rightarrow> bool" where
  "IsBroadcast h = (Addr (Dest h) = AddrBroadcast)"

definition Packet_MarshalBinary :: "Packet \<Rightarrow> bytes" where
  "Packet_MarshalBinary p = Header_MarshalBinary (Header p) @ Payload p"

definition Packet_UnmarshalBinary :: "bytes \<Rightarrow> error + Packet" where
  "Packet_UnmarshalBinary packet =
     (case Header_UnmarshalBinary packet of
        Inl err \<Rightarrow> Inl err
      | Inr h \<Rightarrow> Inr \<lparr>Header = h, Payload = drop HeaderLength packet\<rparr>)"

section \<open>Copying packets\<close>

text \<open>
  What one call of \<^verbatim>\<open>ReadPacket\<close> does: it returns a packet, it returns an error, or it is still
  blocked because nothing has arrived yet. A blocked call is resumed by calling again.
\<close>

datatype read = RPacket Packet | RError error | RBlock

datatype loop_status = Returned "error option" | Waiting

text \<open>
  \<^verbatim>\<open>CopyPackets\<close> over a reader and a writer with explicit states. The error of \<^verbatim>\<open>WritePacket\<close> is
  dropped, as in the source. The loop may run forever, so \<open>None\<close> is "does not return".
\<close>

partial_function (option) CopyPackets ::
  "('i \<Rightarrow> 'i \<times> read) \<Rightarrow> (Packet \<Rightarrow> 'o \<Rightarrow> 'o \<times> error option) \<Rightarrow> 'i \<Rightarrow> 'o
     \<Rightarrow> ('i \<times> 'o \<times> loop_status) option" where
  "CopyPackets readPacket writePacket i out =
     (case readPacket i of (i', r) \<Rightarrow>
        (case r of
           RError e \<Rightarrow> if e = EOF then Some (i', out, Returned None)
                       else Some (i', out, Returned (Some e))
         | RBlock \<Rightarrow> Some (i', out, Waiting)
         | RPacket p \<Rightarrow> CopyPackets readPacket writePacket i' (fst (writePacket p out))))"

text \<open>\<open>reads rd i ps i' r\<close>: reading from \<open>i\<close> yields the packets \<open>ps\<close> and then \<open>r\<close>, which is no packet.\<close>

inductive reads :: "('i \<Rightarrow> 'i \<times> read) \<Rightarrow> 'i \<Rightarrow> Packet list \<Rightarrow> 'i \<Rightarrow> read \<Rightarrow> bool"
  for rd :: "'i \<Rightarrow> 'i \<times> read" where
  reads_stop: "rd i = (i', r) \<Longrightarrow> (\<forall>p. r \<noteq> RPacket p) \<Longrightarrow> reads rd i [] i' r"
| reads_packet: "rd i = (i', RPacket p) \<Longrightarrow> reads rd i' ps i'' r \<Longrightarrow> reads rd i (p # ps) i'' r"

fun copy_status :: "read \<Rightarrow> loop_status" where
  "copy_status (RError e) = Returned (if e = EOF then None else Some e)"
| "copy_status r = Waiting"

section \<open>Lemmas on the wire format\<close>

lemmas ipx_consts = ZeroNetwork_def AddrNull_def AddrBroadcast_def
  HeaderLength_def minHeaderAddressLength_def

lemma length_addr_bytes [simp]: "length (addr_bytes a) = 6"
  by (cases a) simp

lemma length_net_bytes [simp]: "length (net_bytes n) = 4"
  by (cases n) simp

lemma addr_bytes_inject [simp]: "addr_bytes a = addr_bytes b \<longleftrightarrow> a = b"
  by (cases a; cases b) simp

lemma net_bytes_inject [simp]: "net_bytes a = net_bytes b \<longleftrightarrow> a = b"
  by (cases a; cases b) simp

lemma length_HeaderAddr_MarshalBinary [simp]: "length (HeaderAddr_MarshalBinary a) = 12"
  by (simp add: HeaderAddr_MarshalBinary_def)

lemma length_Header_MarshalBinary [simp]: "length (Header_MarshalBinary h) = 30"
  by (simp add: Header_MarshalBinary_def)

lemma HeaderAddr_roundtrip [simp]:
  "HeaderAddr_UnmarshalBinary (HeaderAddr_MarshalBinary a) = Inr a"
  by (cases a; cases "Network a"; cases "Addr a")
    (simp add: HeaderAddr_UnmarshalBinary_def HeaderAddr_MarshalBinary_def ipx_consts put_defs)

lemma HeaderAddr_Unmarshal_long:
  "12 \<le> length data \<Longrightarrow> \<exists>a. HeaderAddr_UnmarshalBinary data = Inr a"
  by (simp add: HeaderAddr_UnmarshalBinary_def ipx_consts)

lemma Header_roundtrip_append [simp]:
  "Header_UnmarshalBinary (Header_MarshalBinary h @ rest) = Inr h"
proof -
  have d: "go_slice 6 18 (Header_MarshalBinary h @ rest) = HeaderAddr_MarshalBinary (Dest h)"
    by (simp add: go_slice_def Header_MarshalBinary_def put_defs)
  have s: "go_slice 18 30 (Header_MarshalBinary h @ rest) = HeaderAddr_MarshalBinary (Src h)"
    by (simp add: go_slice_def Header_MarshalBinary_def put_defs)
  have b: "take 6 (Header_MarshalBinary h @ rest) =
      put_be16 (Checksum h) @ put_be16 (Length h) @ [TransControl h, PacketType h]"
    by (simp add: Header_MarshalBinary_def put_defs)
  have nth: "(Header_MarshalBinary h @ rest) ! i =
      (put_be16 (Checksum h) @ put_be16 (Length h) @ [TransControl h, PacketType h]) ! i"
    if "i < 6" for i
    using that by (metis b nth_take)
  show ?thesis
    by (simp add: Header_UnmarshalBinary_def d s nth del: nth_append) (simp add: ipx_consts put_defs)
qed

lemma Packet_roundtrip: "Packet_UnmarshalBinary (Packet_MarshalBinary p) = Inr p"
  by (simp add: Packet_UnmarshalBinary_def Packet_MarshalBinary_def HeaderLength_def)

lemma HeaderAddr_Marshal_Unmarshal:
  assumes "HeaderAddr_UnmarshalBinary data = Inr a"
  shows "HeaderAddr_MarshalBinary a = take 12 data"
proof -
  from assms have len: "12 \<le> length data" and a: "a = \<lparr>Network = MkNet (data ! 0) (data ! 1) (data ! 2) (data ! 3),
      Addr = MkAddr (data ! 4) (data ! 5) (data ! 6) (data ! 7) (data ! 8) (data ! 9),
      Socket = be_u16 (data ! 10) (data ! 11)\<rparr>"
    by (auto simp: HeaderAddr_UnmarshalBinary_def ipx_consts split: if_splits)
  show ?thesis
    unfolding take_eq_nths [OF len]
    by (simp add: a HeaderAddr_MarshalBinary_def put_defs upt_12)
qed

lemma Header_Unmarshal_Inr:
  "(\<exists>h. Header_UnmarshalBinary data = Inr h) \<longleftrightarrow> 30 \<le> length data"
proof (cases "30 \<le> length data")
  case True
  then have "\<exists>d. HeaderAddr_UnmarshalBinary (go_slice 6 18 data) = Inr d"
    and "\<exists>s. HeaderAddr_UnmarshalBinary (go_slice 18 30 data) = Inr s"
    by (simp_all add: HeaderAddr_Unmarshal_long)
  with True show ?thesis
    by (auto simp: Header_UnmarshalBinary_def HeaderLength_def)
qed (simp add: Header_UnmarshalBinary_def HeaderLength_def)

lemma Header_Marshal_Unmarshal:
  assumes "Header_UnmarshalBinary data = Inr h"
  shows "Header_MarshalBinary h = take 30 data"
proof -
  from assms have len: "30 \<le> length data"
    using Header_Unmarshal_Inr by blast
  from assms obtain d s where
      d: "HeaderAddr_UnmarshalBinary (go_slice 6 18 data) = Inr d"
    and s: "HeaderAddr_UnmarshalBinary (go_slice 18 30 data) = Inr s"
    and h: "h = \<lparr>Checksum = be_u16 (data ! 0) (data ! 1), Length = be_u16 (data ! 2) (data ! 3),
      TransControl = data ! 4, PacketType = data ! 5, Dest = d, Src = s\<rparr>"
    by (auto simp: Header_UnmarshalBinary_def split: sum.splits if_splits)
  have ds: "HeaderAddr_MarshalBinary d = go_slice 6 18 data" "HeaderAddr_MarshalBinary s = go_slice 18 30 data"
    using HeaderAddr_Marshal_Unmarshal [OF d] HeaderAddr_Marshal_Unmarshal [OF s] len
    by (simp_all add: go_slice_def)
  have "take 30 data = take 6 data @ go_slice 6 18 data @ go_slice 18 30 data"
    using take_add [of 6 24 data] take_add [of 12 12 "drop 6 data"]
    by (simp add: go_slice_def)
  moreover have "take 6 data = put_be16 (Checksum h) @ put_be16 (Length h) @ [TransControl h, PacketType h]"
    using len by (simp add: h put_defs take_eq_nths upt_6)
  ultimately show ?thesis
    by (simp add: Header_MarshalBinary_def h ds)
qed

lemma Packet_Marshal_Unmarshal:
  "Packet_UnmarshalBinary data = Inr p \<Longrightarrow> Packet_MarshalBinary p = data"
  by (auto simp: Packet_UnmarshalBinary_def Packet_MarshalBinary_def HeaderLength_def
      Header_Marshal_Unmarshal split: sum.splits)

lemma Packet_Unmarshal_short:
  "length data < 30 \<Longrightarrow> Packet_UnmarshalBinary data = Inl (IPXHeaderTooShort (length data) 30)"
  by (simp add: Packet_UnmarshalBinary_def Header_UnmarshalBinary_def HeaderLength_def)

lemma Packet_Unmarshal_long:
  "30 \<le> length data \<Longrightarrow> \<exists>p. Packet_UnmarshalBinary data = Inr p"
  using Header_Unmarshal_Inr [of data] by (auto simp: Packet_UnmarshalBinary_def)

text \<open>
  C25. The IPX wire format is lossless and canonical: decoding an encoded packet gives the packet
  back; a byte string decodes exactly when it has at least the 30 header bytes, and then encoding
  the result gives the same bytes again.
\<close>

theorem ipx_wire_format:
  "Packet_UnmarshalBinary (Packet_MarshalBinary p) = Inr p
   \<and> (case Packet_UnmarshalBinary data of
        Inl e \<Rightarrow> length data < 30 \<and> e = IPXHeaderTooShort (length data) 30
      | Inr q \<Rightarrow> 30 \<le> length data \<and> Packet_MarshalBinary q = data)"
proof (cases "30 \<le> length data")
  case True
  then obtain q where "Packet_UnmarshalBinary data = Inr q"
    using Packet_Unmarshal_long by blast
  with True show ?thesis
    by (simp add: Packet_roundtrip Packet_Marshal_Unmarshal)
next
  case False
  then show ?thesis
    by (simp add: Packet_roundtrip Packet_Unmarshal_short)
qed

section \<open>Lemmas on copying\<close>

lemma CopyPackets_reads:
  assumes "reads rd i ps i' r"
  shows "CopyPackets rd wr i out = Some (i', fold (\<lambda>p o'. fst (wr p o')) ps out, copy_status r)"
  using assms
proof (induction arbitrary: out rule: reads.induct)
  case (reads_stop i i' r)
  then show ?case
    by (subst CopyPackets.simps) (cases r; simp)
next
  case (reads_packet i i' p ps i'' r)
  then show ?case
    by (subst CopyPackets.simps) simp
qed

section \<open>Sample packets\<close>

text \<open>Concrete addresses and packets at which the properties are exercised.\<close>

definition demo_addr :: "byte \<Rightarrow> HeaderAddr" where
  "demo_addr b = \<lparr>Network = ZeroNetwork, Addr = MkAddr 2 0 0 0 0 b, Socket = 0x4002\<rparr>"

definition demo_packet :: "byte \<Rightarrow> byte \<Rightarrow> Packet" where
  "demo_packet src dst = \<lparr>Header = zeroHeader\<lparr>Src := demo_addr src, Dest := demo_addr dst\<rparr>, Payload = [1, 2, 3]\<rparr>"

lemma demo_packet_simps [simp]:
  "Src (Header (demo_packet a b)) = demo_addr a" "Dest (Header (demo_packet a b)) = demo_addr b"
  by (simp_all add: demo_packet_def)

lemma demo_addr_Addr [simp]:
  "Addr (demo_addr a) = MkAddr 2 0 0 0 0 a" "Network (demo_addr a) = ZeroNetwork"
  "Socket (demo_addr a) = 0x4002"
  by (simp_all add: demo_addr_def)

end
