(* ===== verification/Fragments.thy ===== *)
theory Fragments
  imports Ipx
begin

text \<open>
  Package \<^verbatim>\<open>module/ipxpkt\<close>, part 1: the fragmentation header (\<^verbatim>\<open>src/module/ipxpkt/header.go\<close>) and the
  fragmentation and reassembly of Ethernet frames (\<^verbatim>\<open>src/module/ipxpkt/fragment.go\<close>).

  The Go map of frames under reassembly is an association list. A \<^verbatim>\<open>range\<close> over a map visits the entries
  in an unspecified order: the argument \<open>rng\<close> of the definitions chooses it.
\<close>

section \<open>The fragmentation header\<close>

record pktHeader =
  Fragment :: u8
  NumFragments :: u8
  PacketID :: u16

definition pktHeaderLength :: nat where
  "pktHeaderLength = 4"

definition pktHeader_MarshalBinary :: "pktHeader \<Rightarrow> bytes" where
  "pktHeader_MarshalBinary h = [Fragment h, NumFragments h] @ put_le16 (PacketID h)"

definition pktHeader_UnmarshalBinary :: "bytes \<Rightarrow> error + pktHeader" where
  "pktHeader_UnmarshalBinary packet =
     (if length packet < pktHeaderLength
      then Inl (Errorf ''packet too short to contain an ipxpkt header'' [int (length packet), 4])
      else
        let h = \<lparr>Fragment = packet ! 0, NumFragments = packet ! 1,
                 PacketID = le_u16 (packet ! 2) (packet ! 3)\<rparr>
        in if Fragment h < 1 \<or> NumFragments h < 1 \<or> Fragment h > NumFragments h
           then Inl (Errorf ''bad ipxpkt header violates invariants''
                  [uint (Fragment h), uint (NumFragments h), uint (PacketID h)])
           else Inr h)"

text \<open>What the decoder guarantees of a header.\<close>

definition hdr_ok :: "pktHeader \<Rightarrow> bool" where
  "hdr_ok h \<longleftrightarrow> 1 \<le> Fragment h \<and> Fragment h \<le> NumFragments h"

section \<open>Fragmentation\<close>

definition maxFragmentPayload :: nat where
  "maxFragmentPayload = 510"

fun fragment_loop :: "bytes \<Rightarrow> nat \<Rightarrow> nat \<Rightarrow> bytes list" where
  "fragment_loop frame 0 offset = []"
| "fragment_loop frame (Suc k) offset =
     (let nextOffset = offset + maxFragmentPayload;
          nextOffset = (if nextOffset > length frame then length frame else nextOffset)
      in go_slice offset nextOffset frame # fragment_loop frame k nextOffset)"

definition fragmentFrame :: "bytes \<Rightarrow> bytes list" where
  "fragmentFrame frame =
     fragment_loop frame ((length frame + maxFragmentPayload - 1) div maxFragmentPayload) 0"

section \<open>Reassembly\<close>

definition maxFrames :: nat where
  "maxFrames = 16"

definition maxAge :: duration where
  "maxAge = 10 * second"

record frameKey =
  fk_src :: HeaderAddr
  fk_packetID :: u16

record frameData =
  fragments :: "bytes option list"
  lastRX :: time

type_synonym frames = "(frameKey \<times> frameData) list"

record frameReassembler =
  frames :: frames

definition reassembler_init :: frameReassembler where
  "reassembler_init = \<lparr>frames = []\<rparr>"

definition processFragment ::
  "time \<Rightarrow> pktHeader \<Rightarrow> bytes \<Rightarrow> frameData \<Rightarrow> (frameData \<times> bytes option) outcome" where
  "processFragment now hdr fragment fd =
     (if unat (NumFragments hdr) \<noteq> length (fragments fd) then Return (fd, None)
      else
        let i = unat (Fragment hdr - 1); fd = fd\<lparr>lastRX := now\<rparr>
        in if i \<ge> length (fragments fd) then Panic
           else
             let fd = fd\<lparr>fragments := (fragments fd)[i := Some fragment]\<rparr>
             in if None \<in> set (fragments fd) then Return (fd, None)
                else Return (fd, Some (concat (map the (fragments fd)))))"

definition zeroKey :: frameKey where
  "zeroKey = \<lparr>fk_src = zeroHeaderAddr, fk_packetID = 0\<rparr>"

fun flush_scan :: "time \<Rightarrow> frames \<Rightarrow> frameKey list \<times> frameKey \<times> time \<Rightarrow> frameKey list \<times> frameKey \<times> time" where
  "flush_scan now [] acc = acc"
| "flush_scan now ((key, data) # fs) (flushKeys, oldest, oldestTime) =
     (if now > lastRX data + maxAge then flush_scan now fs (flushKeys @ [key], oldest, oldestTime)
      else if oldestTime = 0 \<or> lastRX data < oldestTime then flush_scan now fs (flushKeys, key, lastRX data)
      else flush_scan now fs (flushKeys, oldest, oldestTime))"

definition flush :: "(frames \<Rightarrow> frames) \<Rightarrow> time \<Rightarrow> frameReassembler \<Rightarrow> frameReassembler" where
  "flush rng now fr =
     (let (flushKeys, oldest, oldestTime) = flush_scan now (rng (frames fr)) ([], zeroKey, 0);
          fs = fold AList.delete flushKeys (frames fr)
      in fr\<lparr>frames := if length flushKeys = 0 then AList.delete oldest fs else fs\<rparr>)"

definition reassemble ::
  "(frames \<Rightarrow> frames) \<Rightarrow> (nat \<Rightarrow> time) \<Rightarrow> Header \<Rightarrow> pktHeader \<Rightarrow> bytes \<Rightarrow> frameReassembler
     \<Rightarrow> (frameReassembler \<times> bytes option) outcome" where
  "reassemble rng clock ipxHeader hdr fragment fr =
     (if NumFragments hdr = 1 then Return (fr, Some fragment)
      else
        let key = \<lparr>fk_src = Src ipxHeader, fk_packetID = PacketID hdr\<rparr>;
            (fr1, fd) =
              (case map_of (frames fr) key of
                 Some fd \<Rightarrow> (fr, fd)
               | None \<Rightarrow> (if length (frames fr) \<ge> maxFrames then flush rng (clock 0) fr else fr,
                          \<lparr>fragments = replicate (unat (NumFragments hdr)) None, lastRX = 0\<rparr>))
        in case processFragment (clock 1) hdr fragment fd of
             Panic \<Rightarrow> Panic
           | Fail e \<Rightarrow> Fail e
           | Return (fd, None) \<Rightarrow> Return (fr1\<lparr>frames := AList.update key fd (frames fr1)\<rparr>, None)
           | Return (fd, Some result) \<Rightarrow> Return (fr1\<lparr>frames := AList.delete key (frames fr1)\<rparr>, Some result))"

section \<open>The header codec\<close>

lemma pktHeader_roundtrip:
  "hdr_ok h \<Longrightarrow> pktHeader_UnmarshalBinary (pktHeader_MarshalBinary h @ rest) = Inr h"
proof -
  assume h: "hdr_ok h"
  then have "1 \<le> NumFragments h" unfolding hdr_ok_def by (meson order_trans)
  with h show ?thesis
    by (auto simp: pktHeader_UnmarshalBinary_def pktHeader_MarshalBinary_def hdr_ok_def
        pktHeaderLength_def put_le16_def Let_def not_less not_le)
qed

lemma pktHeader_UnmarshalBinary_ok: "pktHeader_UnmarshalBinary b = Inr h \<Longrightarrow> hdr_ok h"
  by (auto simp: pktHeader_UnmarshalBinary_def hdr_ok_def Let_def not_less word_ge_1 split: if_splits)

section \<open>Fragmentation\<close>

lemma fragment_loop_concat:
  "offset \<le> length frame \<Longrightarrow> length frame - offset \<le> k * 510 \<Longrightarrow>
     concat (fragment_loop frame k offset) = drop offset frame"
proof (induction k arbitrary: offset)
  case (Suc k)
  let ?next = "if offset + 510 > length frame then length frame else offset + 510"
  have le: "offset \<le> ?next" "?next \<le> length frame" "length frame - ?next \<le> k * 510"
    using Suc.prems by auto
  from le have "go_slice offset ?next frame @ drop ?next frame = drop offset frame"
    unfolding go_slice_def by (metis append_take_drop_id drop_drop le_add_diff_inverse2)
  with Suc.IH [OF le(2,3)] show ?case
    by (simp add: Let_def maxFragmentPayload_def)
qed simp

lemma fragment_loop_length [simp]: "length (fragment_loop frame k offset) = k"
  by (induction k arbitrary: offset) (simp_all add: Let_def)

lemma fragment_loop_sizes:
  "offset \<le> length frame \<Longrightarrow> f \<in> set (fragment_loop frame k offset) \<Longrightarrow> length f \<le> 510"
proof (induction k arbitrary: offset)
  case (Suc k)
  let ?next = "if offset + 510 > length frame then length frame else offset + 510"
  from Suc.prems(2) have "f = go_slice offset ?next frame \<or> f \<in> set (fragment_loop frame k ?next)"
    by (simp add: Let_def maxFragmentPayload_def)
  with Suc.IH [of ?next] Suc.prems(1) show ?case by auto
qed simp

lemma fragmentFrame_concat: "concat (fragmentFrame frame) = frame"
proof -
  have "length frame \<le> (length frame + 509) div 510 * 510"
    using div_mult_mod_eq [of "length frame + 509" 510] mod_less_divisor [of 510 "length frame + 509"] by linarith
  then show ?thesis
    by (simp add: fragmentFrame_def maxFragmentPayload_def fragment_loop_concat)
qed

lemma fragmentFrame_length: "length (fragmentFrame frame) = (length frame + 509) div 510"
  by (simp add: fragmentFrame_def maxFragmentPayload_def)

section \<open>One frame\<close>

text \<open>What a sequence of fragments of one frame does to that frame's slot: the state of the slot and the
  frames completed.\<close>

type_synonym slot = "bytes option list option"

record arrival =
  ar_rng :: "frames \<Rightarrow> frames"
  ar_clock :: "nat \<Rightarrow> time"
  ar_ipx :: Header
  ar_hdr :: pktHeader
  ar_payload :: bytes

definition arrival_key :: "arrival \<Rightarrow> frameKey" where
  "arrival_key a = \<lparr>fk_src = Src (ar_ipx a), fk_packetID = PacketID (ar_hdr a)\<rparr>"

definition slot_step :: "arrival \<Rightarrow> slot \<Rightarrow> slot \<times> bytes list" where
  "slot_step a sl =
     (if NumFragments (ar_hdr a) = 1 then (sl, [ar_payload a])
      else
        let fs = (case sl of None \<Rightarrow> replicate (unat (NumFragments (ar_hdr a))) None | Some fs \<Rightarrow> fs)
        in if unat (NumFragments (ar_hdr a)) \<noteq> length fs then (Some fs, [])
           else let fs = fs[unat (Fragment (ar_hdr a) - 1) := Some (ar_payload a)]
                in if None \<in> set fs then (Some fs, []) else (None, [concat (map the fs)]))"

fun slot_run :: "arrival list \<Rightarrow> slot \<Rightarrow> slot \<times> bytes list" where
  "slot_run [] sl = (sl, [])"
| "slot_run (a # as) sl =
     (let (sl1, out1) = slot_step a sl; (sl2, out2) = slot_run as sl1 in (sl2, out1 @ out2))"

text \<open>Arrivals handled by a reassembler: the frames it hands on, with their keys.\<close>

definition feed_one :: "arrival \<Rightarrow> frameReassembler \<Rightarrow> (frameReassembler \<times> bytes option) outcome" where
  "feed_one a fr = reassemble (ar_rng a) (ar_clock a) (ar_ipx a) (ar_hdr a) (ar_payload a) fr"

fun feed :: "arrival list \<Rightarrow> frameReassembler \<Rightarrow> (frameReassembler \<times> (frameKey \<times> bytes) list) outcome" where
  "feed [] fr = Return (fr, [])"
| "feed (a # as) fr =
     (case feed_one a fr of
        Return (fr1, r) \<Rightarrow>
          (case feed as fr1 of
             Return (fr2, out) \<Rightarrow>
               Return (fr2, (case r of None \<Rightarrow> out | Some f \<Rightarrow> (arrival_key a, f) # out))
           | Fail e \<Rightarrow> Fail e | Panic \<Rightarrow> Panic)
      | Fail e \<Rightarrow> Fail e | Panic \<Rightarrow> Panic)"

definition slot_of :: "frameKey \<Rightarrow> frameReassembler \<Rightarrow> slot" where
  "slot_of k fr = map_option fragments (map_of (frames fr) k)"

section \<open>Invariant\<close>

definition fr_inv :: "frameReassembler \<Rightarrow> bool" where
  "fr_inv fr \<longleftrightarrow> distinct (map fst (frames fr)) \<and> length (frames fr) \<le> maxFrames"

lemma index_ok: "hdr_ok h \<Longrightarrow> unat (Fragment h - 1) < unat (NumFragments h)"
proof -
  assume h: "hdr_ok h"
  then have "Fragment h \<noteq> 0" "unat (Fragment h) \<le> unat (NumFragments h)"
    by (auto simp: hdr_ok_def word_ge_1 word_le_nat_alt)
  moreover from this have "0 < unat (Fragment h)" by (simp add: unat_gt_0)
  ultimately show ?thesis by (simp add: unat_pred)
qed

lemma delete_length: "length (AList.delete k xs) \<le> length xs"
  by (simp add: AList.delete_eq)

lemma delete_length_less: "k \<in> fst ` set xs \<Longrightarrow> length (AList.delete k xs) < length xs"
  by (force simp: AList.delete_eq intro: length_filter_less)

lemma fold_delete: "fold AList.delete ks xs = filter (\<lambda>(k, v). k \<notin> set ks) xs"
proof (induction ks arbitrary: xs)
  case (Cons k ks)
  then show ?case by (simp add: AList.delete_eq split_beta) (rule filter_cong, auto)
qed simp

lemma map_of_filter_keys:
  "map_of (filter (\<lambda>(k, v). k \<notin> S) xs) k = (if k \<in> S then None else map_of xs k)"
  by (induction xs) auto

text \<open>The scan finds all expired frames; if there are none, the oldest key is a key of the map.\<close>

lemma flush_scan_keys:
  "set (fst (flush_scan now fs acc)) = set (fst acc) \<union> {k. \<exists>d. (k, d) \<in> set fs \<and> now > lastRX d + maxAge}"
  by (induction now fs acc rule: flush_scan.induct) auto

lemma flush_scan_oldest_in:
  "fst (snd (flush_scan now fs acc)) \<in> insert (fst (snd acc)) (fst ` set fs)"
  by (induction now fs acc rule: flush_scan.induct) auto

lemma flush_scan_oldest:
  "snd (snd acc) = 0 \<Longrightarrow> fs \<noteq> [] \<Longrightarrow> fst acc = [] \<Longrightarrow> fst (flush_scan now fs acc) = [] \<Longrightarrow>
     fst (snd (flush_scan now fs acc)) \<in> fst ` set fs"
proof (cases acc, cases fs)
  fix ks old t key_data fs'
  assume *: "snd (snd acc) = 0" "fst acc = []" "fst (flush_scan now fs acc) = []"
    "acc = (ks, old, t)" "fs = key_data # fs'"
  obtain key data where kd: "key_data = (key, data)" by (rule prod.exhaust)
  have "\<not> now > lastRX data + maxAge"
    using * flush_scan_keys [of now fs acc] by (auto simp: kd)
  then show ?thesis
    using * flush_scan_oldest_in [of now fs' "(ks, key, lastRX data)"] by (simp add: kd)
qed simp

lemma flush_frees:
  assumes "mset (rng (frames fr)) = mset (frames fr)" "frames fr \<noteq> []"
  shows "length (frames (flush rng now fr)) < length (frames fr)"
proof -
  obtain ks old t where sc: "flush_scan now (rng (frames fr)) ([], zeroKey, 0) = (ks, old, t)"
    by (metis prod.exhaust)
  have set: "set (rng (frames fr)) = set (frames fr)" using assms(1) by (rule mset_eq_setD)
  have ne: "rng (frames fr) \<noteq> []" using assms by auto
  show ?thesis
  proof (cases "ks = []")
    case True
    with flush_scan_oldest [of "([], zeroKey, 0)" "rng (frames fr)" now] sc ne set
    have "old \<in> fst ` set (frames fr)" by simp
    with True sc show ?thesis by (simp add: flush_def delete_length_less)
  next
    case False
    then obtain k where k: "k \<in> set ks" by (cases ks) auto
    with flush_scan_keys [of now "rng (frames fr)" "([], zeroKey, 0)"] sc set
    obtain d where "(k, d) \<in> set (frames fr)" by auto
    with k False sc show ?thesis
      by (simp add: flush_def fold_delete) (rule length_filter_less, auto)
  qed
qed

lemma distinct_length_keys: "distinct (map fst xs) \<Longrightarrow> length xs = card (fst ` set xs)"
  by (metis distinct_card length_map set_map)

lemma length_update:
  "distinct (map fst xs) \<Longrightarrow> length (AList.update k v xs) = (if k \<in> fst ` set xs then length xs else Suc (length xs))"
  by (simp add: distinct_length_keys [of xs] distinct_length_keys [OF distinct_update] dom_update insert_absorb)

lemma processFragment_eq:
  "hdr_ok hdr \<Longrightarrow> processFragment now hdr p fd =
     Return (if unat (NumFragments hdr) \<noteq> length (fragments fd) then (fd, None)
       else let fs = (fragments fd)[unat (Fragment hdr - 1) := Some p]
            in (fd\<lparr>lastRX := now, fragments := fs\<rparr>, if None \<in> set fs then None else Some (concat (map the fs))))"
  using index_ok [of hdr] by (auto simp: processFragment_def Let_def)

lemma flush_keys:
  "distinct (map fst (frames fr)) \<Longrightarrow> distinct (map fst (frames (flush rng now fr)))"
  "fst ` set (frames (flush rng now fr)) \<subseteq> fst ` set (frames fr)"
  by (auto simp: flush_def split_beta fold_delete Let_def AList.delete_eq distinct_map_filter)

definition make_room :: "arrival \<Rightarrow> frameReassembler \<Rightarrow> frameReassembler" where
  "make_room a fr =
     (if arrival_key a \<notin> fst ` set (frames fr) \<and> length (frames fr) \<ge> maxFrames
      then flush (ar_rng a) (ar_clock a 0) fr else fr)"

lemma make_room_inv:
  assumes "fr_inv fr" "mset (ar_rng a (frames fr)) = mset (frames fr)"
  shows "fr_inv (make_room a fr)
    \<and> (arrival_key a \<in> fst ` set (frames (make_room a fr)) \<or> length (frames (make_room a fr)) < maxFrames)
    \<and> slot_of (arrival_key a) (make_room a fr) = slot_of (arrival_key a) fr"
proof (cases "arrival_key a \<notin> fst ` set (frames fr) \<and> length (frames fr) \<ge> maxFrames")
  case True
  with assms have "frames fr \<noteq> []" by (auto simp: maxFrames_def)
  from flush_frees [of "ar_rng a" fr "ar_clock a 0", OF assms(2) this] True assms(1)
    flush_keys(1) [of fr "ar_rng a" "ar_clock a 0"]
  have "fr_inv (make_room a fr)" "length (frames (make_room a fr)) < maxFrames"
    by (auto simp: fr_inv_def make_room_def)
  moreover have "arrival_key a \<notin> fst ` set (frames (make_room a fr))"
    using flush_keys(2) [of "ar_rng a" "ar_clock a 0" fr] True by (auto simp: make_room_def)
  ultimately show ?thesis
    using True by (simp add: slot_of_def flip: map_of_eq_None_iff)
qed (use assms in \<open>auto simp: make_room_def fr_inv_def\<close>)

lemma fr_inv_update:
  "fr_inv fr \<Longrightarrow> k \<in> fst ` set (frames fr) \<or> length (frames fr) < maxFrames \<Longrightarrow>
     fr_inv (fr\<lparr>frames := AList.update k v (frames fr)\<rparr>)"
  by (auto simp: fr_inv_def distinct_update length_update)

lemma fr_inv_delete: "fr_inv fr \<Longrightarrow> fr_inv (fr\<lparr>frames := AList.delete k (frames fr)\<rparr>)"
  using delete_length [of k "frames fr"] by (auto simp: fr_inv_def distinct_delete)

lemma slot_of_update:
  "slot_of k' (fr\<lparr>frames := AList.update k v (frames fr)\<rparr>) = (if k' = k then Some (fragments v) else slot_of k' fr)"
  "slot_of k' (fr\<lparr>frames := AList.delete k (frames fr)\<rparr>) = (if k' = k then None else slot_of k' fr)"
  by (simp_all add: slot_of_def update_conv' delete_conv')

lemma feed_one_spec:
  assumes fr: "fr_inv fr" "mset (ar_rng a (frames fr)) = mset (frames fr)" and h: "hdr_ok (ar_hdr a)"
  shows "\<exists>fr' r. feed_one a fr = Return (fr', r) \<and> fr_inv fr'
    \<and> (\<forall>k. slot_of k fr' = (if k = arrival_key a then fst (slot_step a (slot_of k fr))
         else if NumFragments (ar_hdr a) = 1 then slot_of k fr else slot_of k (make_room a fr)))
    \<and> (case r of None \<Rightarrow> [] | Some f \<Rightarrow> [f]) = snd (slot_step a (slot_of (arrival_key a) fr))"
proof (cases "NumFragments (ar_hdr a) = 1")
  case True
  with fr show ?thesis by (simp add: feed_one_def reassemble_def slot_step_def)
next
  case False
  let ?k = "arrival_key a"
  note room = make_room_inv [OF fr]
  define fd where "fd = (case map_of (frames fr) ?k of Some fd \<Rightarrow> fd
      | None \<Rightarrow> \<lparr>fragments = replicate (unat (NumFragments (ar_hdr a))) None, lastRX = 0\<rparr>)"
  have sl: "(case slot_of ?k fr of None \<Rightarrow> replicate (unat (NumFragments (ar_hdr a))) None | Some fs \<Rightarrow> fs) = fragments fd"
    by (simp add: slot_of_def fd_def split: option.splits)
  have step: "feed_one a fr = (case processFragment (ar_clock a 1) (ar_hdr a) (ar_payload a) fd of
             Panic \<Rightarrow> Panic
           | Fail e \<Rightarrow> Fail e
           | Return (fd, None) \<Rightarrow> Return ((make_room a fr)\<lparr>frames := AList.update ?k fd (frames (make_room a fr))\<rparr>, None)
           | Return (fd, Some result) \<Rightarrow> Return ((make_room a fr)\<lparr>frames := AList.delete ?k (frames (make_room a fr))\<rparr>, Some result))"
  proof (cases "map_of (frames fr) ?k")
    case None
    then have "?k \<notin> fst ` set (frames fr)" by (simp add: map_of_eq_None_iff)
    with None False show ?thesis
      unfolding make_room_def by (simp add: feed_one_def reassemble_def Let_def fd_def flip: arrival_key_def)
  next
    case (Some d)
    then have "?k \<in> fst ` set (frames fr)" by (metis image_eqI map_of_SomeD fst_conv)
    with Some False show ?thesis
      unfolding make_room_def by (simp add: feed_one_def reassemble_def Let_def fd_def flip: arrival_key_def)
  qed
  show ?thesis
    using room False
    by (auto simp: step processFragment_eq [OF h] slot_step_def sl Let_def slot_of_update
        intro: fr_inv_update fr_inv_delete)
qed

section \<open>Any interleaving\<close>

definition arrival_ok :: "arrival \<Rightarrow> bool" where
  "arrival_ok a \<longleftrightarrow> hdr_ok (ar_hdr a) \<and> (\<forall>fs. mset (ar_rng a fs) = mset fs)"

lemma slot_of_keys: "slot_of k fr = None \<longleftrightarrow> k \<notin> fst ` set (frames fr)"
  by (simp add: slot_of_def map_of_eq_None_iff)

lemma feed_inv:
  "fr_inv fr \<Longrightarrow> list_all arrival_ok as \<Longrightarrow> \<exists>fr' out. feed as fr = Return (fr', out) \<and> fr_inv fr'"
proof (induction as arbitrary: fr)
  case (Cons a as)
  then have "mset (ar_rng a (frames fr)) = mset (frames fr)" "hdr_ok (ar_hdr a)"
    by (auto simp: arrival_ok_def)
  from feed_one_spec [OF Cons.prems(1) this]
  obtain fr1 r where "feed_one a fr = Return (fr1, r)" "fr_inv fr1" by blast
  with Cons show ?case by fastforce
qed simp

text \<open>With at most sixteen frames in flight nothing is flushed, and each frame only depends on its own fragments.\<close>

lemma feed_spec:
  assumes "fr_inv fr" "list_all arrival_ok as"
    and "card (fst ` set (frames fr) \<union> arrival_key ` set as) \<le> 16"
  shows "\<exists>fr' out. feed as fr = Return (fr', out)
    \<and> (\<forall>k. slot_run (filter (\<lambda>a. arrival_key a = k) as) (slot_of k fr)
           = (slot_of k fr', map snd (filter (\<lambda>(k', f). k' = k) out)))"
  using assms
proof (induction as arbitrary: fr)
  case (Cons a as)
  let ?k = "arrival_key a"
  have "?k \<in> fst ` set (frames fr) \<or> length (frames fr) < maxFrames"
  proof (rule disjCI)
    assume "\<not> length (frames fr) < maxFrames"
    with Cons.prems(1) have l: "card (fst ` set (frames fr)) = 16"
      by (simp add: fr_inv_def maxFrames_def flip: distinct_length_keys)
    have "fst ` set (frames fr) = fst ` set (frames fr) \<union> arrival_key ` set (a # as)"
      by (rule card_seteq) (use Cons.prems(3) l in auto)
    moreover have "?k \<in> fst ` set (frames fr) \<union> arrival_key ` set (a # as)" by simp
    ultimately show "?k \<in> fst ` set (frames fr)" by blast
  qed
  then have room: "make_room a fr = fr" by (auto simp: make_room_def)
  have ok: "mset (ar_rng a (frames fr)) = mset (frames fr)" "hdr_ok (ar_hdr a)"
    using Cons.prems(2) by (auto simp: arrival_ok_def)
  from feed_one_spec [OF Cons.prems(1) ok] room
  obtain fr1 r where one: "feed_one a fr = Return (fr1, r)" and inv1: "fr_inv fr1"
    and sl: "\<forall>k. slot_of k fr1 = (if k = ?k then fst (slot_step a (slot_of k fr)) else slot_of k fr)"
    and r: "(case r of None \<Rightarrow> [] | Some f \<Rightarrow> [f]) = snd (slot_step a (slot_of ?k fr))" by auto
  have "fst ` set (frames fr1) \<subseteq> fst ` set (frames fr) \<union> {?k}"
    using sl slot_of_keys by (metis Un_iff insertI1 subsetI)
  then have "fst ` set (frames fr1) \<union> arrival_key ` set as \<subseteq> fst ` set (frames fr) \<union> arrival_key ` set (a # as)"
    by auto
  with Cons.prems(3) have "card (fst ` set (frames fr1) \<union> arrival_key ` set as) \<le> 16"
    by (meson card_mono finite_UnI finite_imageI finite_set le_trans)
  with Cons.IH [OF inv1] Cons.prems(2) obtain fr' out where fd: "feed as fr1 = Return (fr', out)"
    and run: "\<forall>k. slot_run (filter (\<lambda>a. arrival_key a = k) as) (slot_of k fr1)
           = (slot_of k fr', map snd (filter (\<lambda>(k', f). k' = k) out))" by auto
  let ?out = "case r of None \<Rightarrow> out | Some f \<Rightarrow> (?k, f) # out"
  have "feed (a # as) fr = Return (fr', ?out)" using one fd by simp
  moreover have "slot_run (filter (\<lambda>a. arrival_key a = k) (a # as)) (slot_of k fr)
           = (slot_of k fr', map snd (filter (\<lambda>(k', f). k' = k) ?out))" for k
  proof (cases "k = ?k")
    case True
    with run [THEN spec, of k] sl [THEN spec, of k] r show ?thesis by (auto simp: split_beta split: option.splits)
  next
    case False
    with run [THEN spec, of k] sl [THEN spec, of k] show ?thesis by (auto split: option.splits)
  qed
  ultimately show ?case by blast
qed simp

section \<open>All fragments of a frame, in any order\<close>

definition frag_hdr :: "u16 \<Rightarrow> nat \<Rightarrow> nat \<Rightarrow> pktHeader" where
  "frag_hdr pid n i = \<lparr>Fragment = of_nat (Suc i), NumFragments = of_nat n, PacketID = pid\<rparr>"

definition partial :: "bytes list \<Rightarrow> nat set \<Rightarrow> bytes option list" where
  "partial frs S = map (\<lambda>i. if i \<in> S then Some (frs ! i) else None) [0..<length frs]"

definition represents :: "bytes list \<Rightarrow> nat set \<Rightarrow> slot \<Rightarrow> bool" where
  "represents frs S sl \<longleftrightarrow> sl = Some (partial frs S) \<or> (sl = None \<and> S = {})"

lemma frag_hdr_ok:
  assumes "i < n" "n \<le> 255"
  shows "hdr_ok (frag_hdr pid n i)" "unat (Fragment (frag_hdr pid n i) - 1) = i"
    "unat (NumFragments (frag_hdr pid n i)) = n"
proof -
  have "unat (of_nat (Suc i) :: u8) = Suc i" "unat (of_nat n :: u8) = n"
    using assms by (simp_all only: unat_of_nat) simp_all
  then show "hdr_ok (frag_hdr pid n i)" "unat (Fragment (frag_hdr pid n i) - 1) = i"
    "unat (NumFragments (frag_hdr pid n i)) = n"
    using assms by (simp_all add: frag_hdr_def hdr_ok_def word_le_nat_alt unat_of_nat del: of_nat_Suc) (simp add: unat_of_nat)
qed

lemma partial_length [simp]: "length (partial frs S) = length frs"
  by (simp add: partial_def)

lemma partial_insert: "i < length frs \<Longrightarrow> (partial frs S)[i := Some (frs ! i)] = partial frs (insert i S)"
  by (rule nth_equalityI) (auto simp: partial_def nth_list_update)

lemma partial_complete:
  "S \<subseteq> {..<length frs} \<Longrightarrow> None \<in> set (partial frs S) \<longleftrightarrow> S \<noteq> {..<length frs}"
  by (auto simp: partial_def)

lemma partial_concat: "concat (map the (partial frs {..<length frs})) = concat frs"
proof -
  have "map the (partial frs {..<length frs}) = frs"
    by (rule nth_equalityI) (auto simp: partial_def)
  then show ?thesis by simp
qed

lemma slot_step_fragment:
  assumes "represents frs S sl" "S \<subseteq> {..<length frs}" "i < length frs" "2 \<le> length frs" "length frs \<le> 255"
    and a: "ar_hdr a = frag_hdr pid (length frs) i" "ar_payload a = frs ! i"
  shows "slot_step a sl = (if insert i S = {..<length frs} then (None, [concat frs])
      else (Some (partial frs (insert i S)), []))"
proof -
  have n: "NumFragments (ar_hdr a) \<noteq> 1" "unat (NumFragments (ar_hdr a)) = length frs"
    "unat (Fragment (ar_hdr a) - 1) = i"
    using frag_hdr_ok [OF assms(3,5), of pid] assms(4) by (auto simp: a)
  have fs: "(case sl of None \<Rightarrow> replicate (unat (NumFragments (ar_hdr a))) None | Some fs \<Rightarrow> fs) = partial frs S"
    using assms(1) by (auto simp: n(2) represents_def partial_def map_replicate_const)
  have "insert i S \<subseteq> {..<length frs}" using assms(2,3) by auto
  from partial_complete [OF this] n show ?thesis
    by (simp add: slot_step_def fs Let_def a(2) partial_insert [OF assms(3)] partial_concat)
qed

lemma slot_run_append:
  "slot_run (as @ bs) sl = (let (sl1, o1) = slot_run as sl; (sl2, o2) = slot_run bs sl1 in (sl2, o1 @ o2))"
  by (induction as arbitrary: sl) (auto simp: split_beta)

lemma slot_run_partial:
  assumes "represents frs S sl" "S \<subseteq> {..<length frs}" "2 \<le> length frs" "length frs \<le> 255"
    and "map (\<lambda>a. (ar_hdr a, ar_payload a)) as = map (\<lambda>i. (frag_hdr pid (length frs) i, frs ! i)) is"
    and "set is \<subseteq> {..<length frs}" "S \<union> set is \<noteq> {..<length frs}"
  shows "\<exists>sl'. slot_run as sl = (sl', []) \<and> represents frs (S \<union> set is) sl'"
  using assms
proof (induction as arbitrary: S sl "is")
  case (Cons a as)
  from Cons.prems(5) obtain i is' where i: "is = i # is'" "ar_hdr a = frag_hdr pid (length frs) i" "ar_payload a = frs ! i"
    "map (\<lambda>a. (ar_hdr a, ar_payload a)) as = map (\<lambda>i. (frag_hdr pid (length frs) i, frs ! i)) is'"
    by (cases "is") auto
  have l: "i < length frs" "insert i S \<subseteq> {..<length frs}" "set is' \<subseteq> {..<length frs}"
    using Cons.prems(2,6) by (simp_all add: i(1))
  have u: "insert i S \<union> set is' \<noteq> {..<length frs}" using Cons.prems(7) by (simp add: i(1))
  with l(2,3) have ne: "insert i S \<noteq> {..<length frs}" by blast
  from slot_step_fragment [OF Cons.prems(1,2) l(1) Cons.prems(3,4) i(2,3)] ne
  have "slot_step a sl = (Some (partial frs (insert i S)), [])" by simp
  moreover have "\<exists>sl'. slot_run as (Some (partial frs (insert i S))) = (sl', []) \<and> represents frs (insert i S \<union> set is') sl'"
    by (rule Cons.IH [OF _ l(2) Cons.prems(3,4) i(4) l(3) u]) (simp add: represents_def)
  ultimately show ?case using i(1) by auto
qed auto

lemma slot_run_complete:
  assumes "2 \<le> length frs" "length frs \<le> 255"
    and "map (\<lambda>a. (ar_hdr a, ar_payload a)) as = map (\<lambda>i. (frag_hdr pid (length frs) i, frs ! i)) is"
    and "mset is = mset [0..<length frs]"
  shows "slot_run as None = (None, [concat frs])"
proof -
  have s: "set is = {..<length frs}" using mset_eq_setD [OF assms(4)] by (simp add: atLeast0LessThan)
  have d: "distinct is" using mset_eq_imp_distinct_iff [OF assms(4)] by simp
  have "length is = length frs" using mset_eq_length [OF assms(4)] by simp
  with assms(1) have "is \<noteq> []" by auto
  then obtain js j where js: "is = js @ [j]" by (cases "is" rule: rev_cases) simp_all
  have "as \<noteq> []" using assms(3) by (auto simp: js)
  then obtain bs b where bs: "as = bs @ [b]" by (cases as rule: rev_cases) simp_all
  have j: "insert j (set js) = {..<length frs}" "j \<notin> set js"
    using s d by (simp_all add: js)
  then have j': "set js \<subseteq> {..<length frs}" "j < length frs" "set js \<noteq> {..<length frs}" by blast+
  have m: "map (\<lambda>a. (ar_hdr a, ar_payload a)) bs = map (\<lambda>i. (frag_hdr pid (length frs) i, frs ! i)) js"
    and b: "ar_hdr b = frag_hdr pid (length frs) j" "ar_payload b = frs ! j"
    using assms(3) by (simp_all add: js bs)
  from slot_run_partial [of frs "{}" None bs pid js, OF _ _ assms(1,2) m j'(1)] j'(3)
  obtain sl where sl: "slot_run bs None = (sl, [])" "represents frs (set js) sl"
    by (simp add: represents_def) blast
  from slot_step_fragment [OF sl(2) j'(1,2) assms(1,2) b] j(1) sl(1) show ?thesis
    by (simp add: bs slot_run_append)
qed

lemma fragmentFrame_count:
  "0 < length frame \<Longrightarrow> length frame \<le> 255 * 510 \<Longrightarrow> 1 \<le> length (fragmentFrame frame) \<and> length (fragmentFrame frame) \<le> 255"
  by (auto simp: fragmentFrame_length Suc_le_eq div_greater_zero_iff less_mult_imp_div_less
      simp flip: less_Suc_eq_le)

lemma slot_run_frame:
  assumes "0 < length frame" "length frame \<le> 255 * 510"
    and "is": "map (\<lambda>a. (ar_hdr a, ar_payload a)) as = map (\<lambda>i. (frag_hdr pid (length (fragmentFrame frame)) i, fragmentFrame frame ! i)) is"
      "mset is = mset [0..<length (fragmentFrame frame)]"
  shows "slot_run as None = (None, [frame])"
proof (cases "length (fragmentFrame frame) = 1")
  case True
  with "is"(2) have "is = [0]" by simp
  with "is"(1) obtain a where "as = [a]" "ar_hdr a = frag_hdr pid 1 0" "ar_payload a = fragmentFrame frame ! 0"
    by (auto simp: True)
  moreover have "fragmentFrame frame ! 0 = frame" using True fragmentFrame_concat [of frame] by (auto simp: length_Suc_conv)
  ultimately show ?thesis by (simp add: slot_step_def frag_hdr_def)
next
  case False
  with fragmentFrame_count [OF assms(1,2)] slot_run_complete [OF _ _ "is"] show ?thesis
    by (simp add: fragmentFrame_concat)
qed

lemma feed_init:
  assumes "list_all arrival_ok as" "card (arrival_key ` set as) \<le> 16"
  shows "\<exists>fr' out. feed as reassembler_init = Return (fr', out)
    \<and> (\<forall>k. slot_run (filter (\<lambda>a. arrival_key a = k) as) None
           = (slot_of k fr', map snd (filter (\<lambda>(k', f). k' = k) out)))"
  using feed_spec [of reassembler_init as] assms
  by (simp add: fr_inv_def reassembler_init_def slot_of_def)

lemma feed_out_keys: "feed as fr = Return (fr', out) \<Longrightarrow> fst ` set out \<subseteq> arrival_key ` set as"
  by (induction as arbitrary: fr out) (fastforce split: outcome.splits option.splits)+

text \<open>
  C5. Frames survive fragmentation, reordering and interleaving. Cut a frame of at most 255 fragments
  with \<^verbatim>\<open>fragmentFrame\<close>; let the fragments arrive at a new reassembler in any order, interleaved with any
  other valid fragments from any senders, of at most sixteen frames in total. Then the reassembler hands
  on, under that sender and packet ID, exactly this one frame, and its slot is free again.
\<close>

theorem reassembly_any_order:
  assumes "list_all arrival_ok as"
    and "card (arrival_key ` set as) \<le> 16"
    and "0 < length frame" "length frame \<le> 255 * 510"
    and "mset (map (\<lambda>a. (ar_hdr a, ar_payload a)) (filter (\<lambda>a. arrival_key a = k) as)) =
         mset (map (\<lambda>i. (frag_hdr (fk_packetID k) (length (fragmentFrame frame)) i, fragmentFrame frame ! i))
           [0..<length (fragmentFrame frame)])"
  shows "\<exists>fr' out. feed as reassembler_init = Return (fr', out)
    \<and> map snd (filter (\<lambda>(k', f). k' = k) out) = [frame] \<and> slot_of k fr' = None"
proof -
  let ?ks = "filter (\<lambda>a. arrival_key a = k) as"
  from assms(5) obtain "is" where "map (\<lambda>a. (ar_hdr a, ar_payload a)) ?ks
      = map (\<lambda>i. (frag_hdr (fk_packetID k) (length (fragmentFrame frame)) i, fragmentFrame frame ! i)) is"
      "mset is = mset [0..<length (fragmentFrame frame)]"
    by (rule mset_eq_mapE)
  from slot_run_frame [OF assms(3,4) this] feed_init [OF assms(1,2)] show ?thesis by fastforce
qed

text \<open>
  C30. The reassembler is safe against hostile input: whatever fragments with decodable headers arrive, in
  whatever order and at whatever times, it never panics and never stores more than sixteen frames.
\<close>

theorem reassembler_bounded:
  assumes "list_all (\<lambda>(raw, a). pktHeader_UnmarshalBinary raw = Inr (ar_hdr a) \<and> (\<forall>fs. mset (ar_rng a fs) = mset fs)) as"
  shows "\<exists>fr' out. feed (map snd as) reassembler_init = Return (fr', out) \<and> length (frames fr') \<le> 16"
proof -
  have "list_all arrival_ok (map snd as)"
    using assms by (fastforce simp: list_all_iff arrival_ok_def dest: pktHeader_UnmarshalBinary_ok)
  moreover have "fr_inv reassembler_init" by (simp add: fr_inv_def reassembler_init_def)
  ultimately show ?thesis using feed_inv by (fastforce simp: fr_inv_def maxFrames_def)
qed

text \<open>
  \<^verbatim>\<open>fragmentFrame\<close> loses nothing and respects the size limit: the fragments joined are the frame, none
  is longer than 510 bytes, and there are as few as possible.
\<close>

lemma fragmentFrame_correct:
  "concat (fragmentFrame frame) = frame
   \<and> list_all (\<lambda>f. length f \<le> 510) (fragmentFrame frame)
   \<and> length (fragmentFrame frame) = (length frame + 509) div 510"
  using fragment_loop_sizes [of 0 frame]
  by (auto simp: fragmentFrame_concat fragmentFrame_length list_all_iff) (simp add: fragmentFrame_def)

section \<open>A concrete frame\<close>

definition demo_frame :: bytes where
  "demo_frame = replicate 600 7"

definition demo_arrival :: "byte \<Rightarrow> u16 \<Rightarrow> nat \<Rightarrow> nat \<Rightarrow> bytes \<Rightarrow> arrival" where
  "demo_arrival src pid n i payload = \<lparr>ar_rng = id, ar_clock = (\<lambda>_. 1),
     ar_ipx = zeroHeader\<lparr>Src := demo_addr src\<rparr>, ar_hdr = frag_hdr pid n i, ar_payload = payload\<rparr>"

definition demo_arrivals :: "arrival list" where
  "demo_arrivals = [demo_arrival 1 5 2 1 (replicate 90 7), demo_arrival 2 5 3 0 [1], demo_arrival 1 5 2 0 (replicate 510 7)]"

lemma demo_fragments: "fragmentFrame demo_frame = [replicate 510 7, replicate 90 7]"
  by (simp add: fragmentFrame_def demo_frame_def maxFragmentPayload_def go_slice_def numeral_2_eq_2 Let_def)

theorem reassembly_any_order_witness:
  "\<exists>fr' out. feed demo_arrivals reassembler_init = Return (fr', out)
    \<and> map snd (filter (\<lambda>(k', f). k' = arrival_key (hd demo_arrivals)) out) = [demo_frame]
    \<and> slot_of (arrival_key (hd demo_arrivals)) fr' = None"
proof -
  let ?k = "arrival_key (hd demo_arrivals)"
  have "list_all arrival_ok demo_arrivals"
    using frag_hdr_ok(1) [of 1 2 5] frag_hdr_ok(1) [of 0 3 5] frag_hdr_ok(1) [of 0 2 5]
    by (simp add: demo_arrivals_def demo_arrival_def arrival_ok_def)
  moreover have "card (arrival_key ` set demo_arrivals) \<le> 16"
    using card_image_le [of "set demo_arrivals" arrival_key] by (simp add: demo_arrivals_def card_insert_if split: if_splits)
  moreover have "filter (\<lambda>a. arrival_key a = ?k) demo_arrivals
      = [demo_arrival 1 5 2 1 (replicate 90 7), demo_arrival 1 5 2 0 (replicate 510 7)]"
    by (simp add: demo_arrivals_def demo_arrival_def arrival_key_def frag_hdr_def demo_addr_def)
  moreover have "fk_packetID ?k = 5"
    by (simp add: demo_arrivals_def demo_arrival_def arrival_key_def frag_hdr_def)
  ultimately show ?thesis
    by (intro reassembly_any_order)
      (simp_all only: demo_fragments, simp_all add: demo_frame_def demo_arrival_def upt_rec numeral_2_eq_2)
qed

theorem reassembler_bounded_witness:
  "\<exists>fr' out. feed [demo_arrival 1 5 2 1 [9]] reassembler_init = Return (fr', out) \<and> length (frames fr') \<le> 16"
  using reassembler_bounded [of "[([2, 2, 5, 0, 9], demo_arrival 1 5 2 1 [9])]"]
  by (simp add: demo_arrival_def pktHeader_UnmarshalBinary_def pktHeaderLength_def Let_def frag_hdr_def be_u16_def)

end
