(* ===== verification/RoutingTable.thy ===== *)
theory RoutingTable
  imports Ipx
begin

text \<open>
  The routing table of the IPX switch (\<^verbatim>\<open>src/network/ipxswitch/table.go\<close>): which port an IPX address
  was last seen on, learned from the source addresses of packets.

  The contract of the table is the locale \<open>address_learning\<close>: a map from (network, node) addresses to
  ports that forgets all addresses of a port when the port is deleted. The table implements it
  through the abstraction \<open>table_abs\<close>; the interpretation is \<open>rt\<close>.
\<close>

section \<open>Data and operations\<close>

record addressData =
  lastRXTime :: time
  portID :: int

text \<open>\<^verbatim>\<open>portData\<close> holds a Go map used as a set: keys are only ever stored with value true.\<close>

record portData =
  pd_addrs :: "HeaderAddr set"

record routingTable =
  addrs :: "HeaderAddr \<rightharpoonup> addressData"
  ports :: "int \<rightharpoonup> portData"

definition broadcastDest :: int where
  "broadcastDest = -1"

definition makeRoutingTable :: routingTable where
  "makeRoutingTable = \<lparr>addrs = Map.empty, ports = Map.empty\<rparr>"

definition makeKey :: "HeaderAddr \<Rightarrow> HeaderAddr" where
  "makeKey a = a\<lparr>Socket := 0\<rparr>"

definition checkDestPort :: "time \<Rightarrow> HeaderAddr \<Rightarrow> int \<Rightarrow> routingTable \<Rightarrow> bool" where
  "checkDestPort now key destPort t =
     (case addrs t key of
        None \<Rightarrow> False
      | Some ad \<Rightarrow> if portID ad \<noteq> destPort then False else now - lastRXTime ad < 5 * second)"

text \<open>\<open>upd_port p f\<close> mutates the \<^verbatim>\<open>portData\<close> object that \<^verbatim>\<open>t.ports[p]\<close> points to, if there is one.\<close>

definition upd_port :: "int \<Rightarrow> (HeaderAddr set \<Rightarrow> HeaderAddr set) \<Rightarrow> routingTable \<Rightarrow> routingTable" where
  "upd_port p f t =
     (case ports t p of
        None \<Rightarrow> t
      | Some pd \<Rightarrow> t\<lparr>ports := (ports t)(p \<mapsto> pd\<lparr>pd_addrs := f (pd_addrs pd)\<rparr>)\<rparr>)"

text \<open>
  \<^verbatim>\<open>Record\<close>. \<open>clk i\<close> is the \<open>i\<close>-th clock reading of the call: first the \<^verbatim>\<open>time.Since\<close> of the fast
  path, then the \<^verbatim>\<open>time.Now()\<close> at the end. The reassignment branch keeps the order of the source:
  \<^verbatim>\<open>ad.portID\<close> is overwritten first and then used to find \<^verbatim>\<open>otherPD\<close>.
\<close>

definition Record :: "(nat \<Rightarrow> time) \<Rightarrow> int \<Rightarrow> HeaderAddr \<Rightarrow> routingTable \<Rightarrow> routingTable" where
  "Record clk sourcePort src t =
     (if Addr src = AddrBroadcast \<or> Addr src = AddrNull then t
      else let key = makeKey src in
        if checkDestPort (clk 0) key sourcePort t then t
        else case ports t sourcePort of
          None \<Rightarrow> t
        | Some pd \<Rightarrow>
            (case addrs t key of
               None \<Rightarrow>
                 let t1 = upd_port sourcePort (insert key) t;
                     ad = \<lparr>lastRXTime = clk 1, portID = sourcePort\<rparr>
                 in t1\<lparr>addrs := (addrs t1)(key \<mapsto> ad)\<rparr>
             | Some ad \<Rightarrow>
                 if portID ad \<noteq> sourcePort then
                   let ad1 = ad\<lparr>portID := sourcePort\<rparr>;
                       t1 = upd_port (portID ad1) (\<lambda>ks. ks - {key}) t;
                       t2 = upd_port sourcePort (insert key) t1
                   in t2\<lparr>addrs := (addrs t2)(key \<mapsto> ad1\<lparr>lastRXTime := clk 1\<rparr>)\<rparr>
                 else t\<lparr>addrs := (addrs t)(key \<mapsto> ad\<lparr>lastRXTime := clk 1\<rparr>)\<rparr>))"

definition LookupDest :: "HeaderAddr \<Rightarrow> routingTable \<Rightarrow> int" where
  "LookupDest dest t =
     (if Addr dest = AddrBroadcast then broadcastDest
      else case addrs t (makeKey dest) of
             None \<Rightarrow> broadcastDest
           | Some ad \<Rightarrow> portID ad)"

definition AddPort :: "int \<Rightarrow> routingTable \<Rightarrow> routingTable" where
  "AddPort p t = t\<lparr>ports := (ports t)(p \<mapsto> \<lparr>pd_addrs = {}\<rparr>)\<rparr>"

text \<open>
  \<^verbatim>\<open>DeletePort\<close>: the loop deletes each listed key that still points at this port; the order of the
  iteration does not matter, so the result is written as one map. \<^verbatim>\<open>t.ports\<close> keeps its entry.
\<close>

definition DeletePort :: "int \<Rightarrow> routingTable \<Rightarrow> routingTable" where
  "DeletePort p t =
     (case ports t p of
        None \<Rightarrow> t
      | Some pd \<Rightarrow>
          t\<lparr>addrs := (\<lambda>key. if key \<in> pd_addrs pd \<and> map_option portID (addrs t key) = Some p
                            then None else addrs t key)\<rparr>)"

section \<open>The abstract table and the invariant\<close>

type_synonym address_map = "HeaderAddr \<rightharpoonup> int"

definition table_abs :: "routingTable \<Rightarrow> address_map" where
  "table_abs t = (\<lambda>k. map_option portID (addrs t k))"

text \<open>Addresses that are ever learned: not the broadcast and not the null address, socket zero.\<close>

definition learnable :: "HeaderAddr \<Rightarrow> bool" where
  "learnable a \<longleftrightarrow> Addr a \<noteq> AddrBroadcast \<and> Addr a \<noteq> AddrNull"

text \<open>
  Every entry of the address map is listed at the port it points to. Stale keys may be listed at
  other ports; they are harmless because \<^verbatim>\<open>DeletePort\<close> checks the entry before deleting it.
\<close>

definition table_inv :: "routingTable \<Rightarrow> bool" where
  "table_inv t \<longleftrightarrow>
     (\<forall>k ad. addrs t k = Some ad \<longrightarrow>
        learnable k \<and> Socket k = 0 \<and>
        (\<exists>pd. ports t (portID ad) = Some pd \<and> k \<in> pd_addrs pd))"

lemma makeKey_simps [simp]:
  "Addr (makeKey a) = Addr a" "Network (makeKey a) = Network a" "Socket (makeKey a) = 0"
  "learnable (makeKey a) \<longleftrightarrow> learnable a"
  by (simp_all add: makeKey_def learnable_def)

lemma makeKey_eq_iff: "makeKey a = makeKey b \<longleftrightarrow> Network a = Network b \<and> Addr a = Addr b"
  by (cases a; cases b) (simp add: makeKey_def)

lemma upd_port_addrs [simp]: "addrs (upd_port p f t) = addrs t"
  by (simp add: upd_port_def split: option.splits)

lemma upd_port_ports:
  "ports (upd_port p f t) q =
     (if q = p then map_option (\<lambda>pd. pd\<lparr>pd_addrs := f (pd_addrs pd)\<rparr>) (ports t p) else ports t q)"
  by (simp add: upd_port_def split: option.splits)

lemma dom_upd_port [simp]: "dom (ports (upd_port p f t)) = dom (ports t)"
  by (auto simp: upd_port_ports split: if_splits)

lemma dom_ports_Record [simp]: "dom (ports (Record clk p a t)) = dom (ports t)"
  by (simp add: Record_def Let_def split: option.splits)

lemma dom_ports_DeletePort [simp]: "dom (ports (DeletePort p t)) = dom (ports t)"
  by (simp add: DeletePort_def split: option.splits)

lemma dom_ports_AddPort [simp]: "dom (ports (AddPort p t)) = insert p (dom (ports t))"
  by (simp add: AddPort_def)

lemma table_inv_empty: "table_inv makeRoutingTable"
  by (simp add: table_inv_def makeRoutingTable_def)

lemma table_inv_AddPort:
  assumes inv: "table_inv t" and fresh: "p \<notin> dom (ports t)"
  shows "table_inv (AddPort p t)"
proof -
  have "portID ad \<noteq> p" if "addrs t k = Some ad" for k ad
    using that inv fresh by (auto simp: table_inv_def)
  then show ?thesis
    using inv by (simp add: table_inv_def AddPort_def)
qed

lemma table_inv_DeletePort: "table_inv t \<Longrightarrow> table_inv (DeletePort p t)"
  by (auto simp: table_inv_def DeletePort_def split: option.splits if_splits)

lemma table_inv_Record:
  assumes "table_inv t" shows "table_inv (Record clk p a t)"
proof -
  have "learnable (makeKey a)" if "\<not> (Addr a = AddrBroadcast \<or> Addr a = AddrNull)"
    using that by (simp add: learnable_def)
  then show ?thesis
    using assms
    by (fastforce simp: Record_def Let_def table_inv_def upd_port_ports split: option.splits if_splits)
qed

section \<open>Refinement of the abstract table\<close>

lemma table_abs_Record:
  "table_abs (Record clk p a t) =
     (if learnable a \<and> p \<in> dom (ports t) then (table_abs t)(makeKey a \<mapsto> p)
      else table_abs t)"
  if "table_inv t"
proof -
  have fast: "table_abs t (makeKey a) = Some p" if "checkDestPort (clk 0) (makeKey a) p t"
    using that by (auto simp: checkDestPort_def table_abs_def split: option.splits if_splits)
  have known: "p \<in> dom (ports t)" if "checkDestPort (clk 0) (makeKey a) p t"
    using that \<open>table_inv t\<close>
    by (fastforce simp: checkDestPort_def table_inv_def split: option.splits if_splits)
  show ?thesis
    using fast known
    by (auto simp: Record_def Let_def learnable_def table_abs_def fun_eq_iff split: option.splits)
qed

lemma LookupDest_abs:
  "LookupDest d t = (if Addr d = AddrBroadcast then broadcastDest
     else case table_abs t (makeKey d) of None \<Rightarrow> broadcastDest | Some p \<Rightarrow> p)"
  by (simp add: LookupDest_def table_abs_def split: option.splits)

lemma table_abs_AddPort [simp]: "table_abs (AddPort p t) = table_abs t"
  by (simp add: table_abs_def AddPort_def)

lemma table_abs_DeletePort:
  assumes "table_inv t"
  shows "table_abs (DeletePort p t) = (\<lambda>k. if table_abs t k = Some p then None else table_abs t k)"
proof
  fix k
  show "table_abs (DeletePort p t) k = (if table_abs t k = Some p then None else table_abs t k)"
    using assms
    by (cases "addrs t k")
      (fastforce simp: table_abs_def DeletePort_def table_inv_def split: option.splits if_splits)+
qed

section \<open>The interface of the table\<close>

text \<open>The events of a table's life, in the order they happen.\<close>

datatype table_event = Seen "nat \<Rightarrow> time" int HeaderAddr | PortAdded int | PortDeleted int

definition same_host :: "HeaderAddr \<Rightarrow> HeaderAddr \<Rightarrow> bool" where
  "same_host a b \<longleftrightarrow> Network a = Network b \<and> Addr a = Addr b"

text \<open>
  The abstract specification, for one destination host: the set of ports that exist, and the port
  the host was last seen on, if that port has not been deleted since.
\<close>

fun host_step :: "HeaderAddr \<Rightarrow> table_event \<Rightarrow> int set \<times> int option \<Rightarrow> int set \<times> int option" where
  "host_step d (Seen clk p a) (ps, seen) =
     (ps, if learnable a \<and> p \<in> ps \<and> same_host a d then Some p else seen)"
| "host_step d (PortAdded p) (ps, seen) = (insert p ps, seen)"
| "host_step d (PortDeleted p) (ps, seen) = (ps, if seen = Some p then None else seen)"

definition host_port :: "HeaderAddr \<Rightarrow> table_event list \<Rightarrow> int option" where
  "host_port d evs = snd (fold (host_step d) evs ({}, None))"

text \<open>Ports are added once: a port number is never reused.\<close>

fun ports_fresh :: "int set \<Rightarrow> table_event list \<Rightarrow> bool" where
  "ports_fresh ps [] = True"
| "ports_fresh ps (PortAdded p # evs) = (p \<notin> ps \<and> ports_fresh (insert p ps) evs)"
| "ports_fresh ps (_ # evs) = ports_fresh ps evs"

locale address_learning =
  fixes learn :: "(nat \<Rightarrow> time) \<Rightarrow> int \<Rightarrow> HeaderAddr \<Rightarrow> 't \<Rightarrow> 't"
    and lookup :: "HeaderAddr \<Rightarrow> 't \<Rightarrow> int option"
    and add :: "int \<Rightarrow> 't \<Rightarrow> 't"
    and del :: "int \<Rightarrow> 't \<Rightarrow> 't"
    and known :: "'t \<Rightarrow> int set"
    and inv :: "'t \<Rightarrow> bool"
  assumes inv_learn: "inv t \<Longrightarrow> inv (learn clk p a t)"
    and inv_add: "inv t \<Longrightarrow> p \<notin> known t \<Longrightarrow> inv (add p t)"
    and inv_del: "inv t \<Longrightarrow> inv (del p t)"
    and known_learn: "known (learn clk p a t) = known t"
    and known_add: "known (add p t) = insert p (known t)"
    and known_del: "known (del p t) = known t"
    and lookup_learn: "inv t \<Longrightarrow> lookup d (learn clk p a t) =
        (if learnable a \<and> p \<in> known t \<and> same_host a d then Some p else lookup d t)"
    and lookup_add: "lookup d (add p t) = lookup d t"
    and lookup_del: "inv t \<Longrightarrow> lookup d (del p t) = (if lookup d t = Some p then None else lookup d t)"
begin

primrec step :: "table_event \<Rightarrow> 't \<Rightarrow> 't" where
  "step (Seen clk p a) = learn clk p a"
| "step (PortAdded p) = add p"
| "step (PortDeleted p) = del p"

lemma step_simulates:
  assumes "inv t" and "ports_fresh (known t) (e # evs)"
  shows "inv (step e t)" and "ports_fresh (known (step e t)) evs"
    and "(known (step e t), lookup d (step e t)) = host_step d e (known t, lookup d t)"
  using assms
  by (cases e; auto simp: inv_learn inv_add inv_del known_learn known_add known_del
        lookup_learn lookup_add lookup_del)+

lemma run_simulates:
  assumes "inv t" and "ports_fresh (known t) evs"
  shows "(known (fold step evs t), lookup d (fold step evs t)) =
      fold (host_step d) evs (known t, lookup d t)"
  using assms
proof (induction evs arbitrary: t)
  case Nil
  then show ?case by simp
next
  case (Cons e evs)
  from step_simulates [OF Cons.prems] Cons.IH [of "step e t"] show ?case
    by (metis fold_simps(2))
qed

end

text \<open>The concrete table run over events, and the option view of \<^verbatim>\<open>LookupDest\<close> on unicast addresses.\<close>

primrec table_step :: "table_event \<Rightarrow> routingTable \<Rightarrow> routingTable" where
  "table_step (Seen clk p a) = Record clk p a"
| "table_step (PortAdded p) = AddPort p"
| "table_step (PortDeleted p) = DeletePort p"

interpretation rt: address_learning Record "\<lambda>d t. table_abs t (makeKey d)" AddPort DeletePort
  "\<lambda>t. dom (ports t)" table_inv
  by unfold_locales
    (auto simp: table_inv_Record table_inv_AddPort table_inv_DeletePort table_abs_Record
      table_abs_DeletePort makeKey_eq_iff same_host_def)

lemma rt_step_eq: "rt.step = table_step"
proof
  fix e show "rt.step e = table_step e" by (cases e) simp_all
qed

text \<open>
  C4. Address learning. After any history of packets seen, ports added and ports deleted, in which
  no port number is reused, a unicast destination is looked up to the port on which its network and
  node address was last seen as the source of a packet (whatever the socket), provided that port has
  not been deleted since; otherwise, and for the broadcast address, the packet is to be flooded.
\<close>

theorem routing_table_learns:
  assumes "ports_fresh {} evs"
  shows "LookupDest d (fold table_step evs makeRoutingTable) =
    (if Addr d = AddrBroadcast then broadcastDest
     else case host_port d evs of None \<Rightarrow> broadcastDest | Some p \<Rightarrow> p)"
  using rt.run_simulates [of makeRoutingTable evs d] assms table_inv_empty
  by (simp add: LookupDest_abs host_port_def rt_step_eq table_abs_def makeRoutingTable_def prod_eq_iff)

lemma demo_addr_learnable [simp]:
  "learnable (demo_addr a)" "same_host (demo_addr a) (demo_addr b) \<longleftrightarrow> a = b"
  by (auto simp: learnable_def same_host_def AddrBroadcast_def AddrNull_def)

theorem routing_table_learns_witness:
  "LookupDest (demo_addr 10) (fold table_step
     [PortAdded 0, PortAdded 1, Seen (\<lambda>_. 0) 0 (demo_addr 10), Seen (\<lambda>_. 1) 1 (demo_addr 10)] makeRoutingTable) = 1"
  using routing_table_learns [of
      "[PortAdded 0, PortAdded 1, Seen (\<lambda>_. 0) 0 (demo_addr 10), Seen (\<lambda>_. 1) 1 (demo_addr 10)]" "demo_addr 10"]
  by (simp add: host_port_def AddrBroadcast_def)

end
