(* ===== verification/Pipe.thy ===== *)
theory Pipe
  imports Ipx
begin

text \<open>
  Package \<^verbatim>\<open>network/pipe\<close> (\<^verbatim>\<open>src/network/pipe/pipe.go\<close>): the buffered, never blocking packet pipe that
  every component uses as its receive queue. The buffered Go channel is the list \<open>ch\<close> together with
  the capacity \<open>maxBufferedPackets\<close>.

  The interface the other components rely on is the locale \<open>packet_queue\<close>: a bounded first-in
  first-out queue of packets that can be closed. Its client lemma \<open>run_accounts\<close> says that over any
  sequence of writes, reads and closes nothing is lost, duplicated or reordered. The pipe interprets
  the locale (\<open>pp\<close>).
\<close>

section \<open>Contexts\<close>

text \<open>
  The \<^verbatim>\<open>context.Context\<close> of a read: \<open>ctx_err\<close> is \<open>Some e\<close> once the context is done, with \<open>e\<close> what
  \<^verbatim>\<open>ctx.Err()\<close> returns. Where a \<^verbatim>\<open>select\<close> finds both the context and the channel ready, Go picks one
  at random: \<open>ctx_pick n\<close> is the choice made when \<open>n\<close> packets are buffered (true: the context).
\<close>

record ctx =
  ctx_err :: "error option"
  ctx_pick :: "nat \<Rightarrow> bool"

text \<open>\<^verbatim>\<open>context.Background()\<close>, which is never done.\<close>

definition Background :: ctx where
  "Background = \<lparr>ctx_err = None, ctx_pick = (\<lambda>_. False)\<rparr>"

section \<open>The pipe\<close>

record pipe =
  ch :: "Packet list"
  closed :: bool

definition maxBufferedPackets :: nat where
  "maxBufferedPackets = 16"

definition pipe_New :: pipe where
  "pipe_New = \<lparr>ch = [], closed = False\<rparr>"

definition pipe_Close :: "pipe \<Rightarrow> pipe \<times> error option" where
  "pipe_Close p = (if \<not> closed p then (p\<lparr>closed := True\<rparr>, None) else (p, None))"

definition pipe_WritePacket :: "Packet \<Rightarrow> pipe \<Rightarrow> pipe \<times> error option" where
  "pipe_WritePacket pkt p =
     (if closed p then (p, Some ErrClosedPipe)
      else if length (ch p) < maxBufferedPackets then (p\<lparr>ch := ch p @ [pkt]\<rparr>, None)
      else (p, Some PipeFullError))"

text \<open>
  The \<^verbatim>\<open>select\<close> of \<^verbatim>\<open>ReadPacket\<close>. Receiving from the channel takes the oldest buffered packet; on a
  closed and drained channel it yields \<^verbatim>\<open>ok = false\<close>; on an open and empty one it is not ready.
\<close>

definition pipe_select :: "ctx \<Rightarrow> pipe \<Rightarrow> pipe \<times> read" where
  "pipe_select c p =
     (case ctx_err c of
        Some e \<Rightarrow>
          if ch p = [] \<and> \<not> closed p \<or> ctx_pick c (length (ch p)) then (p, RError e)
          else (case ch p of [] \<Rightarrow> (p, RError ErrClosedPipe)
                           | pkt # rest \<Rightarrow> (p\<lparr>ch := rest\<rparr>, RPacket pkt))
      | None \<Rightarrow>
          (case ch p of [] \<Rightarrow> (p, if closed p then RError ErrClosedPipe else RBlock)
                      | pkt # rest \<Rightarrow> (p\<lparr>ch := rest\<rparr>, RPacket pkt)))"

definition pipe_ReadPacket :: "ctx \<Rightarrow> pipe \<Rightarrow> pipe \<times> read" where
  "pipe_ReadPacket c p = (if closed p then (p, RError ErrClosedPipe) else pipe_select c p)"

definition pipe_inv :: "pipe \<Rightarrow> bool" where
  "pipe_inv p \<longleftrightarrow> length (ch p) \<le> maxBufferedPackets"

section \<open>The interface: a bounded packet queue\<close>

datatype queue_op = OpWrite Packet | OpRead ctx | OpClose

text \<open>
  A run of operations on a queue collects the packets that writes accepted and the packets that
  reads returned, in order.
\<close>

fun queue_run ::
  "(Packet \<Rightarrow> 'q \<Rightarrow> 'q \<times> error option) \<Rightarrow> (ctx \<Rightarrow> 'q \<Rightarrow> 'q \<times> read) \<Rightarrow> ('q \<Rightarrow> 'q \<times> error option)
     \<Rightarrow> queue_op list \<Rightarrow> 'q \<Rightarrow> 'q \<times> Packet list \<times> Packet list" where
  "queue_run wr rd cls [] q = (q, [], [])"
| "queue_run wr rd cls (OpWrite p # ops) q =
     (case wr p q of (q', err) \<Rightarrow>
        (case queue_run wr rd cls ops q' of (q'', acc, out) \<Rightarrow>
           (q'', (if err = None then p # acc else acc), out)))"
| "queue_run wr rd cls (OpRead c # ops) q =
     (case rd c q of (q', r) \<Rightarrow>
        (case queue_run wr rd cls ops q' of (q'', acc, out) \<Rightarrow>
           (q'', acc, (case r of RPacket p \<Rightarrow> p # out | _ \<Rightarrow> out))))"
| "queue_run wr rd cls (OpClose # ops) q = queue_run wr rd cls ops (fst (cls q))"

locale packet_queue =
  fixes wr :: "Packet \<Rightarrow> 'q \<Rightarrow> 'q \<times> error option"
    and rd :: "ctx \<Rightarrow> 'q \<Rightarrow> 'q \<times> read"
    and cls :: "'q \<Rightarrow> 'q \<times> error option"
    and contents :: "'q \<Rightarrow> Packet list"
    and is_closed :: "'q \<Rightarrow> bool"
    and cap :: nat
  assumes write_closed: "is_closed q \<Longrightarrow> wr p q = (q, Some ErrClosedPipe)"
    and write_full: "\<not> is_closed q \<Longrightarrow> cap \<le> length (contents q) \<Longrightarrow> wr p q = (q, Some PipeFullError)"
    and write_ok: "\<not> is_closed q \<Longrightarrow> length (contents q) < cap \<Longrightarrow>
        \<exists>q'. wr p q = (q', None) \<and> contents q' = contents q @ [p] \<and> \<not> is_closed q'"
    and read_closed: "is_closed q \<Longrightarrow> rd c q = (q, RError ErrClosedPipe)"
    and read_cases: "\<not> is_closed q \<Longrightarrow>
        rd c q = (q, RError (the (ctx_err c))) \<and> ctx_err c \<noteq> None
        \<or> rd c q = (q, RBlock) \<and> ctx_err c = None \<and> contents q = []
        \<or> (\<exists>q' p. rd c q = (q', RPacket p) \<and> contents q = p # contents q' \<and> \<not> is_closed q')"
    and close_contents: "contents (fst (cls q)) = contents q"
    and close_closed: "is_closed (fst (cls q))"
    and close_ok: "snd (cls q) = None"
begin

lemma write_cases:
  obtains e where "wr p q = (q, Some e)"
  | q' where "wr p q = (q', None)" "contents q' = contents q @ [p]" "\<not> is_closed q'"
      "length (contents q) < cap"
  using write_closed [of q p] write_full [of q p] write_ok [of q p]
  by (cases "is_closed q"; cases "cap \<le> length (contents q)") auto

lemma run_accounts:
  "queue_run wr rd cls ops q = (q', acc, out) \<Longrightarrow> contents q @ acc = out @ contents q'"
proof (induction ops arbitrary: q q' acc out)
  case Nil
  then show ?case by simp
next
  case (Cons op ops)
  show ?case
  proof (cases op)
    case (OpWrite p)
    show ?thesis
    proof (rule write_cases [of p q])
      fix e assume "wr p q = (q, Some e)"
      with Cons OpWrite show ?thesis by (auto split: prod.splits)
    next
      fix q1 assume "wr p q = (q1, None)" "contents q1 = contents q @ [p]"
      with Cons.prems OpWrite Cons.IH [of q1] show ?thesis by (auto split: prod.splits)
    qed
  next
    case (OpRead c)
    show ?thesis
    proof (cases "is_closed q")
      case True
      with Cons OpRead show ?thesis by (auto simp: read_closed split: prod.splits)
    next
      case False
      from read_cases [OF this, of c] Cons.prems OpRead show ?thesis
        by (auto split: prod.splits dest: Cons.IH)
    qed
  next
    case OpClose
    with Cons.prems Cons.IH [of "fst (cls q)"] show ?thesis by (simp add: close_contents)
  qed
qed

lemma run_bounded:
  "length (contents q) \<le> cap \<Longrightarrow> length (contents (fst (queue_run wr rd cls ops q))) \<le> cap"
proof (induction ops arbitrary: q)
  case Nil
  then show ?case by simp
next
  case (Cons op ops)
  show ?case
  proof (cases op)
    case (OpWrite p)
    show ?thesis
    proof (rule write_cases [of p q])
      fix e assume "wr p q = (q, Some e)"
      with Cons OpWrite show ?thesis by (auto simp: split_beta)
    next
      fix q1 assume "wr p q = (q1, None)" "contents q1 = contents q @ [p]"
        "length (contents q) < cap"
      with Cons OpWrite Cons.IH [of q1] show ?thesis by (auto simp: split_beta)
    qed
  next
    case (OpRead c)
    show ?thesis
    proof (cases "is_closed q")
      case True
      with Cons OpRead show ?thesis by (auto simp: read_closed split_beta)
    next
      case False
      from read_cases [OF this, of c] Cons.prems OpRead Cons.IH show ?thesis
        by (auto simp: split_beta)
    qed
  next
    case OpClose
    with Cons show ?thesis by (simp add: close_contents)
  qed
qed

end

section \<open>The pipe implements the interface\<close>

lemmas pipe_defs = pipe_WritePacket_def pipe_ReadPacket_def pipe_select_def pipe_Close_def

lemma pipe_read_cases:
  assumes "\<not> closed q"
  shows "pipe_ReadPacket c q = (q, RError (the (ctx_err c))) \<and> ctx_err c \<noteq> None
        \<or> pipe_ReadPacket c q = (q, RBlock) \<and> ctx_err c = None \<and> ch q = []
        \<or> (\<exists>q' p. pipe_ReadPacket c q = (q', RPacket p) \<and> ch q = p # ch q' \<and> \<not> closed q')"
  using assms
  by (cases "ctx_err c"; cases "ch q"; cases "ctx_pick c (length (ch q))") (auto simp: pipe_defs)

interpretation pp: packet_queue pipe_WritePacket pipe_ReadPacket pipe_Close ch closed maxBufferedPackets
proof unfold_locales
  fix q :: pipe and c :: ctx
  assume "\<not> closed q"
  then show "pipe_ReadPacket c q = (q, RError (the (ctx_err c))) \<and> ctx_err c \<noteq> None
        \<or> pipe_ReadPacket c q = (q, RBlock) \<and> ctx_err c = None \<and> ch q = []
        \<or> (\<exists>q' p. pipe_ReadPacket c q = (q', RPacket p) \<and> ch q = p # ch q' \<and> \<not> closed q')"
    by (rule pipe_read_cases)
qed (auto simp: pipe_defs)

lemma pipe_write_None:
  "snd (pipe_WritePacket p q) = None \<longleftrightarrow> \<not> closed q \<and> length (ch q) < maxBufferedPackets"
  by (simp add: pipe_WritePacket_def)

lemma pipe_inv_ops:
  "pipe_inv pipe_New"
  "pipe_inv q \<Longrightarrow> pipe_inv (fst (pipe_WritePacket p q))"
  "pipe_inv q \<Longrightarrow> pipe_inv (fst (pipe_ReadPacket c q))"
  "pipe_inv q \<Longrightarrow> pipe_inv (fst (pipe_Close q))"
  by (auto simp: pipe_inv_def pipe_New_def pipe_defs maxBufferedPackets_def split: option.splits list.splits)

text \<open>
  C10. Every receive queue is a bounded FIFO: over any sequence of writes, reads and closes on a new
  pipe, the packets that \<^verbatim>\<open>WritePacket\<close> accepted are exactly those that \<^verbatim>\<open>ReadPacket\<close> returned, in
  the same order, followed by those still buffered, and at most 16 packets are ever buffered.
\<close>

theorem pipe_fifo:
  assumes "queue_run pipe_WritePacket pipe_ReadPacket pipe_Close ops pipe_New = (q, accepted, delivered)"
  shows "accepted = delivered @ ch q \<and> length (ch q) \<le> 16"
  using pp.run_accounts [OF assms] pp.run_bounded [of pipe_New ops] assms
  by (simp_all add: pipe_New_def maxBufferedPackets_def)

theorem pipe_fifo_witness:
  "queue_run pipe_WritePacket pipe_ReadPacket pipe_Close
     [OpWrite (demo_packet 1 2), OpWrite (demo_packet 1 3), OpRead Background, OpClose] pipe_New
   = (\<lparr>ch = [demo_packet 1 3], closed = True\<rparr>, [demo_packet 1 2, demo_packet 1 3], [demo_packet 1 2])
   \<and> [demo_packet 1 2, demo_packet 1 3] = [demo_packet 1 2] @ [demo_packet 1 3]"
proof -
  have run: "queue_run pipe_WritePacket pipe_ReadPacket pipe_Close
     [OpWrite (demo_packet 1 2), OpWrite (demo_packet 1 3), OpRead Background, OpClose] pipe_New
   = (\<lparr>ch = [demo_packet 1 3], closed = True\<rparr>, [demo_packet 1 2, demo_packet 1 3], [demo_packet 1 2])"
    by code_simp
  show ?thesis
    by (rule conjI [OF run]) (use pipe_fifo [OF run] in simp)
qed

end
