(* ===== verification/NetIface.thy ===== *)
theory NetIface
  imports Pipe
begin

text \<open>
  Package \<^verbatim>\<open>network\<close> (\<^verbatim>\<open>src/network/network.go\<close>): the interfaces \<^verbatim>\<open>Network\<close> and \<^verbatim>\<open>Node\<close> that all
  layers of the network stack implement and wrap.

  A Go interface value is a record of its methods. The state of the objects behind the interface is
  passed explicitly: \<open>'s\<close> is everything the network and its nodes store, and a node is the
  integer that identifies the node object in that state. \<open>None\<close> as the result of \<^verbatim>\<open>NewNode\<close> or
  \<^verbatim>\<open>ReadPacket\<close> is "the call never returns"; a call that waits for a packet gives \<open>RBlock\<close>.

  The contract of the interface is the locale \<open>network_contract\<close>; each layer proves it from the
  contract of the layer it wraps, and the stack of \<^verbatim>\<open>ipxbox.go\<close> is interpreted from the bottom up.
\<close>

section \<open>The interfaces\<close>

text \<open>\<^verbatim>\<open>stats.Statistics\<close>, one of the two properties that a node can be asked for.\<close>

record Statistics =
  rxPackets :: u64
  txPackets :: u64
  rxBytes :: u64
  txBytes :: u64
  connectTime :: time

text \<open>
  \<^verbatim>\<open>GetProperty\<close> switches on the dynamic type of its argument; \<open>prop_kind\<close> is that type and
  \<open>property\<close> the value stored through the pointer.
\<close>

datatype prop_kind = KAddr | KStatistics

datatype property = PAddr addr | PStatistics Statistics

text \<open>
  What a call reads from its environment: \<open>env_clock i\<close> is the \<open>i\<close>-th reading of the clock and
  \<open>env_rand i\<close> the five bytes of the \<open>i\<close>-th \<^verbatim>\<open>rand.Read\<close>.
\<close>

record env =
  env_clock :: "nat \<Rightarrow> time"
  env_rand :: "nat \<Rightarrow> byte \<times> byte \<times> byte \<times> byte \<times> byte"

record 's network =
  NewNode :: "env \<Rightarrow> 's \<Rightarrow> ('s \<times> (error + int)) option"
  ReadPacket :: "ctx \<Rightarrow> int \<Rightarrow> 's \<Rightarrow> ('s \<times> read) option"
  WritePacket :: "env \<Rightarrow> int \<Rightarrow> Packet \<Rightarrow> 's \<Rightarrow> 's \<times> error option"
  Close :: "int \<Rightarrow> 's \<Rightarrow> 's \<times> error option"
  GetProperty :: "prop_kind \<Rightarrow> int \<Rightarrow> 's \<Rightarrow> property option"

definition NodeAddress :: "'s network \<Rightarrow> int \<Rightarrow> 's \<Rightarrow> addr" where
  "NodeAddress net n s =
     (case GetProperty net KAddr n s of Some (PAddr a) \<Rightarrow> a | _ \<Rightarrow> AddrNull)"

section \<open>Reading until a packet is acceptable\<close>

text \<open>
  The loop that \<^verbatim>\<open>ReadPacket\<close> has in several layers: read from the inner node, return errors, return
  the packet if it is acceptable, otherwise read again.
\<close>

partial_function (option) read_until ::
  "(Packet \<Rightarrow> bool) \<Rightarrow> ('s \<Rightarrow> ('s \<times> read) option) \<Rightarrow> 's \<Rightarrow> ('s \<times> read) option" where
  "read_until acceptable rd s =
     Option.bind (rd s) (\<lambda>(s', r).
       case r of
         RPacket p \<Rightarrow> if acceptable p then Some (s', RPacket p) else read_until acceptable rd s'
       | RError e \<Rightarrow> Some (s', RError e)
       | RBlock \<Rightarrow> Some (s', RBlock))"

lemma read_until_acceptable:
  assumes "read_until acceptable rd s = Some (s', RPacket p)"
  shows "acceptable p"
proof -
  have "\<forall>p. snd sr = RPacket p \<longrightarrow> acceptable p" if "read_until acceptable rd s = Some sr" for sr
  proof (rule read_until.raw_induct [where P = "\<lambda>acceptable rd s sr. \<forall>p. snd sr = RPacket p \<longrightarrow> acceptable p", OF _ that])
    fix f acceptable rd s sr
    assume IH: "\<And>acceptable rd (s :: 'a) sr. f acceptable rd s = Some sr \<Longrightarrow> \<forall>p. snd sr = RPacket p \<longrightarrow> acceptable p"
      and eq: "Option.bind (rd s) (\<lambda>(s', r). case r of
         RPacket p \<Rightarrow> if acceptable p then Some (s', RPacket p) else f acceptable rd s'
       | RError e \<Rightarrow> Some (s', RError e) | RBlock \<Rightarrow> Some (s', RBlock)) = Some sr"
    then obtain s1 r where "rd s = Some (s1, r)" by (cases "rd s") auto
    with eq IH [of acceptable rd s1 sr] show "\<forall>p. snd sr = RPacket p \<longrightarrow> acceptable p"
      by (cases r) (auto split: if_splits)
  qed
  from this [OF assms] show ?thesis by simp
qed

section \<open>The contract\<close>

text \<open>
  \<open>inv\<close> is the layer's state invariant and \<open>queued n s\<close> the packets waiting at node \<open>n\<close>.
  A read returns the next waiting packets one by one; it never invents a packet, and a read that
  returns a packet leaves fewer packets waiting, which is what makes the filtering loops of the
  wrapping layers terminate.
\<close>

locale network_contract =
  fixes net :: "'s network"
    and inv :: "'s \<Rightarrow> bool"
    and queued :: "int \<Rightarrow> 's \<Rightarrow> Packet list"
  assumes inv_new: "inv s \<Longrightarrow> NewNode net e s = Some (s', nr) \<Longrightarrow> inv s'"
    and inv_read: "inv s \<Longrightarrow> ReadPacket net c n s = Some (s', r) \<Longrightarrow> inv s'"
    and inv_write: "inv s \<Longrightarrow> inv (fst (WritePacket net e n p s))"
    and inv_close: "inv s \<Longrightarrow> inv (fst (Close net n s))"
    and read_returns: "inv s \<Longrightarrow> ReadPacket net c n s \<noteq> None"
    and read_packet: "inv s \<Longrightarrow> ReadPacket net c n s = Some (s', RPacket p) \<Longrightarrow>
        \<exists>skipped. queued n s = skipped @ p # queued n s'"
begin

lemma read_decreases:
  "inv s \<Longrightarrow> ReadPacket net c n s = Some (s', RPacket p) \<Longrightarrow>
     length (queued n s') < length (queued n s)"
  using read_packet by fastforce

lemma read_until_contract:
  assumes "inv s"
  shows "\<exists>s' r. read_until acceptable (ReadPacket net c n) s = Some (s', r) \<and> inv s'
    \<and> (\<forall>p. r = RPacket p \<longrightarrow> (\<exists>skipped. queued n s = skipped @ p # queued n s'))"
  using assms
proof (induction "length (queued n s)" arbitrary: s rule: less_induct)
  case less
  from read_returns [OF less.prems] obtain s1 r1 where rd: "ReadPacket net c n s = Some (s1, r1)"
    by fastforce
  have inv1: "inv s1" using inv_read [OF less.prems rd] .
  show ?case
  proof (cases "\<exists>p. r1 = RPacket p \<and> \<not> acceptable p")
    case True
    then obtain p where p: "r1 = RPacket p" "\<not> acceptable p" by blast
    from less.hyps [OF read_decreases [OF less.prems rd [unfolded p]] inv1]
    obtain s2 r2 where s2: "read_until acceptable (ReadPacket net c n) s1 = Some (s2, r2)" "inv s2"
      and q: "\<forall>p. r2 = RPacket p \<longrightarrow> (\<exists>skipped. queued n s1 = skipped @ p # queued n s2)" by blast
    from read_packet [OF less.prems rd [unfolded p]]
    obtain sk where sk: "queued n s = sk @ p # queued n s1" by blast
    have "\<exists>skipped. queued n s = skipped @ p' # queued n s2" if "r2 = RPacket p'" for p'
      using q that sk by (metis append.assoc append_Cons)
    with rd p s2 show ?thesis
      by (subst read_until.simps) auto
  next
    case False
    have "\<exists>skipped. queued n s = skipped @ p # queued n s1" if "r1 = RPacket p" for p
      using read_packet [OF less.prems rd [unfolded that]] .
    with rd inv1 False show ?thesis
      by (subst read_until.simps) (auto split: read.splits)
  qed
qed

lemma read_from_queue:
  "inv s \<Longrightarrow> ReadPacket net c n s = Some (s', RPacket p) \<Longrightarrow> p \<in> set (queued n s)"
  using read_packet by fastforce

end

definition demo_env :: env where
  "demo_env = \<lparr>env_clock = (\<lambda>i. 0), env_rand = (\<lambda>i. (0, 0, 0, 0, of_nat i))\<rparr>"

end
