(* ===== verification/IpxSwitch.thy ===== *)
theory IpxSwitch
  imports RoutingTable NetIface
begin

text \<open>
  Package \<^verbatim>\<open>network/ipxswitch\<close> (\<^verbatim>\<open>src/network/ipxswitch/ipxswitch.go\<close>): the switch at the bottom of the
  network stack. \<open>rxpipe\<close> holds the receive pipe of every node object ever created, by node ID, and
  \<open>nodesByID\<close> the IDs of the nodes that are attached, in the order of one iteration over the Go map;
  \<open>broadcast_order_irrelevant\<close> shows that the iteration order only affects the order of the messages
  in the error string. Node IDs are unbounded; the counter of the source is a 64-bit integer.
\<close>

section \<open>State and operations\<close>

record switch =
  nodesByID :: "int list"
  nextNodeID :: int
  table :: routingTable
  rxpipe :: "int \<Rightarrow> pipe"

definition switch_New :: switch where
  "switch_New = \<lparr>nodesByID = [], nextNodeID = 0, table = makeRoutingTable, rxpipe = (\<lambda>_. pipe_New)\<rparr>"

definition node_Close :: "int \<Rightarrow> switch \<Rightarrow> switch \<times> error option" where
  "node_Close n s =
     (let (p, err) = pipe_Close (rxpipe s n)
      in (s\<lparr>table := DeletePort n (table s),
            nodesByID := removeAll n (nodesByID s),
            rxpipe := (rxpipe s)(n := p)\<rparr>, err))"

definition node_ReadPacket :: "ctx \<Rightarrow> int \<Rightarrow> switch \<Rightarrow> switch \<times> read" where
  "node_ReadPacket c n s =
     (let (p, r) = pipe_ReadPacket c (rxpipe s n) in (s\<lparr>rxpipe := (rxpipe s)(n := p)\<rparr>, r))"

text \<open>Writing into the delivery pipe of node \<open>n\<close>.\<close>

definition deliver :: "Packet \<Rightarrow> int \<Rightarrow> switch \<Rightarrow> switch \<times> error option" where
  "deliver packet n s =
     (let (p, err) = pipe_WritePacket packet (rxpipe s n)
      in (s\<lparr>rxpipe := (rxpipe s)(n := p)\<rparr>, err))"

fun deliver_all :: "Packet \<Rightarrow> int list \<Rightarrow> switch \<Rightarrow> switch \<times> error list" where
  "deliver_all packet [] s = (s, [])"
| "deliver_all packet (n # nodes) s =
     (let (s1, err) = deliver packet n s;
          (s2, errs) = deliver_all packet nodes s1
      in (s2, case err of None \<Rightarrow> errs | Some e \<Rightarrow> e # errs))"

definition broadcastPacket :: "Packet \<Rightarrow> int \<Rightarrow> switch \<Rightarrow> switch \<times> error option" where
  "broadcastPacket packet src s =
     (let nodes = filter (\<lambda>n. n \<noteq> src) (nodesByID s);
          (s', errs) = deliver_all packet nodes s
      in (s', if length errs > 0 then Some (ForwardErrors errs) else None))"

definition forwardPacket :: "Packet \<Rightarrow> int \<Rightarrow> switch \<Rightarrow> switch \<times> error option" where
  "forwardPacket packet src s =
     (let destNodeID = LookupDest (Dest (Header packet)) (table s)
      in if destNodeID = broadcastDest then broadcastPacket packet src s
         else if destNodeID \<notin> set (nodesByID s) \<or> destNodeID = src then (s, None)
         else deliver packet destNodeID s)"

definition node_WritePacket :: "env \<Rightarrow> int \<Rightarrow> Packet \<Rightarrow> switch \<Rightarrow> switch \<times> error option" where
  "node_WritePacket e n packet s =
     forwardPacket packet n (s\<lparr>table := Record (env_clock e) n (Src (Header packet)) (table s)\<rparr>)"

definition node_GetProperty :: "prop_kind \<Rightarrow> int \<Rightarrow> switch \<Rightarrow> property option" where
  "node_GetProperty k n s = None"

definition switch_NewNode :: "env \<Rightarrow> switch \<Rightarrow> (switch \<times> (error + int)) option" where
  "switch_NewNode e s =
     (let n = nextNodeID s
      in Some (s\<lparr>nextNodeID := n + 1,
                 nodesByID := nodesByID s @ [n],
                 rxpipe := (rxpipe s)(n := pipe_New),
                 table := AddPort n (table s)\<rparr>, Inr n))"

definition switch_network :: "switch network" where
  "switch_network = \<lparr>NewNode = switch_NewNode,
     ReadPacket = (\<lambda>c n s. Some (node_ReadPacket c n s)),
     WritePacket = node_WritePacket, Close = node_Close, GetProperty = node_GetProperty\<rparr>"

section \<open>Invariant\<close>

text \<open>
  Node IDs below the counter have a port; the attached nodes are distinct and have an open pipe,
  every other node that was created has been closed; all pipes respect their capacity.
\<close>

definition switch_inv :: "switch \<Rightarrow> bool" where
  "switch_inv s \<longleftrightarrow>
     table_inv (table s) \<and> 0 \<le> nextNodeID s
     \<and> dom (ports (table s)) = {0..<nextNodeID s}
     \<and> distinct (nodesByID s) \<and> set (nodesByID s) \<subseteq> {0..<nextNodeID s}
     \<and> (\<forall>n. 0 \<le> n \<and> n < nextNodeID s \<longrightarrow> (n \<in> set (nodesByID s) \<longleftrightarrow> \<not> closed (rxpipe s n)))
     \<and> (\<forall>n. pipe_inv (rxpipe s n))"

lemma pipe_closed_ops [simp]:
  "closed (fst (pipe_WritePacket p q)) = closed q"
  "closed (fst (pipe_ReadPacket c q)) = closed q"
  "closed (fst (pipe_Close q))"
  by (auto simp: pipe_defs split: option.splits list.splits)

lemma deliver_simps [simp]:
  "nodesByID (fst (deliver p n s)) = nodesByID s"
  "nextNodeID (fst (deliver p n s)) = nextNodeID s"
  "table (fst (deliver p n s)) = table s"
  "rxpipe (fst (deliver p n s)) = (rxpipe s)(n := fst (pipe_WritePacket p (rxpipe s n)))"
  "snd (deliver p n s) = snd (pipe_WritePacket p (rxpipe s n))"
  by (simp_all add: deliver_def split_beta)

lemma deliver_all_simps [simp]:
  "nodesByID (fst (deliver_all p ns s)) = nodesByID s"
  "nextNodeID (fst (deliver_all p ns s)) = nextNodeID s"
  "table (fst (deliver_all p ns s)) = table s"
  by (induction ns arbitrary: s) (simp_all add: split_beta)

lemma deliver_all_rxpipe:
  "distinct ns \<Longrightarrow> rxpipe (fst (deliver_all p ns s)) n =
     (if n \<in> set ns then fst (pipe_WritePacket p (rxpipe s n)) else rxpipe s n)"
  by (induction ns arbitrary: s) (auto simp: split_beta)

lemma deliver_all_errs:
  "distinct ns \<Longrightarrow> snd (deliver_all p ns s) =
     List.map_filter (\<lambda>n. snd (pipe_WritePacket p (rxpipe s n))) ns"
proof (induction ns arbitrary: s)
  case (Cons n ns)
  have "List.map_filter (\<lambda>m. snd (pipe_WritePacket p (rxpipe (fst (deliver p n s)) m))) ns =
      List.map_filter (\<lambda>m. snd (pipe_WritePacket p (rxpipe s m))) ns"
    using Cons.prems unfolding List.map_filter_def
    by (intro map_cong filter_cong refl) auto
  with Cons show ?case
    by (simp add: split_beta List.map_filter_simps split: option.splits)
qed (simp add: List.map_filter_simps)

text \<open>What a write does to the pipes: the forwarding decision as one function of the destination.\<close>

definition recipients :: "Packet \<Rightarrow> int \<Rightarrow> switch \<Rightarrow> int set" where
  "recipients packet src s =
     (let d = LookupDest (Dest (Header packet)) (table s)
      in (if d = broadcastDest then set (nodesByID s) else set (nodesByID s) \<inter> {d}) - {src})"

lemma forwardPacket_simps [simp]:
  "nodesByID (fst (forwardPacket p src s)) = nodesByID s"
  "nextNodeID (fst (forwardPacket p src s)) = nextNodeID s"
  "table (fst (forwardPacket p src s)) = table s"
  by (simp_all add: forwardPacket_def broadcastPacket_def split_beta Let_def)

lemma forwardPacket_rxpipe:
  "distinct (nodesByID s) \<Longrightarrow> rxpipe (fst (forwardPacket p src s)) n =
     (if n \<in> recipients p src s then fst (pipe_WritePacket p (rxpipe s n)) else rxpipe s n)"
  by (auto simp: forwardPacket_def broadcastPacket_def recipients_def split_beta Let_def deliver_all_rxpipe)

lemma switch_inv_forward:
  "switch_inv s \<Longrightarrow> switch_inv (fst (forwardPacket p src s))"
  by (auto simp: switch_inv_def forwardPacket_rxpipe pipe_inv_ops)

lemma switch_inv_table:
  "switch_inv s \<Longrightarrow> table_inv t \<Longrightarrow> dom (ports t) = dom (ports (table s)) \<Longrightarrow> switch_inv (s\<lparr>table := t\<rparr>)"
  by (simp add: switch_inv_def)

lemma switch_inv_write: "switch_inv s \<Longrightarrow> switch_inv (fst (node_WritePacket e n p s))"
  unfolding node_WritePacket_def
  by (rule switch_inv_forward, rule switch_inv_table) (auto simp: switch_inv_def table_inv_Record)

lemma switch_inv_read: "switch_inv s \<Longrightarrow> node_ReadPacket c n s = (s', r) \<Longrightarrow> switch_inv s'"
  by (clarsimp simp: node_ReadPacket_def switch_inv_def split_beta pipe_inv_ops)

lemma switch_inv_close: "switch_inv s \<Longrightarrow> switch_inv (fst (node_Close n s))"
  by (auto simp: node_Close_def switch_inv_def split_beta pipe_inv_ops table_inv_DeletePort
      distinct_removeAll)

lemma switch_inv_new:
  assumes "switch_inv s" and "switch_NewNode e s = Some (s', r)"
  shows "switch_inv s'"
proof -
  let ?n = "nextNodeID s"
  from assms(2) have s': "s' = s\<lparr>nextNodeID := ?n + 1, nodesByID := nodesByID s @ [?n],
      rxpipe := (rxpipe s)(?n := pipe_New), table := AddPort ?n (table s)\<rparr>"
    by (simp add: switch_NewNode_def Let_def)
  have "table_inv (AddPort ?n (table s))"
    using assms(1) by (intro table_inv_AddPort) (auto simp: switch_inv_def)
  moreover have "insert ?n {0..<?n} = {0..<?n + 1}"
    using assms(1) by (auto simp: switch_inv_def)
  ultimately show ?thesis
    using assms(1)
    by (auto simp: switch_inv_def s' pipe_inv_ops) (auto simp: pipe_New_def)
qed

lemma switch_inv_New: "switch_inv switch_New"
  using table_inv_empty
  by (auto simp: switch_inv_def switch_New_def pipe_inv_ops makeRoutingTable_def)

definition switch_queued :: "int \<Rightarrow> switch \<Rightarrow> Packet list" where
  "switch_queued n s = ch (rxpipe s n)"

lemma pipe_ReadPacket_RPacket:
  "pipe_ReadPacket c q = (q', RPacket p) \<Longrightarrow> ch q = p # ch q'"
  by (auto simp: pipe_defs split: option.splits list.splits if_splits)

interpretation sw: network_contract switch_network switch_inv switch_queued
proof unfold_locales
  fix s s' :: switch and c n p
  assume "switch_inv s" "ReadPacket switch_network c n s = Some (s', RPacket p)"
  then show "\<exists>skipped. switch_queued n s = skipped @ p # switch_queued n s'"
    by (intro exI [of _ "[]"])
      (auto simp: switch_network_def node_ReadPacket_def switch_queued_def
        split: prod.splits dest: pipe_ReadPacket_RPacket)
qed (auto simp: switch_network_def switch_inv_new switch_inv_write switch_inv_close
       dest: switch_inv_read)

section \<open>Delivery\<close>

lemma pipe_write_ch:
  "ch (fst (pipe_WritePacket p q)) =
     (if \<not> closed q \<and> length (ch q) < maxBufferedPackets then ch q @ [p] else ch q)"
  by (simp add: pipe_WritePacket_def)

lemma map_filter_Nil_iff: "List.map_filter f xs = [] \<longleftrightarrow> (\<forall>x \<in> set xs. f x = None)"
  by (induction xs) (auto simp: List.map_filter_simps split: option.splits)

lemma forwardPacket_err:
  "distinct (nodesByID s) \<Longrightarrow> snd (forwardPacket p src s) = None \<longleftrightarrow>
     (\<forall>n \<in> recipients p src s. snd (pipe_WritePacket p (rxpipe s n)) = None)"
  by (auto simp: forwardPacket_def broadcastPacket_def recipients_def split_beta Let_def
      deliver_all_errs map_filter_Nil_iff)

text \<open>
  C3. Forwarding. When node \<open>n\<close> writes a packet, the packet is appended to the receive queue of exactly
  those nodes that are attached, are not \<open>n\<close> itself, are the port the destination is looked up to (all
  ports if the lookup says to flood), and have room in their queue; no other queue changes. The write
  reports no error exactly if every node the packet was meant for had room.
\<close>

theorem switch_forwards:
  assumes "switch_inv s" and "node_WritePacket e n p s = (s', err)"
  shows "(\<forall>m. ch (rxpipe s' m) =
      (if m \<in> set (nodesByID s) \<and> m \<noteq> n
          \<and> LookupDest (Dest (Header p)) (table s') \<in> {broadcastDest, m} \<and> length (ch (rxpipe s m)) < 16
       then ch (rxpipe s m) @ [p] else ch (rxpipe s m)))
    \<and> (err = None \<longleftrightarrow>
      (\<forall>m. m \<in> set (nodesByID s) \<and> m \<noteq> n \<and> LookupDest (Dest (Header p)) (table s') \<in> {broadcastDest, m}
         \<longrightarrow> length (ch (rxpipe s m)) < 16))"
proof -
  define s1 where "s1 = s\<lparr>table := Record (env_clock e) n (Src (Header p)) (table s)\<rparr>"
  have s': "s' = fst (forwardPacket p n s1)" and err: "err = snd (forwardPacket p n s1)"
    using assms(2) by (simp_all add: node_WritePacket_def s1_def)
  have d: "distinct (nodesByID s1)" and eq: "rxpipe s1 = rxpipe s" "nodesByID s1 = nodesByID s"
    using assms(1) by (simp_all add: switch_inv_def s1_def)
  have rec: "m \<in> recipients p n s1 \<longleftrightarrow> m \<in> set (nodesByID s) \<and> m \<noteq> n
      \<and> LookupDest (Dest (Header p)) (table s') \<in> {broadcastDest, m}" for m
    by (auto simp: recipients_def Let_def s' eq)
  have op: "\<not> closed (rxpipe s m)" if "m \<in> set (nodesByID s)" for m
    using assms(1) that by (force simp: switch_inv_def)
  show ?thesis
  proof
    show "\<forall>m. ch (rxpipe s' m) = (if m \<in> set (nodesByID s) \<and> m \<noteq> n
        \<and> LookupDest (Dest (Header p)) (table s') \<in> {broadcastDest, m} \<and> length (ch (rxpipe s m)) < 16
        then ch (rxpipe s m) @ [p] else ch (rxpipe s m))"
    proof
      fix m
      have "rxpipe s' m = (if m \<in> recipients p n s1 then fst (pipe_WritePacket p (rxpipe s m)) else rxpipe s m)"
        using forwardPacket_rxpipe [OF d, of p n m] by (simp only: s' eq)
      then show "ch (rxpipe s' m) = (if m \<in> set (nodesByID s) \<and> m \<noteq> n
        \<and> LookupDest (Dest (Header p)) (table s') \<in> {broadcastDest, m} \<and> length (ch (rxpipe s m)) < 16
        then ch (rxpipe s m) @ [p] else ch (rxpipe s m))"
        using op [of m] rec [of m] by (simp add: pipe_write_ch maxBufferedPackets_def)
    qed
    show "err = None \<longleftrightarrow> (\<forall>m. m \<in> set (nodesByID s) \<and> m \<noteq> n
        \<and> LookupDest (Dest (Header p)) (table s') \<in> {broadcastDest, m} \<longrightarrow> length (ch (rxpipe s m)) < 16)"
      using op forwardPacket_err [OF d, of p n] unfolding err [symmetric] eq
      by (simp add: Ball_def rec pipe_write_None maxBufferedPackets_def)
  qed
qed

lemma node_WritePacket_table [simp]:
  "table (fst (node_WritePacket e n p s)) = Record (env_clock e) n (Src (Header p)) (table s)"
  by (simp add: node_WritePacket_def)

lemma node_WritePacket_nodes [simp]:
  "nodesByID (fst (node_WritePacket e n p s)) = nodesByID s"
  by (simp add: node_WritePacket_def)

lemma LookupDest_Record:
  assumes "table_inv t"
  shows "LookupDest d (Record clk p a t) =
    (if learnable a \<and> p \<in> dom (ports t) \<and> same_host a d then p else LookupDest d t)"
  using table_abs_Record [OF assms, of clk p a]
  by (auto simp: LookupDest_abs makeKey_eq_iff same_host_def learnable_def)

text \<open>
  C12. Unicast traffic is private once the destination is known: after node \<open>m\<close> has sent a packet from
  address \<open>a\<close>, a packet that another node \<open>n\<close> sends to \<open>a\<close>, under a source address other than \<open>a\<close>,
  changes no receive queue but that of \<open>m\<close>, and is appended there if there is room.
\<close>

theorem unicast_private:
  assumes "switch_inv s" and "m \<in> set (nodesByID s)" and "n \<noteq> m"
    and "node_WritePacket e1 m p1 s = (s1, err1)" and "learnable (Src (Header p1))"
    and "same_host (Src (Header p1)) (Dest (Header p2))"
    and "\<not> same_host (Src (Header p2)) (Dest (Header p2))"
    and "node_WritePacket e2 n p2 s1 = (s2, err2)"
  shows "(\<forall>k. k \<noteq> m \<longrightarrow> ch (rxpipe s2 k) = ch (rxpipe s1 k))
    \<and> ch (rxpipe s2 m) = (if length (ch (rxpipe s1 m)) < 16 then ch (rxpipe s1 m) @ [p2] else ch (rxpipe s1 m))"
proof -
  have s1: "s1 = fst (node_WritePacket e1 m p1 s)" and s2: "s2 = fst (node_WritePacket e2 n p2 s1)"
    using assms(4,8) by simp_all
  have inv1: "switch_inv s1"
    using assms(1) by (simp add: s1 switch_inv_write)
  have m: "m \<in> dom (ports (table s))" "m \<ge> 0"
    using assms(1,2) by (auto simp: switch_inv_def)
  have "LookupDest (Dest (Header p2)) (table s1) = m"
    using assms(1,5,6) m by (simp add: s1 LookupDest_Record switch_inv_def)
  then have "LookupDest (Dest (Header p2)) (table s2) = m"
    using inv1 assms(7) by (simp add: s2 LookupDest_Record switch_inv_def)
  moreover have "nodesByID s1 = nodesByID s" by (simp add: s1)
  moreover have "m \<noteq> broadcastDest" using m by (simp add: broadcastDest_def)
  ultimately show ?thesis
    using switch_forwards [OF inv1 assms(8)] assms(2,3) by simp
qed

text \<open>
  The order in which Go iterates over the map of nodes does not matter for a broadcast: for any
  other order of the same nodes, all receive queues end up the same and the same errors are reported,
  up to their order in the message.
\<close>

lemma broadcast_order_irrelevant:
  assumes "switch_inv s" and "mset ns = mset (nodesByID s)"
    and "deliver_all p (filter (\<lambda>n. n \<noteq> src) ns) s = (s1, errs1)"
    and "deliver_all p (filter (\<lambda>n. n \<noteq> src) (nodesByID s)) s = (s2, errs2)"
  shows "rxpipe s1 = rxpipe s2 \<and> mset errs1 = mset errs2"
proof -
  let ?f = "filter (\<lambda>n. n \<noteq> src)"
  have d: "distinct (?f (nodesByID s))" and d': "distinct (?f ns)"
    using assms(1) mset_eq_imp_distinct_iff [OF assms(2)] by (simp_all add: switch_inv_def)
  have "rxpipe s1 = rxpipe s2"
  proof
    fix n show "rxpipe s1 n = rxpipe s2 n"
      using deliver_all_rxpipe [OF d, of p s n] deliver_all_rxpipe [OF d', of p s n] assms(3,4)
      by (simp add: mset_eq_setD [OF assms(2)])
  qed
  moreover have "mset errs1 = mset errs2"
    using deliver_all_errs [OF d, of p s] deliver_all_errs [OF d', of p s] assms(2,3,4)
    by (simp add: List.map_filter_def)
  ultimately show ?thesis ..
qed

section \<open>Closed nodes\<close>

datatype switch_op = SwNew env | SwRead ctx int | SwWrite env int Packet | SwClose int

fun switch_step :: "switch_op \<Rightarrow> switch \<Rightarrow> switch" where
  "switch_step (SwNew e) s = (case switch_NewNode e s of None \<Rightarrow> s | Some (s', _) \<Rightarrow> s')"
| "switch_step (SwRead c n) s = fst (node_ReadPacket c n s)"
| "switch_step (SwWrite e n p) s = fst (node_WritePacket e n p s)"
| "switch_step (SwClose n) s = fst (node_Close n s)"

lemma switch_inv_step: "switch_inv s \<Longrightarrow> switch_inv (switch_step op s)"
  by (cases op)
    (auto simp: switch_inv_write switch_inv_close split: option.splits
      dest: switch_inv_new intro: switch_inv_read [OF _ surjective_pairing])

lemma switch_inv_run: "switch_inv s \<Longrightarrow> switch_inv (fold switch_step ops s)"
  by (induction ops arbitrary: s) (simp_all add: switch_inv_step)

lemma nextNodeID_mono: "nextNodeID s \<le> nextNodeID (switch_step op s)"
  by (cases op)
    (simp_all add: switch_NewNode_def Let_def node_ReadPacket_def node_WritePacket_def node_Close_def split_beta)

lemma closed_step:
  assumes "switch_inv s" "n < nextNodeID s" "closed (rxpipe s n)"
  shows "closed (rxpipe (switch_step op s) n) \<and> ch (rxpipe (switch_step op s) n) = ch (rxpipe s n)"
proof (cases op)
  case (SwWrite e m p)
  have "distinct (nodesByID (s\<lparr>table := Record (env_clock e) m (Src (Header p)) (table s)\<rparr>))"
    using assms(1) by (simp add: switch_inv_def)
  with SwWrite assms(3) show ?thesis
    by (simp add: node_WritePacket_def forwardPacket_rxpipe pipe_write_ch)
qed (use assms in \<open>auto simp: switch_NewNode_def Let_def node_ReadPacket_def node_Close_def split_beta
       pipe_ReadPacket_def pp.close_contents\<close>)

lemma closed_run:
  "switch_inv s \<Longrightarrow> n < nextNodeID s \<Longrightarrow> closed (rxpipe s n) \<Longrightarrow>
     closed (rxpipe (fold switch_step ops s) n) \<and> ch (rxpipe (fold switch_step ops s) n) = ch (rxpipe s n)"
proof (induction ops arbitrary: s)
  case (Cons op ops)
  note step = closed_step [OF Cons.prems, of op]
  have "n < nextNodeID (switch_step op s)"
    using Cons.prems(2) nextNodeID_mono [of s op] by simp
  with Cons.IH [of "switch_step op s"] Cons.prems(1) step show ?case
    by (simp add: switch_inv_step)
qed simp

text \<open>
  Closing is final: once a node of the switch has been closed, whatever happens afterwards
  (new nodes, reads, writes by any node, the closed one included, and further closes), every read
  from it returns \<^verbatim>\<open>io.ErrClosedPipe\<close>, no packet is added to its queue, and it is not attached.
\<close>

lemma switch_close_final:
  assumes "switch_inv s" and "0 \<le> n" and "n < nextNodeID s"
    and "s' = fold switch_step ops (fst (node_Close n s))"
  shows "snd (node_ReadPacket c n s') = RError ErrClosedPipe
    \<and> ch (rxpipe s' n) = ch (rxpipe s n) \<and> n \<notin> set (nodesByID s') \<and> switch_inv s'"
proof -
  let ?s = "fst (node_Close n s)"
  have inv: "switch_inv ?s" using assms(1) by (rule switch_inv_close)
  have cl: "closed (rxpipe ?s n)" "ch (rxpipe ?s n) = ch (rxpipe s n)" "nextNodeID ?s = nextNodeID s"
    by (simp_all add: node_Close_def split_beta pp.close_contents)
  have inv': "switch_inv s'" using inv by (simp add: assms(4) switch_inv_run)
  have le: "nextNodeID ?s \<le> nextNodeID (fold switch_step ops ?s)"
  proof (induction ops rule: rev_induct)
    case (snoc op ops)
    then show ?case using nextNodeID_mono [of "fold switch_step ops ?s" op] by simp
  qed simp
  have c': "closed (rxpipe s' n)" "ch (rxpipe s' n) = ch (rxpipe s n)"
    using closed_run [OF inv, of n ops] assms(3) cl by (simp_all add: assms(4))
  moreover have "n \<notin> set (nodesByID s')"
    using inv' c'(1) assms(2,3) le cl(3) by (auto simp: switch_inv_def assms(4))
  ultimately show ?thesis
    using inv' by (simp add: node_ReadPacket_def pipe_ReadPacket_def split_beta)
qed


section \<open>The properties at a concrete switch\<close>

definition demo_switch :: switch where
  "demo_switch = fold switch_step [SwNew demo_env, SwNew demo_env, SwNew demo_env] switch_New"

lemma demo_switch_inv: "switch_inv demo_switch"
  unfolding demo_switch_def by (rule switch_inv_run) (rule switch_inv_New)

lemma demo_switch_nodes: "nodesByID demo_switch = [0, 1, 2]" "nextNodeID demo_switch = 3"
  by (simp_all add: demo_switch_def switch_NewNode_def Let_def switch_New_def)

lemma demo_switch_empty:
  "ch (rxpipe demo_switch n) = []" "LookupDest (demo_addr a) (table demo_switch) = broadcastDest"
  by (simp_all add: demo_switch_def switch_NewNode_def Let_def switch_New_def pipe_New_def AddPort_def
      makeRoutingTable_def LookupDest_def)

theorem switch_forwards_witness:
  "switch_inv demo_switch
   \<and> ch (rxpipe (fst (node_WritePacket demo_env 0 (demo_packet 10 11) demo_switch)) 1) = [demo_packet 10 11]"
proof -
  obtain s' err where w: "node_WritePacket demo_env 0 (demo_packet 10 11) demo_switch = (s', err)"
    by fastforce
  have "table s' = Record (env_clock demo_env) 0 (demo_addr 10) (table demo_switch)"
    using node_WritePacket_table [of demo_env 0 "demo_packet 10 11" demo_switch] w by simp
  then have "LookupDest (demo_addr 11) (table s') = broadcastDest"
    using demo_switch_inv by (simp add: LookupDest_Record switch_inv_def demo_switch_empty)
  then show ?thesis
    using switch_forwards [OF demo_switch_inv w] w demo_switch_inv
    by (simp add: demo_switch_nodes demo_switch_empty)
qed

theorem unicast_private_witness:
  "let s1 = fst (node_WritePacket demo_env 1 (demo_packet 11 12) demo_switch);
       s2 = fst (node_WritePacket demo_env 0 (demo_packet 10 11) s1)
   in ch (rxpipe s2 2) = ch (rxpipe s1 2)"
proof -
  obtain s1 e1 where w1: "node_WritePacket demo_env 1 (demo_packet 11 12) demo_switch = (s1, e1)"
    by fastforce
  obtain s2 e2 where w2: "node_WritePacket demo_env 0 (demo_packet 10 11) s1 = (s2, e2)"
    by fastforce
  show ?thesis
    using unicast_private [OF demo_switch_inv _ _ w1 _ _ _ w2] w1 w2
    by (simp add: demo_switch_nodes Let_def)
qed

text \<open>A switch where node 1 has a packet waiting.\<close>

definition demo_busy :: switch where
  "demo_busy = demo_switch\<lparr>rxpipe := (rxpipe demo_switch)(1 := \<lparr>ch = [demo_packet 10 1], closed = False\<rparr>)\<rparr>"

lemma demo_busy_read:
  "ReadPacket switch_network Background 1 demo_busy =
     Some (demo_busy\<lparr>rxpipe := (rxpipe demo_busy)(1 := pipe_New)\<rparr>, RPacket (demo_packet 10 1))"
  by (simp add: demo_busy_def switch_network_def node_ReadPacket_def pipe_defs Background_def pipe_New_def)

end
