(* ===== verification/PacketFilter.thy ===== *)
theory PacketFilter
  imports IpxSwitch
begin

text \<open>
  Package \<^verbatim>\<open>network/filter\<close> (\<^verbatim>\<open>src/network/filter/filter.go\<close>): a layer that drops packets to or from
  the well-known NetBIOS and SNMP sockets, in both directions. The filter has no state of its own, so
  its nodes and its state are those of the wrapped network.
\<close>

definition netbiosPorts :: "u16 \<Rightarrow> bool" where
  "netbiosPorts p \<longleftrightarrow>
     p \<in> {0x451, 0x452, 0x453, 0x455, 0x551, 0x552, 0x553, 0x900F, 0x9010}"

definition shouldFilter :: "Header \<Rightarrow> bool" where
  "shouldFilter hdr \<longleftrightarrow> netbiosPorts (Socket (Dest hdr)) \<or> netbiosPorts (Socket (Src hdr))"

definition filter_ReadPacket :: "'s network \<Rightarrow> ctx \<Rightarrow> int \<Rightarrow> 's \<Rightarrow> ('s \<times> read) option" where
  "filter_ReadPacket inner c n s =
     read_until (\<lambda>packet. \<not> shouldFilter (Header packet)) (ReadPacket inner c n) s"

definition filter_WritePacket :: "'s network \<Rightarrow> env \<Rightarrow> int \<Rightarrow> Packet \<Rightarrow> 's \<Rightarrow> 's \<times> error option" where
  "filter_WritePacket inner e n packet s =
     (if shouldFilter (Header packet) then (s, Some FilteredPacketError)
      else WritePacket inner e n packet s)"

definition filter_Wrap :: "'s network \<Rightarrow> 's network" where
  "filter_Wrap inner = \<lparr>NewNode = NewNode inner,
     ReadPacket = filter_ReadPacket inner,
     WritePacket = filter_WritePacket inner,
     Close = Close inner, GetProperty = GetProperty inner\<rparr>"

lemma filter_Wrap_simps [simp]:
  "NewNode (filter_Wrap inner) = NewNode inner"
  "ReadPacket (filter_Wrap inner) = filter_ReadPacket inner"
  "WritePacket (filter_Wrap inner) = filter_WritePacket inner"
  "Close (filter_Wrap inner) = Close inner"
  "GetProperty (filter_Wrap inner) = GetProperty inner"
  by (simp_all add: filter_Wrap_def)

context network_contract
begin

lemma filter_read:
  assumes "inv s"
  obtains s' r where "filter_ReadPacket net c n s = Some (s', r)" "inv s'"
    "\<And>p. r = RPacket p \<Longrightarrow> \<exists>skipped. queued n s = skipped @ p # queued n s'"
  using read_until_contract [OF assms] unfolding filter_ReadPacket_def by metis

lemma filter_contract: "network_contract (filter_Wrap net) inv queued"
proof
  fix s s' nr e assume "inv s" "NewNode (filter_Wrap net) e s = Some (s', nr)"
  then show "inv s'" by (simp add: inv_new)
next
  fix s s' c n r assume s: "inv s" and rd: "ReadPacket (filter_Wrap net) c n s = Some (s', r)"
  from s show "inv s'"
    by (rule filter_read [of s c n]) (use rd in simp)
next
  fix s e n p assume "inv s"
  then show "inv (fst (WritePacket (filter_Wrap net) e n p s))"
    by (simp add: filter_WritePacket_def inv_write)
next
  fix s n assume "inv s"
  then show "inv (fst (Close (filter_Wrap net) n s))" by (simp add: inv_close)
next
  fix s c n assume s: "inv s"
  then show "ReadPacket (filter_Wrap net) c n s \<noteq> None"
    by (rule filter_read [of s c n]) simp
next
  fix s s' c n p assume s: "inv s" and rd: "ReadPacket (filter_Wrap net) c n s = Some (s', RPacket p)"
  from s show "\<exists>skipped. queued n s = skipped @ p # queued n s'"
    by (rule filter_read [of s c n]) (use rd in simp)
qed

end

interpretation fsw: network_contract "filter_Wrap switch_network" switch_inv switch_queued
  by (rule sw.filter_contract)

text \<open>
  C21. The filter is airtight in both directions, whatever network it wraps: a read never returns a
  packet whose source or destination socket is one of the nine blocked sockets, and a write of such a
  packet returns \<^verbatim>\<open>FilteredPacketError\<close> and leaves the wrapped network untouched, while every other
  packet is written through unchanged.
\<close>

theorem filter_airtight:
  "(ReadPacket (filter_Wrap inner) c n s = Some (s', RPacket p) \<longrightarrow>
      Socket (Src (Header p)) \<notin> {0x451, 0x452, 0x453, 0x455, 0x551, 0x552, 0x553, 0x900F, 0x9010}
      \<and> Socket (Dest (Header p)) \<notin> {0x451, 0x452, 0x453, 0x455, 0x551, 0x552, 0x553, 0x900F, 0x9010})
   \<and> WritePacket (filter_Wrap inner) e n q s =
      (if netbiosPorts (Socket (Src (Header q))) \<or> netbiosPorts (Socket (Dest (Header q)))
       then (s, Some FilteredPacketError) else WritePacket inner e n q s)"
proof -
  have "\<not> shouldFilter (Header p)" if "ReadPacket (filter_Wrap inner) c n s = Some (s', RPacket p)"
    using read_until_acceptable [of "\<lambda>packet. \<not> shouldFilter (Header packet)"] that
    by (fastforce simp: filter_ReadPacket_def)
  then show ?thesis
    by (auto simp: filter_WritePacket_def shouldFilter_def netbiosPorts_def)
qed

lemma demo_filter_read:
  "ReadPacket (filter_Wrap switch_network) Background 1 demo_busy =
     Some (demo_busy\<lparr>rxpipe := (rxpipe demo_busy)(1 := pipe_New)\<rparr>, RPacket (demo_packet 10 1))"
  by (simp add: filter_ReadPacket_def read_until.simps demo_busy_read shouldFilter_def netbiosPorts_def)

theorem filter_airtight_witness:
  "Socket (Dest (Header (demo_packet 10 1))) \<notin> {0x451, 0x452, 0x453, 0x455, 0x551, 0x552, 0x553, 0x900F, 0x9010}"
  using filter_airtight [of switch_network Background 1 demo_busy _ "demo_packet 10 1", unfolded demo_filter_read]
  by simp

end
