(* ===== verification/Addressable.thy ===== *)
theory Addressable
  imports PacketFilter
begin

text \<open>
  Package \<^verbatim>\<open>network/addressable\<close> (\<^verbatim>\<open>src/network/addressable/addressable.go\<close>): a layer that gives every
  node a unique random IPX address, lets the node send only from that address and receive only what is
  addressed to it or broadcast. Node objects live in \<open>a_nodes\<close>, numbered by \<open>a_next\<close>; \<open>nodesByIPX\<close>
  is the Go map from address to node.
\<close>

section \<open>State and operations\<close>

record anode =
  an_inner :: int
  an_addr :: addr

record 's anet =
  a_inner :: 's
  nodesByIPX :: "addr \<rightharpoonup> int"
  a_nodes :: "int \<Rightarrow> anode"
  a_next :: int

definition candidate :: "(nat \<Rightarrow> byte \<times> byte \<times> byte \<times> byte \<times> byte) \<Rightarrow> nat \<Rightarrow> addr" where
  "candidate rand i = (case rand i of (b1, b2, b3, b4, b5) \<Rightarrow> MkAddr 0x02 b1 b2 b3 b4 b5)"

text \<open>The loop that draws addresses until one is free; it may never return.\<close>

partial_function (option) generate ::
  "(addr \<rightharpoonup> int) \<Rightarrow> (nat \<Rightarrow> byte \<times> byte \<times> byte \<times> byte \<times> byte) \<Rightarrow> nat \<Rightarrow> addr option" where
  "generate used rand i =
     (if used (candidate rand i) = None then Some (candidate rand i) else generate used rand (Suc i))"

definition addressable_NewNode ::
  "'s network \<Rightarrow> env \<Rightarrow> 's anet \<Rightarrow> ('s anet \<times> (error + int)) option" where
  "addressable_NewNode inner e s =
     Option.bind (NewNode inner e (a_inner s)) (\<lambda>(i, nr).
       case nr of
         Inl err \<Rightarrow> Some (s\<lparr>a_inner := i\<rparr>, Inl err)
       | Inr m \<Rightarrow>
           Option.bind (generate (nodesByIPX s) (env_rand e) 0) (\<lambda>a.
             let h = a_next s
             in Some (s\<lparr>a_inner := i, nodesByIPX := (nodesByIPX s)(a \<mapsto> h),
                        a_nodes := (a_nodes s)(h := \<lparr>an_inner = m, an_addr = a\<rparr>),
                        a_next := h + 1\<rparr>, Inr h)))"

text \<open>A packet is for the node with address \<open>a\<close>: on network zero, and to \<open>a\<close> or to everybody.\<close>

definition destined_for :: "addr \<Rightarrow> Packet \<Rightarrow> bool" where
  "destined_for a packet \<longleftrightarrow>
     (let dest = Dest (Header packet)
      in Network dest = ZeroNetwork \<and> (Addr dest = a \<or> Addr dest = AddrBroadcast))"

definition addressable_ReadPacket ::
  "'s network \<Rightarrow> ctx \<Rightarrow> int \<Rightarrow> 's anet \<Rightarrow> ('s anet \<times> read) option" where
  "addressable_ReadPacket inner c h s =
     map_option (\<lambda>(i, r). (s\<lparr>a_inner := i\<rparr>, r))
       (read_until (destined_for (an_addr (a_nodes s h)))
          (ReadPacket inner c (an_inner (a_nodes s h))) (a_inner s))"

definition addressable_WritePacket ::
  "'s network \<Rightarrow> env \<Rightarrow> int \<Rightarrow> Packet \<Rightarrow> 's anet \<Rightarrow> 's anet \<times> error option" where
  "addressable_WritePacket inner e h packet s =
     (let src = Src (Header packet); n = a_nodes s h
      in if Network src \<noteq> ZeroNetwork \<or> Addr src \<noteq> an_addr n then (s, Some WrongAddressError)
         else let (i, err) = WritePacket inner e (an_inner n) packet (a_inner s)
              in (s\<lparr>a_inner := i\<rparr>, err))"

definition addressable_Close :: "'s network \<Rightarrow> int \<Rightarrow> 's anet \<Rightarrow> 's anet \<times> error option" where
  "addressable_Close inner h s =
     (let n = a_nodes s h; (i, err) = Close inner (an_inner n) (a_inner s)
      in (s\<lparr>nodesByIPX := (nodesByIPX s)(an_addr n := None), a_inner := i\<rparr>, err))"

definition addressable_GetProperty :: "'s network \<Rightarrow> prop_kind \<Rightarrow> int \<Rightarrow> 's anet \<Rightarrow> property option" where
  "addressable_GetProperty inner k h s =
     (case k of
        KAddr \<Rightarrow> Some (PAddr (an_addr (a_nodes s h)))
      | _ \<Rightarrow> GetProperty inner k (an_inner (a_nodes s h)) (a_inner s))"

definition addressable_Wrap :: "'s network \<Rightarrow> 's anet network" where
  "addressable_Wrap inner = \<lparr>NewNode = addressable_NewNode inner,
     ReadPacket = addressable_ReadPacket inner,
     WritePacket = addressable_WritePacket inner,
     Close = addressable_Close inner, GetProperty = addressable_GetProperty inner\<rparr>"

text \<open>The state of a new addressable network over an inner network in state \<open>i\<close>.\<close>

definition anet_init :: "'s \<Rightarrow> 's anet" where
  "anet_init i = \<lparr>a_inner = i, nodesByIPX = Map.empty,
     a_nodes = (\<lambda>_. \<lparr>an_inner = 0, an_addr = AddrNull\<rparr>), a_next = 0\<rparr>"

lemma addressable_Wrap_simps [simp]:
  "NewNode (addressable_Wrap inner) = addressable_NewNode inner"
  "ReadPacket (addressable_Wrap inner) = addressable_ReadPacket inner"
  "WritePacket (addressable_Wrap inner) = addressable_WritePacket inner"
  "Close (addressable_Wrap inner) = addressable_Close inner"
  "GetProperty (addressable_Wrap inner) = addressable_GetProperty inner"
  by (simp_all add: addressable_Wrap_def)

section \<open>Address generation\<close>

lemma generate_Some:
  assumes "generate used rand i = Some a"
  shows "used a = None \<and> (\<exists>j \<ge> i. a = candidate rand j)"
proof (rule generate.raw_induct [where P = "\<lambda>used rand i a. used a = None \<and> (\<exists>j \<ge> i. a = candidate rand j)",
      OF _ assms])
  fix f used rand i a
  assume IH: "\<And>used rand i a. f used rand i = Some a \<Longrightarrow> used a = None \<and> (\<exists>j\<ge>i. a = candidate rand j)"
    and eq: "(if used (candidate rand i) = None then Some (candidate rand i) else f used rand (Suc i)) = Some a"
  then show "used a = None \<and> (\<exists>j\<ge>i. a = candidate rand j)"
  proof (cases "used (candidate rand i) = None")
    case False
    with eq IH [of used rand "Suc i" a] obtain j where "used a = None" "Suc i \<le> j" "a = candidate rand j"
      by auto
    then show ?thesis by (intro conjI exI [of _ j]) auto
  qed (use eq in auto)
qed

lemma generate_returns:
  assumes "i \<le> j" and "used (candidate rand j) = None"
  shows "\<exists>a. generate used rand i = Some a"
  using assms
proof (induction "j - i" arbitrary: i rule: less_induct)
  case less
  show ?case
  proof (cases "used (candidate rand i) = None")
    case True
    then show ?thesis by (subst generate.simps) simp
  next
    case False
    with less.prems have "Suc i \<le> j" by (metis le_antisym not_less_eq_eq)
    with less.hyps [of "Suc i"] less.prems(2) False show ?thesis
      by (subst generate.simps) simp
  qed
qed

lemma candidate_prefix: "\<exists>b1 b2 b3 b4 b5. candidate rand j = MkAddr 0x02 b1 b2 b3 b4 b5"
  by (cases "rand j") (simp add: candidate_def)

lemma addressable_NewNode_Inr:
  assumes "addressable_NewNode inner e s = Some (s', Inr h)"
  obtains i m a where "NewNode inner e (a_inner s) = Some (i, Inr m)"
    "generate (nodesByIPX s) (env_rand e) 0 = Some a" "h = a_next s"
    "s' = s\<lparr>a_inner := i, nodesByIPX := (nodesByIPX s)(a \<mapsto> a_next s),
       a_nodes := (a_nodes s)(a_next s := \<lparr>an_inner = m, an_addr = a\<rparr>), a_next := a_next s + 1\<rparr>"
proof -
  from assms obtain i r where i: "NewNode inner e (a_inner s) = Some (i, r)"
    by (auto simp: addressable_NewNode_def bind_eq_Some_conv)
  with assms that show ?thesis
    by (cases r) (auto simp: addressable_NewNode_def Let_def bind_eq_Some_conv)
qed

section \<open>Invariant and contract\<close>

text \<open>A node is registered if the address map points its address at it: created and not closed.\<close>

definition registered :: "'s anet \<Rightarrow> int \<Rightarrow> bool" where
  "registered s h \<longleftrightarrow> nodesByIPX s (an_addr (a_nodes s h)) = Some h"

definition anet_inv :: "('s \<Rightarrow> bool) \<Rightarrow> 's anet \<Rightarrow> bool" where
  "anet_inv I s \<longleftrightarrow> I (a_inner s) \<and> 0 \<le> a_next s
     \<and> (\<forall>a h. nodesByIPX s a = Some h \<longrightarrow> h < a_next s \<and> an_addr (a_nodes s h) = a)"

lemma anet_invD:
  "anet_inv I s \<Longrightarrow> nodesByIPX s a = Some h \<Longrightarrow> h < a_next s \<and> an_addr (a_nodes s h) = a"
  by (simp add: anet_inv_def)

definition anet_queued :: "(int \<Rightarrow> 's \<Rightarrow> Packet list) \<Rightarrow> int \<Rightarrow> 's anet \<Rightarrow> Packet list" where
  "anet_queued queued h s = queued (an_inner (a_nodes s h)) (a_inner s)"

context network_contract
begin

lemma addressable_read:
  assumes "anet_inv inv s"
  obtains s' r where "addressable_ReadPacket net c h s = Some (s', r)" "anet_inv inv s'"
    "\<And>p. r = RPacket p \<Longrightarrow> \<exists>skipped. anet_queued queued h s = skipped @ p # anet_queued queued h s'"
proof -
  let ?n = "a_nodes s h"
  from assms have "inv (a_inner s)" by (simp add: anet_inv_def)
  from read_until_contract [OF this, of "destined_for (an_addr ?n)" c "an_inner ?n"]
  obtain i r where "read_until (destined_for (an_addr ?n)) (ReadPacket net c (an_inner ?n)) (a_inner s) = Some (i, r)"
    "inv i" "\<forall>p. r = RPacket p \<longrightarrow> (\<exists>skipped. queued (an_inner ?n) (a_inner s) = skipped @ p # queued (an_inner ?n) i)"
    by blast
  with assms show ?thesis
    by (intro that [of "s\<lparr>a_inner := i\<rparr>" r])
      (simp_all add: addressable_ReadPacket_def anet_inv_def anet_queued_def)
qed

lemma addressable_new:
  assumes "anet_inv inv s" and "addressable_NewNode net e s = Some (s', nr)"
  shows "anet_inv inv s'"
proof -
  from assms(2) obtain i r where i: "NewNode net e (a_inner s) = Some (i, r)"
    by (auto simp: addressable_NewNode_def bind_eq_Some_conv)
  with assms(1) have inv: "inv i"
    using inv_new by (auto simp: anet_inv_def)
  show ?thesis
  proof (cases r)
    case (Inl err)
    with i inv assms show ?thesis by (auto simp: addressable_NewNode_def anet_inv_def)
  next
    case (Inr m)
    with i assms(2) obtain a where a: "generate (nodesByIPX s) (env_rand e) 0 = Some a"
      and s': "s' = s\<lparr>a_inner := i, nodesByIPX := (nodesByIPX s)(a \<mapsto> a_next s),
        a_nodes := (a_nodes s)(a_next s := \<lparr>an_inner = m, an_addr = a\<rparr>), a_next := a_next s + 1\<rparr>"
      by (auto simp: addressable_NewNode_def Let_def bind_eq_Some_conv)
    have "h < a_next s + 1 \<and> an_addr (((a_nodes s)(a_next s := \<lparr>an_inner = m, an_addr = a\<rparr>)) h) = b"
      if "((nodesByIPX s)(a \<mapsto> a_next s)) b = Some h" for b h
    proof (cases "b = a")
      case False
      with that have "nodesByIPX s b = Some h" by simp
      with assms(1) have "h < a_next s" "an_addr (a_nodes s h) = b" by (simp_all add: anet_inv_def)
      then show ?thesis by simp
    qed (use that in simp)
    with assms(1) inv show ?thesis by (simp add: anet_inv_def s')
  qed
qed

lemma addressable_contract:
  "network_contract (addressable_Wrap net) (anet_inv inv) (anet_queued queued)"
proof
  fix s s' nr e assume "anet_inv inv s" "NewNode (addressable_Wrap net) e s = Some (s', nr)"
  then show "anet_inv inv s'" by (simp add: addressable_new)
next
  fix s s' c n r assume s: "anet_inv inv s" and rd: "ReadPacket (addressable_Wrap net) c n s = Some (s', r)"
  from s show "anet_inv inv s'"
    by (rule addressable_read [of s c n]) (use rd in simp)
next
  fix s e n p assume "anet_inv inv s"
  then show "anet_inv inv (fst (WritePacket (addressable_Wrap net) e n p s))"
    by (simp add: addressable_WritePacket_def anet_inv_def inv_write Let_def split_beta)
next
  fix s n assume "anet_inv inv s"
  then show "anet_inv inv (fst (Close (addressable_Wrap net) n s))"
    by (auto simp: addressable_Close_def anet_inv_def inv_close Let_def split_beta)
next
  fix s c n assume s: "anet_inv inv s"
  then show "ReadPacket (addressable_Wrap net) c n s \<noteq> None"
    by (rule addressable_read [of s c n]) simp
next
  fix s s' c n p assume s: "anet_inv inv s"
    and rd: "ReadPacket (addressable_Wrap net) c n s = Some (s', RPacket p)"
  from s show "\<exists>skipped. anet_queued queued n s = skipped @ p # anet_queued queued n s'"
    by (rule addressable_read [of s c n]) (use rd in simp)
qed

end

interpretation afsw: network_contract "addressable_Wrap (filter_Wrap switch_network)"
  "anet_inv switch_inv" "anet_queued switch_queued"
  by (rule fsw.addressable_contract)

section \<open>Properties\<close>

text \<open>
  C22. Addresses are unique and locally administered. A new node gets an address with the prefix 02
  (so neither the null nor the broadcast address) that no registered node has; it is registered under
  that address, which is what \<^verbatim>\<open>network.NodeAddress\<close> reports; nodes registered before stay registered
  under their own addresses.
\<close>

theorem addressable_unique:
  assumes "anet_inv I s" and "NewNode (addressable_Wrap inner) e s = Some (s', Inr h)"
  shows "(\<exists>b1 b2 b3 b4 b5. NodeAddress (addressable_Wrap inner) h s' = MkAddr 0x02 b1 b2 b3 b4 b5)
    \<and> registered s' h \<and> \<not> registered s h
    \<and> (\<forall>k. registered s k \<longrightarrow> registered s' k
         \<and> NodeAddress (addressable_Wrap inner) k s' = NodeAddress (addressable_Wrap inner) k s
         \<and> NodeAddress (addressable_Wrap inner) k s' \<noteq> NodeAddress (addressable_Wrap inner) h s')"
proof -
  from assms(2) have "addressable_NewNode inner e s = Some (s', Inr h)" by simp
  then obtain i m a where "NewNode inner e (a_inner s) = Some (i, Inr m)"
      and a: "generate (nodesByIPX s) (env_rand e) 0 = Some a" and h: "h = a_next s"
      and s': "s' = s\<lparr>a_inner := i, nodesByIPX := (nodesByIPX s)(a \<mapsto> a_next s),
        a_nodes := (a_nodes s)(a_next s := \<lparr>an_inner = m, an_addr = a\<rparr>), a_next := a_next s + 1\<rparr>"
    by (rule addressable_NewNode_Inr)
  from generate_Some [OF a] have free: "nodesByIPX s a = None"
    and pre: "\<exists>b1 b2 b3 b4 b5. a = MkAddr 0x02 b1 b2 b3 b4 b5"
    using candidate_prefix by metis+
  have addr: "NodeAddress (addressable_Wrap inner) k t = an_addr (a_nodes t k)" for k and t :: "'a anet"
    by (simp add: NodeAddress_def addressable_GetProperty_def)
  have old: "k \<noteq> h \<and> an_addr (a_nodes s k) \<noteq> a" if "registered s k" for k
  proof -
    from that have k: "nodesByIPX s (an_addr (a_nodes s k)) = Some k" by (simp add: registered_def)
    then have "k < a_next s" using anet_invD [OF assms(1)] by blast
    moreover have "an_addr (a_nodes s k) \<noteq> a" using k free by auto
    ultimately show ?thesis by (simp add: h)
  qed
  then have "\<not> registered s h" by blast
  with old pre show ?thesis
    by (auto simp: addr registered_def s' h)
qed

text \<open>
  Creating a node terminates: if the wrapped network creates its node and one of the random
  draws is a free address, \<^verbatim>\<open>NewNode\<close> returns a node.
\<close>

lemma addressable_NewNode_returns:
  assumes "NewNode inner e (a_inner s) = Some (i, Inr m)"
    and "nodesByIPX s (candidate (env_rand e) j) = None"
  shows "\<exists>s' h. NewNode (addressable_Wrap inner) e s = Some (s', Inr h)"
  using assms generate_returns [of 0 j "nodesByIPX s" "env_rand e"]
  by (auto simp: addressable_NewNode_def Let_def)

text \<open>
  C2. A node cannot be impersonated or eavesdropped through this layer. A packet is passed on to the
  wrapped network only if its source is the node's own address on network zero; any other is refused
  with \<^verbatim>\<open>WrongAddressError\<close> and changes nothing. A read only returns packets on network zero that are
  addressed to the node or to everybody.
\<close>

theorem addressable_isolation:
  "WritePacket (addressable_Wrap inner) e h p s =
     (if Network (Src (Header p)) = ZeroNetwork
         \<and> Addr (Src (Header p)) = NodeAddress (addressable_Wrap inner) h s
      then (let (i, err) = WritePacket inner e (an_inner (a_nodes s h)) p (a_inner s)
            in (s\<lparr>a_inner := i\<rparr>, err))
      else (s, Some WrongAddressError))
   \<and> (ReadPacket (addressable_Wrap inner) c h s = Some (s', RPacket q) \<longrightarrow>
      Network (Dest (Header q)) = ZeroNetwork
      \<and> Addr (Dest (Header q)) \<in> {NodeAddress (addressable_Wrap inner) h s, AddrBroadcast})"
proof -
  have addr: "NodeAddress (addressable_Wrap inner) h s = an_addr (a_nodes s h)"
    by (simp add: NodeAddress_def addressable_GetProperty_def)
  have "destined_for (an_addr (a_nodes s h)) q" if "ReadPacket (addressable_Wrap inner) c h s = Some (s', RPacket q)"
    using that read_until_acceptable [of "destined_for (an_addr (a_nodes s h))"]
    by (auto simp: addressable_ReadPacket_def)
  then show ?thesis
    by (auto simp: addr addressable_WritePacket_def destined_for_def Let_def)
qed

section \<open>A concrete network\<close>

text \<open>Two nodes, with addresses 02:00:00:00:00:00 and 02:00:00:00:00:01.\<close>

definition demo_anet :: "switch anet" where
  "demo_anet = \<lparr>a_inner = demo_busy,
     nodesByIPX = [MkAddr 2 0 0 0 0 0 \<mapsto> 0, MkAddr 2 0 0 0 0 1 \<mapsto> 1],
     a_nodes = (\<lambda>h. if h = 0 then \<lparr>an_inner = 0, an_addr = MkAddr 2 0 0 0 0 0\<rparr>
                     else \<lparr>an_inner = 1, an_addr = MkAddr 2 0 0 0 0 1\<rparr>), a_next = 2\<rparr>"

lemma demo_busy_inv: "switch_inv demo_busy"
proof -
  have "\<not> closed (rxpipe demo_switch 1)"
    by (simp add: demo_switch_def switch_NewNode_def Let_def switch_New_def pipe_New_def)
  with demo_switch_inv demo_switch_nodes show ?thesis
    by (auto simp: switch_inv_def demo_busy_def pipe_inv_def maxBufferedPackets_def)
qed

lemma demo_anet_inv: "anet_inv switch_inv demo_anet"
  by (auto simp: anet_inv_def demo_anet_def demo_busy_inv)

lemma demo_NewNode:
  "\<exists>s'. NewNode (addressable_Wrap (filter_Wrap switch_network)) demo_env demo_anet = Some (s', Inr 2)"
  by (simp add: addressable_NewNode_def switch_network_def switch_NewNode_def Let_def
      generate.simps candidate_def demo_env_def demo_anet_def)

theorem addressable_unique_witness:
  "\<exists>s'. NewNode (addressable_Wrap (filter_Wrap switch_network)) demo_env demo_anet = Some (s', Inr 2)
     \<and> NodeAddress (addressable_Wrap (filter_Wrap switch_network)) 2 s'
       \<noteq> NodeAddress (addressable_Wrap (filter_Wrap switch_network)) 1 s'"
proof -
  obtain s' where n: "NewNode (addressable_Wrap (filter_Wrap switch_network)) demo_env demo_anet = Some (s', Inr 2)"
    using demo_NewNode by blast
  have "registered demo_anet 1" by (simp add: registered_def demo_anet_def)
  with addressable_unique [OF demo_anet_inv n] n show ?thesis by metis
qed

lemma demo_anet_read:
  "ReadPacket (addressable_Wrap (filter_Wrap switch_network)) Background 1 demo_anet =
     Some (demo_anet\<lparr>a_inner := demo_busy\<lparr>rxpipe := (rxpipe demo_busy)(1 := pipe_New)\<rparr>\<rparr>, RPacket (demo_packet 10 1))"
  using demo_filter_read
  by (simp add: addressable_ReadPacket_def read_until.simps demo_anet_def destined_for_def)

theorem addressable_isolation_witness:
  "Addr (Dest (Header (demo_packet 10 1))) \<in>
     {NodeAddress (addressable_Wrap (filter_Wrap switch_network)) 1 demo_anet, AddrBroadcast}"
  using addressable_isolation [of "filter_Wrap switch_network" _ 1 _ demo_anet Background _ "demo_packet 10 1",
      unfolded demo_anet_read]
  by blast

end
