(* ===== verification/Stats.thy ===== *)
theory Stats
  imports Addressable
begin

text \<open>
  Package \<^verbatim>\<open>network/stats\<close> (\<^verbatim>\<open>src/network/stats/stats.go\<close>): a layer that counts the packets and bytes
  each node sends and receives. The counters are 64-bit words.
\<close>

section \<open>State and operations\<close>

record snode =
  sn_inner :: int
  sn_stats :: Statistics

record 's snet =
  s_inner :: 's
  s_nodes :: "int \<Rightarrow> snode"
  s_next :: int

definition packet_bytes :: "Packet \<Rightarrow> u64" where
  "packet_bytes p = of_nat (length (Payload p) + HeaderLength)"

definition stats_NewNode :: "'s network \<Rightarrow> env \<Rightarrow> 's snet \<Rightarrow> ('s snet \<times> (error + int)) option" where
  "stats_NewNode inner e s =
     Option.bind (NewNode inner e (s_inner s)) (\<lambda>(i, nr).
       case nr of
         Inl err \<Rightarrow> Some (s\<lparr>s_inner := i\<rparr>, Inl err)
       | Inr m \<Rightarrow>
           let h = s_next s;
               st = \<lparr>rxPackets = 0, txPackets = 0, rxBytes = 0, txBytes = 0, connectTime = env_clock e 0\<rparr>
           in Some (s\<lparr>s_inner := i, s_nodes := (s_nodes s)(h := \<lparr>sn_inner = m, sn_stats = st\<rparr>),
                      s_next := h + 1\<rparr>, Inr h))"

definition upd_stats :: "int \<Rightarrow> (Statistics \<Rightarrow> Statistics) \<Rightarrow> 's snet \<Rightarrow> 's snet" where
  "upd_stats h f s = s\<lparr>s_nodes := (s_nodes s)(h := (s_nodes s h)\<lparr>sn_stats := f (sn_stats (s_nodes s h))\<rparr>)\<rparr>"

definition stats_ReadPacket :: "'s network \<Rightarrow> ctx \<Rightarrow> int \<Rightarrow> 's snet \<Rightarrow> ('s snet \<times> read) option" where
  "stats_ReadPacket inner c h s =
     map_option (\<lambda>(i, r).
         case r of
           RPacket p \<Rightarrow>
             (upd_stats h (\<lambda>st. st\<lparr>txPackets := txPackets st + 1, txBytes := txBytes st + packet_bytes p\<rparr>)
                (s\<lparr>s_inner := i\<rparr>), RPacket p)
         | _ \<Rightarrow> (s\<lparr>s_inner := i\<rparr>, r))
       (ReadPacket inner c (sn_inner (s_nodes s h)) (s_inner s))"

definition stats_WritePacket ::
  "'s network \<Rightarrow> env \<Rightarrow> int \<Rightarrow> Packet \<Rightarrow> 's snet \<Rightarrow> 's snet \<times> error option" where
  "stats_WritePacket inner e h p s =
     (let (i, err) = WritePacket inner e (sn_inner (s_nodes s h)) p (s_inner s)
      in case err of
           Some er \<Rightarrow> (s\<lparr>s_inner := i\<rparr>, Some er)
         | None \<Rightarrow>
             (upd_stats h (\<lambda>st. st\<lparr>rxPackets := rxPackets st + 1, rxBytes := rxBytes st + packet_bytes p\<rparr>)
                (s\<lparr>s_inner := i\<rparr>), None))"

definition stats_Close :: "'s network \<Rightarrow> int \<Rightarrow> 's snet \<Rightarrow> 's snet \<times> error option" where
  "stats_Close inner h s =
     (let (i, err) = Close inner (sn_inner (s_nodes s h)) (s_inner s) in (s\<lparr>s_inner := i\<rparr>, err))"

definition stats_GetProperty :: "'s network \<Rightarrow> prop_kind \<Rightarrow> int \<Rightarrow> 's snet \<Rightarrow> property option" where
  "stats_GetProperty inner k h s =
     (case k of
        KStatistics \<Rightarrow> Some (PStatistics (sn_stats (s_nodes s h)))
      | _ \<Rightarrow> GetProperty inner k (sn_inner (s_nodes s h)) (s_inner s))"

definition stats_Wrap :: "'s network \<Rightarrow> 's snet network" where
  "stats_Wrap inner = \<lparr>NewNode = stats_NewNode inner, ReadPacket = stats_ReadPacket inner,
     WritePacket = stats_WritePacket inner, Close = stats_Close inner,
     GetProperty = stats_GetProperty inner\<rparr>"

definition snet_init :: "'s \<Rightarrow> 's snet" where
  "snet_init i = \<lparr>s_inner = i, s_nodes = (\<lambda>_. \<lparr>sn_inner = 0,
     sn_stats = \<lparr>rxPackets = 0, txPackets = 0, rxBytes = 0, txBytes = 0, connectTime = 0\<rparr>\<rparr>), s_next = 0\<rparr>"

lemma stats_Wrap_simps [simp]:
  "NewNode (stats_Wrap inner) = stats_NewNode inner"
  "ReadPacket (stats_Wrap inner) = stats_ReadPacket inner"
  "WritePacket (stats_Wrap inner) = stats_WritePacket inner"
  "Close (stats_Wrap inner) = stats_Close inner"
  "GetProperty (stats_Wrap inner) = stats_GetProperty inner"
  by (simp_all add: stats_Wrap_def)

section \<open>Contract\<close>

definition snet_inv :: "('s \<Rightarrow> bool) \<Rightarrow> 's snet \<Rightarrow> bool" where
  "snet_inv I s \<longleftrightarrow> I (s_inner s)"

definition snet_queued :: "(int \<Rightarrow> 's \<Rightarrow> Packet list) \<Rightarrow> int \<Rightarrow> 's snet \<Rightarrow> Packet list" where
  "snet_queued queued h s = queued (sn_inner (s_nodes s h)) (s_inner s)"

lemma upd_stats_simps [simp]:
  "s_inner (upd_stats h f s) = s_inner s" "s_next (upd_stats h f s) = s_next s"
  "sn_inner (s_nodes (upd_stats h f s) k) = sn_inner (s_nodes s k)"
  by (simp_all add: upd_stats_def)

lemma stats_ReadPacket_Some:
  assumes "stats_ReadPacket inner c h s = Some (s', r)"
  obtains (packet) i p where "ReadPacket inner c (sn_inner (s_nodes s h)) (s_inner s) = Some (i, RPacket p)"
      "r = RPacket p"
      "s' = upd_stats h (\<lambda>st. st\<lparr>txPackets := txPackets st + 1, txBytes := txBytes st + packet_bytes p\<rparr>)
              (s\<lparr>s_inner := i\<rparr>)"
    | (other) i where "ReadPacket inner c (sn_inner (s_nodes s h)) (s_inner s) = Some (i, r)"
      "\<forall>p. r \<noteq> RPacket p" "s' = s\<lparr>s_inner := i\<rparr>"
proof -
  from assms obtain i b where i: "ReadPacket inner c (sn_inner (s_nodes s h)) (s_inner s) = Some (i, b)"
    by (auto simp: stats_ReadPacket_def)
  show thesis
    using assms i that by (cases b) (auto simp: stats_ReadPacket_def)
qed

context network_contract
begin

lemma stats_contract: "network_contract (stats_Wrap net) (snet_inv inv) (snet_queued queued)"
proof
  fix s s' nr e assume s: "snet_inv inv s" and n: "NewNode (stats_Wrap net) e s = Some (s', nr)"
  from n obtain i r where i: "NewNode net e (s_inner s) = Some (i, r)"
    by (auto simp: stats_NewNode_def bind_eq_Some_conv)
  with s have "inv i" using inv_new by (simp add: snet_inv_def)
  with n i show "snet_inv inv s'"
    by (cases r) (auto simp: stats_NewNode_def Let_def snet_inv_def)
next
  fix s s' c n r assume s: "snet_inv inv s" and rd: "ReadPacket (stats_Wrap net) c n s = Some (s', r)"
  from rd [unfolded stats_Wrap_simps] show "snet_inv inv s'"
    by (cases rule: stats_ReadPacket_Some) (use s in \<open>simp_all add: snet_inv_def inv_read\<close>)
next
  fix s e n p assume "snet_inv inv s"
  then show "snet_inv inv (fst (WritePacket (stats_Wrap net) e n p s))"
    by (simp add: stats_WritePacket_def snet_inv_def inv_write split_beta Let_def split: option.splits)
next
  fix s n assume "snet_inv inv s"
  then show "snet_inv inv (fst (Close (stats_Wrap net) n s))"
    by (simp add: stats_Close_def snet_inv_def inv_close split_beta)
next
  fix s c n assume "snet_inv inv s"
  then show "ReadPacket (stats_Wrap net) c n s \<noteq> None"
    using read_returns [of "s_inner s"] by (simp add: stats_ReadPacket_def snet_inv_def)
next
  fix s s' c n p
  assume s: "snet_inv inv s" and rd: "ReadPacket (stats_Wrap net) c n s = Some (s', RPacket p)"
  then obtain i where "ReadPacket net c (sn_inner (s_nodes s n)) (s_inner s) = Some (i, RPacket p)"
    and "s_inner s' = i" "sn_inner (s_nodes s' n) = sn_inner (s_nodes s n)"
    by (auto elim: stats_ReadPacket_Some)
  with read_packet [of "s_inner s" c "sn_inner (s_nodes s n)" i p] s
  show "\<exists>skipped. snet_queued queued n s = skipped @ p # snet_queued queued n s'"
    by (simp add: snet_queued_def snet_inv_def)
qed

end

interpretation safsw: network_contract "stats_Wrap (addressable_Wrap (filter_Wrap switch_network))"
  "snet_inv (anet_inv switch_inv)" "snet_queued (anet_queued switch_queued)"
  by (rule afsw.stats_contract)

section \<open>The counters are exact\<close>

text \<open>Operations on the nodes of one stats network, and what they log for node \<open>h\<close>: the packets
  successfully written by \<open>h\<close> and the packets read by \<open>h\<close>.\<close>

datatype stats_op = StRead ctx int | StWrite env int Packet | StClose int

fun stats_step :: "'s network \<Rightarrow> stats_op \<Rightarrow> 's snet \<Rightarrow> ('s snet \<times> Packet option \<times> Packet option) option" where
  "stats_step inner (StRead c h) s =
     map_option (\<lambda>(s', r). (s', None, case r of RPacket p \<Rightarrow> Some p | _ \<Rightarrow> None)) (stats_ReadPacket inner c h s)"
| "stats_step inner (StWrite e h p) s =
     (let (s', err) = stats_WritePacket inner e h p s in Some (s', if err = None then Some p else None, None))"
| "stats_step inner (StClose h) s = Some (fst (stats_Close inner h s), None, None)"

fun op_node :: "stats_op \<Rightarrow> int" where
  "op_node (StRead c h) = h"
| "op_node (StWrite e h p) = h"
| "op_node (StClose h) = h"

text \<open>\<open>stats_run\<close> runs operations; \<open>rx\<close> and \<open>tx\<close> collect what node \<open>h\<close> wrote and read.\<close>

fun stats_run :: "'s network \<Rightarrow> int \<Rightarrow> stats_op list \<Rightarrow> 's snet \<Rightarrow> ('s snet \<times> Packet list \<times> Packet list) option" where
  "stats_run inner h [] s = Some (s, [], [])"
| "stats_run inner h (op # ops) s =
     Option.bind (stats_step inner op s) (\<lambda>(s1, w, r).
       map_option (\<lambda>(s2, rx, tx).
           (s2, if op_node op = h then (case w of None \<Rightarrow> rx | Some p \<Rightarrow> p # rx) else rx,
            if op_node op = h then (case r of None \<Rightarrow> tx | Some p \<Rightarrow> p # tx) else tx))
         (stats_run inner h ops s1))"

definition total_bytes :: "Packet list \<Rightarrow> u64" where
  "total_bytes ps = of_nat (\<Sum>p\<leftarrow>ps. length (Payload p) + 30)"

lemma total_bytes_Cons: "total_bytes (p # ps) = packet_bytes p + total_bytes ps"
  by (simp add: total_bytes_def packet_bytes_def HeaderLength_def)

definition counted :: "Statistics \<Rightarrow> Packet list \<Rightarrow> Packet list \<Rightarrow> Statistics" where
  "counted st rx tx = st\<lparr>rxPackets := rxPackets st + of_nat (length rx), txPackets := txPackets st + of_nat (length tx),
     rxBytes := rxBytes st + total_bytes rx, txBytes := txBytes st + total_bytes tx\<rparr>"

lemma counted_Nil [simp]: "counted st [] [] = st"
  by (simp add: counted_def total_bytes_def)

lemma stats_step_counts:
  assumes "stats_step inner op s = Some (s1, w, r)"
  shows "sn_stats (s_nodes s1 h) =
    (if op_node op = h then counted (sn_stats (s_nodes s h)) (case w of None \<Rightarrow> [] | Some p \<Rightarrow> [p]) (case r of None \<Rightarrow> [] | Some p \<Rightarrow> [p])
     else sn_stats (s_nodes s h))"
proof (cases op)
  case (StRead c n)
  with assms obtain b where "stats_ReadPacket inner c n s = Some (s1, b)"
    and wr: "w = None" "r = (case b of RPacket p \<Rightarrow> Some p | _ \<Rightarrow> None)"
    by auto
  then show ?thesis
    by (cases rule: stats_ReadPacket_Some)
      (auto simp: StRead upd_stats_def counted_def total_bytes_def packet_bytes_def HeaderLength_def split: read.splits)
next
  case (StWrite e n p)
  obtain i err where "WritePacket inner e (sn_inner (s_nodes s n)) p (s_inner s) = (i, err)"
    by (rule prod.exhaust)
  with assms StWrite show ?thesis
    by (cases err)
      (auto simp: stats_WritePacket_def upd_stats_def counted_def total_bytes_def packet_bytes_def HeaderLength_def)
next
  case (StClose n)
  with assms show ?thesis by (auto simp: stats_Close_def split_beta)
qed

lemma counted_counted:
  "counted (counted st rx tx) rx' tx' = counted st (rx @ rx') (tx @ tx')"
  by (simp add: counted_def total_bytes_def algebra_simps)

text \<open>
  C35. The statistics of a node are exact, whatever network is wrapped: after any sequence of
  operations, its receive counters are the number and the total size (headers included) of the packets
  it wrote successfully, and its transmit counters those of the packets it read, modulo 2 to the 64.
\<close>

theorem stats_exact:
  assumes "stats_run inner h ops s = Some (s', rx, tx)"
  shows "GetProperty (stats_Wrap inner) KStatistics h s' = Some (PStatistics (counted (sn_stats (s_nodes s h)) rx tx))"
proof -
  have "sn_stats (s_nodes s' h) = counted (sn_stats (s_nodes s h)) rx tx"
    using assms
  proof (induction ops arbitrary: s rx tx)
    case (Cons op ops)
    from Cons.prems obtain s1 w r rx1 tx1 where st: "stats_step inner op s = Some (s1, w, r)"
      and run: "stats_run inner h ops s1 = Some (s', rx1, tx1)"
      and rx: "rx = (if op_node op = h then (case w of None \<Rightarrow> rx1 | Some p \<Rightarrow> p # rx1) else rx1)"
      and tx: "tx = (if op_node op = h then (case r of None \<Rightarrow> tx1 | Some p \<Rightarrow> p # tx1) else tx1)"
      by (auto simp: bind_eq_Some_conv)
    from Cons.IH [OF run] stats_step_counts [OF st, of h] show ?case
      by (auto simp: rx tx counted_counted split: option.splits)
  qed simp
  then show ?thesis by (simp add: stats_GetProperty_def)
qed

definition demo_snet :: "switch anet snet" where
  "demo_snet = (snet_init demo_anet)\<lparr>s_nodes := (\<lambda>h. \<lparr>sn_inner = h,
     sn_stats = \<lparr>rxPackets = 0, txPackets = 0, rxBytes = 0, txBytes = 0, connectTime = 0\<rparr>\<rparr>), s_next := 2\<rparr>"

lemma demo_snet_read:
  "\<exists>s'. stats_run (addressable_Wrap (filter_Wrap switch_network)) 1 [StRead Background 1] demo_snet
     = Some (s', [], [demo_packet 10 1])"
  using demo_anet_read
  by (simp add: stats_ReadPacket_def demo_snet_def snet_init_def)

theorem stats_exact_witness:
  "\<exists>s' st. stats_run (addressable_Wrap (filter_Wrap switch_network)) 1 [StRead Background 1] demo_snet
     = Some (s', [], [demo_packet 10 1])
   \<and> GetProperty (stats_Wrap (addressable_Wrap (filter_Wrap switch_network))) KStatistics 1 s' = Some (PStatistics st)
   \<and> txPackets st = 1 \<and> txBytes st = 33 \<and> rxPackets st = 0"
proof -
  obtain s' where run: "stats_run (addressable_Wrap (filter_Wrap switch_network)) 1 [StRead Background 1] demo_snet
     = Some (s', [], [demo_packet 10 1])"
    using demo_snet_read by blast
  have "let st = counted (sn_stats (s_nodes demo_snet 1)) [] [demo_packet 10 1]
        in txPackets st = 1 \<and> txBytes st = 33 \<and> rxPackets st = 0"
    by (simp add: counted_def total_bytes_def demo_snet_def demo_packet_def)
  with run stats_exact [OF run] show ?thesis by (metis (full_types))
qed

end
