(* ===== verification/Tappable.thy ===== *)
theory Tappable
  imports IpxSwitch
begin

text \<open>
  Package \<^verbatim>\<open>network/tappable\<close> (\<^verbatim>\<open>src/network/tappable/tappable.go\<close>): a layer that copies every packet
  written to the network to the taps attached to it. \<open>tap_pipe\<close> holds the pipe of every tap object ever
  created, by tap ID; \<open>taps\<close> are the IDs in the Go map.
\<close>

section \<open>State and operations\<close>

record 's tnet =
  t_inner :: 's
  nextTapID :: int
  taps :: "int list"
  tap_pipe :: "int \<Rightarrow> pipe"

definition tnet_init :: "'s \<Rightarrow> 's tnet" where
  "tnet_init i = \<lparr>t_inner = i, nextTapID = 0, taps = [], tap_pipe = (\<lambda>_. pipe_New)\<rparr>"

definition NewTap :: "'s tnet \<Rightarrow> 's tnet \<times> int" where
  "NewTap s =
     (let t = nextTapID s
      in (s\<lparr>nextTapID := t + 1, taps := taps s @ [t], tap_pipe := (tap_pipe s)(t := pipe_New)\<rparr>, t))"

definition deleteTap :: "int \<Rightarrow> 's tnet \<Rightarrow> 's tnet" where
  "deleteTap t s = s\<lparr>taps := removeAll t (taps s)\<rparr>"

fun write_taps :: "Packet \<Rightarrow> int list \<Rightarrow> (int \<Rightarrow> pipe) \<Rightarrow> (int \<Rightarrow> pipe)" where
  "write_taps packet [] tp = tp"
| "write_taps packet (t # ts) tp = write_taps packet ts (tp(t := fst (pipe_WritePacket packet (tp t))))"

definition writeToTaps :: "Packet \<Rightarrow> 's tnet \<Rightarrow> 's tnet" where
  "writeToTaps packet s = s\<lparr>tap_pipe := write_taps packet (taps s) (tap_pipe s)\<rparr>"

definition tap_ReadPacket :: "ctx \<Rightarrow> int \<Rightarrow> 's tnet \<Rightarrow> 's tnet \<times> read" where
  "tap_ReadPacket c t s =
     (let (p, r) = pipe_ReadPacket c (tap_pipe s t) in (s\<lparr>tap_pipe := (tap_pipe s)(t := p)\<rparr>, r))"

definition tap_Close :: "int \<Rightarrow> 's tnet \<Rightarrow> 's tnet \<times> error option" where
  "tap_Close t s =
     (let s1 = deleteTap t s; (p, err) = pipe_Close (tap_pipe s1 t)
      in (s1\<lparr>tap_pipe := (tap_pipe s1)(t := p)\<rparr>, err))"

definition tappable_NewNode :: "'s network \<Rightarrow> env \<Rightarrow> 's tnet \<Rightarrow> ('s tnet \<times> (error + int)) option" where
  "tappable_NewNode inner e s =
     map_option (\<lambda>(i, nr). (s\<lparr>t_inner := i\<rparr>, nr)) (NewNode inner e (t_inner s))"

definition tappable_ReadPacket :: "'s network \<Rightarrow> ctx \<Rightarrow> int \<Rightarrow> 's tnet \<Rightarrow> ('s tnet \<times> read) option" where
  "tappable_ReadPacket inner c n s =
     map_option (\<lambda>(i, r). (s\<lparr>t_inner := i\<rparr>, r)) (ReadPacket inner c n (t_inner s))"

definition tappable_WritePacket ::
  "'s network \<Rightarrow> env \<Rightarrow> int \<Rightarrow> Packet \<Rightarrow> 's tnet \<Rightarrow> 's tnet \<times> error option" where
  "tappable_WritePacket inner e n packet s =
     (let s1 = writeToTaps packet s; (i, err) = WritePacket inner e n packet (t_inner s1)
      in (s1\<lparr>t_inner := i\<rparr>, err))"

definition tappable_Close :: "'s network \<Rightarrow> int \<Rightarrow> 's tnet \<Rightarrow> 's tnet \<times> error option" where
  "tappable_Close inner n s = (let (i, err) = Close inner n (t_inner s) in (s\<lparr>t_inner := i\<rparr>, err))"

definition tappable_GetProperty :: "'s network \<Rightarrow> prop_kind \<Rightarrow> int \<Rightarrow> 's tnet \<Rightarrow> property option" where
  "tappable_GetProperty inner k n s = GetProperty inner k n (t_inner s)"

definition tappable_Wrap :: "'s network \<Rightarrow> 's tnet network" where
  "tappable_Wrap inner = \<lparr>NewNode = tappable_NewNode inner, ReadPacket = tappable_ReadPacket inner,
     WritePacket = tappable_WritePacket inner, Close = tappable_Close inner,
     GetProperty = tappable_GetProperty inner\<rparr>"

lemma tappable_Wrap_simps [simp]:
  "NewNode (tappable_Wrap inner) = tappable_NewNode inner"
  "ReadPacket (tappable_Wrap inner) = tappable_ReadPacket inner"
  "WritePacket (tappable_Wrap inner) = tappable_WritePacket inner"
  "Close (tappable_Wrap inner) = tappable_Close inner"
  "GetProperty (tappable_Wrap inner) = tappable_GetProperty inner"
  by (simp_all add: tappable_Wrap_def)

section \<open>Contract\<close>

definition tnet_inv :: "('s \<Rightarrow> bool) \<Rightarrow> 's tnet \<Rightarrow> bool" where
  "tnet_inv I s \<longleftrightarrow> I (t_inner s)"

definition tnet_queued :: "(int \<Rightarrow> 's \<Rightarrow> Packet list) \<Rightarrow> int \<Rightarrow> 's tnet \<Rightarrow> Packet list" where
  "tnet_queued queued n s = queued n (t_inner s)"

context network_contract
begin

lemma tappable_contract: "network_contract (tappable_Wrap net) (tnet_inv inv) (tnet_queued queued)"
proof
  fix s s' nr e assume "tnet_inv inv s" "NewNode (tappable_Wrap net) e s = Some (s', nr)"
  then show "tnet_inv inv s'"
    by (auto simp: tappable_NewNode_def tnet_inv_def intro: inv_new)
next
  fix s s' c n r assume "tnet_inv inv s" "ReadPacket (tappable_Wrap net) c n s = Some (s', r)"
  then show "tnet_inv inv s'"
    by (auto simp: tappable_ReadPacket_def tnet_inv_def intro: inv_read)
next
  fix s s' c n p assume "tnet_inv inv s" "ReadPacket (tappable_Wrap net) c n s = Some (s', RPacket p)"
  then show "\<exists>skipped. tnet_queued queued n s = skipped @ p # tnet_queued queued n s'"
    by (auto simp: tappable_ReadPacket_def tnet_inv_def tnet_queued_def intro: read_packet)
qed (simp_all add: tappable_WritePacket_def tappable_Close_def tappable_ReadPacket_def writeToTaps_def
       tnet_inv_def inv_write inv_close read_returns Let_def split_beta)

end

interpretation tsw: network_contract "tappable_Wrap switch_network" "tnet_inv switch_inv" "tnet_queued switch_queued"
  by (rule sw.tappable_contract)

section \<open>Taps see everything and change nothing\<close>

lemma write_taps_apply:
  "distinct ts \<Longrightarrow> write_taps p ts tp t = (if t \<in> set ts then fst (pipe_WritePacket p (tp t)) else tp t)"
  by (induction ts arbitrary: tp) auto

text \<open>
  C34. Taps are transparent. A write through the tappable layer does to the wrapped network exactly
  what a direct write does and returns the same error; and, whether or not that write succeeds, the
  packet is appended to the queue of every attached tap that is open and has room, and no other tap
  changes.
\<close>

theorem taps_transparent:
  assumes "distinct (taps s)"
    and "WritePacket (tappable_Wrap inner) e n p s = (s', err)"
  shows "(t_inner s', err) = WritePacket inner e n p (t_inner s)
    \<and> (\<forall>t. ch (tap_pipe s' t) =
        (if t \<in> set (taps s) \<and> \<not> closed (tap_pipe s t) \<and> length (ch (tap_pipe s t)) < 16
         then ch (tap_pipe s t) @ [p] else ch (tap_pipe s t)))"
  using assms write_taps_apply [OF assms(1), of p "tap_pipe s"]
  by (auto simp: tappable_WritePacket_def writeToTaps_def Let_def pipe_write_ch maxBufferedPackets_def
      split: prod.splits)

theorem taps_transparent_witness:
  "ch (tap_pipe (fst (WritePacket (tappable_Wrap switch_network) demo_env 0 (demo_packet 10 1)
     (fst (NewTap (tnet_init demo_switch))))) 0) = [demo_packet 10 1]"
proof -
  let ?s = "fst (NewTap (tnet_init demo_switch))"
  have s: "taps ?s = [0]" "tap_pipe ?s 0 = pipe_New"
    by (simp_all add: NewTap_def tnet_init_def Let_def)
  obtain s' err where w: "WritePacket (tappable_Wrap switch_network) demo_env 0 (demo_packet 10 1) ?s = (s', err)"
    by (rule prod.exhaust)
  show ?thesis
    using taps_transparent [OF _ w] by (simp add: w s pipe_New_def del: tappable_Wrap_simps)
qed

end
