(* ===== verification/Stack.thy ===== *)
theory Stack
  imports Stats Tappable
begin

text \<open>
  The network that \<^verbatim>\<open>makeNetwork\<close> in \<^verbatim>\<open>src/ipxbox.go\<close> builds from the layers: the switch, the packet
  dump tap if \<^verbatim>\<open>--dump_packets\<close> is given, the NetBIOS filter unless \<^verbatim>\<open>--allow_netbios\<close> is given, and then
  two views of it: \<^verbatim>\<open>net\<close>, with addresses and statistics, for ordinary clients, and \<^verbatim>\<open>uplinkable\<close>,
  with statistics only, for bridges and uplinks.

  So that the configurations have one type, the state always has the fields of the tappable layer;
  without \<^verbatim>\<open>--dump_packets\<close> the layer \<open>untapped\<close> passes every call straight to the switch.
\<close>

section \<open>Composition\<close>

definition untapped :: "'s network \<Rightarrow> 's tnet network" where
  "untapped inner = (tappable_Wrap inner)\<lparr>WritePacket := (\<lambda>e n p s.
     let (i, err) = WritePacket inner e n p (t_inner s) in (s\<lparr>t_inner := i\<rparr>, err))\<rparr>"

definition make_base :: "bool \<Rightarrow> bool \<Rightarrow> switch tnet network" where
  "make_base dumpPackets allowNetBIOS =
     (let net = (if dumpPackets then tappable_Wrap switch_network else untapped switch_network)
      in if \<not> allowNetBIOS then filter_Wrap net else net)"

definition make_net :: "bool \<Rightarrow> bool \<Rightarrow> switch tnet anet snet network" where
  "make_net dumpPackets allowNetBIOS = stats_Wrap (addressable_Wrap (make_base dumpPackets allowNetBIOS))"

definition make_uplinkable :: "bool \<Rightarrow> bool \<Rightarrow> switch tnet snet network" where
  "make_uplinkable dumpPackets allowNetBIOS = stats_Wrap (make_base dumpPackets allowNetBIOS)"

text \<open>
  Both views share the layers below. \<open>box_net\<close> holds the state of \<^verbatim>\<open>net\<close>, down to the switch;
  \<open>box_up\<close> the statistics layer of \<^verbatim>\<open>uplinkable\<close>, whose inner state is taken from \<open>box_net\<close> for the
  duration of a call and stored back.
\<close>

record box =
  box_net :: "switch tnet anet snet"
  box_up :: "unit snet"

definition box_base :: "box \<Rightarrow> switch tnet" where
  "box_base b = a_inner (s_inner (box_net b))"

definition get_up :: "box \<Rightarrow> switch tnet snet" where
  "get_up b = \<lparr>s_inner = box_base b, s_nodes = s_nodes (box_up b), s_next = s_next (box_up b)\<rparr>"

definition put_up :: "switch tnet snet \<Rightarrow> box \<Rightarrow> box" where
  "put_up u b = b\<lparr>box_up := \<lparr>s_inner = (), s_nodes = s_nodes u, s_next = s_next u\<rparr>,
     box_net := (box_net b)\<lparr>s_inner := (s_inner (box_net b))\<lparr>a_inner := s_inner u\<rparr>\<rparr>\<rparr>"

definition makeNetwork :: "bool \<Rightarrow> box" where
  "makeNetwork dumpPackets =
     (let sw = tnet_init switch_New; base = (if dumpPackets then fst (NewTap sw) else sw)
      in \<lparr>box_net = snet_init (anet_init base), box_up = snet_init ()\<rparr>)"

text \<open>The calls that servers, bridges and the packet dump make on the two views.\<close>

datatype box_op =
    ClientNew env | ClientRead ctx int | ClientWrite env int Packet | ClientClose int
  | UplinkNew env | UplinkRead ctx int | UplinkWrite env int Packet | UplinkClose int
  | DumpRead ctx int

definition on_net :: "box \<Rightarrow> ('a \<Rightarrow> switch tnet anet snet) \<Rightarrow> 'a option \<Rightarrow> box option" where
  "on_net b f = map_option (\<lambda>x. b\<lparr>box_net := f x\<rparr>)"

fun box_step :: "bool \<Rightarrow> bool \<Rightarrow> box_op \<Rightarrow> box \<Rightarrow> box option" where
  "box_step d a (ClientNew e) b = on_net b fst (NewNode (make_net d a) e (box_net b))"
| "box_step d a (ClientRead c n) b = on_net b fst (ReadPacket (make_net d a) c n (box_net b))"
| "box_step d a (ClientWrite e n p) b = on_net b fst (Some (WritePacket (make_net d a) e n p (box_net b)))"
| "box_step d a (ClientClose n) b = on_net b fst (Some (Close (make_net d a) n (box_net b)))"
| "box_step d a (UplinkNew e) b = map_option (\<lambda>r. put_up (fst r) b) (NewNode (make_uplinkable d a) e (get_up b))"
| "box_step d a (UplinkRead c n) b = map_option (\<lambda>r. put_up (fst r) b) (ReadPacket (make_uplinkable d a) c n (get_up b))"
| "box_step d a (UplinkWrite e n p) b = Some (put_up (fst (WritePacket (make_uplinkable d a) e n p (get_up b))) b)"
| "box_step d a (UplinkClose n) b = Some (put_up (fst (Close (make_uplinkable d a) n (get_up b))) b)"
| "box_step d a (DumpRead c t) b =
     Some (b\<lparr>box_net := (box_net b)\<lparr>s_inner := (s_inner (box_net b))\<lparr>a_inner := fst (tap_ReadPacket c t (box_base b))\<rparr>\<rparr>\<rparr>)"

fun box_run :: "bool \<Rightarrow> bool \<Rightarrow> box_op list \<Rightarrow> box \<Rightarrow> box option" where
  "box_run d a [] b = Some b"
| "box_run d a (op # ops) b = Option.bind (box_step d a op b) (box_run d a ops)"

section \<open>The contract of every configuration\<close>

lemma untapped_simps [simp]:
  "NewNode (untapped inner) = tappable_NewNode inner"
  "ReadPacket (untapped inner) = tappable_ReadPacket inner"
  "WritePacket (untapped inner) = (\<lambda>e n p s.
     let (i, err) = WritePacket inner e n p (t_inner s) in (s\<lparr>t_inner := i\<rparr>, err))"
  "Close (untapped inner) = tappable_Close inner"
  "GetProperty (untapped inner) = tappable_GetProperty inner"
  by (simp_all add: untapped_def)

context network_contract
begin

lemma replace_write_contract:
  assumes "\<And>e n p s. inv s \<Longrightarrow> inv (fst (w e n p s))"
  shows "network_contract (net\<lparr>WritePacket := w\<rparr>) inv queued"
  using assms
  by unfold_locales (auto intro: inv_new inv_read inv_close read_packet simp: read_returns simp del: not_None_eq)

lemma untapped_contract: "network_contract (untapped net) (tnet_inv inv) (tnet_queued queued)"
  unfolding untapped_def
  by (rule network_contract.replace_write_contract [OF tappable_contract])
    (simp add: tnet_inv_def split_beta inv_write)

end

abbreviation base_inv :: "switch tnet \<Rightarrow> bool" where "base_inv \<equiv> tnet_inv switch_inv"
abbreviation base_queued :: "int \<Rightarrow> switch tnet \<Rightarrow> Packet list" where "base_queued \<equiv> tnet_queued switch_queued"

interpretation usw: network_contract "untapped switch_network" base_inv base_queued
  by (rule sw.untapped_contract)

interpretation base: network_contract "make_base d a" base_inv base_queued
  using usw.network_contract_axioms tsw.network_contract_axioms usw.filter_contract
    network_contract.filter_contract [OF tsw.network_contract_axioms]
  unfolding make_base_def Let_def by (simp only: split: if_split) blast

interpretation up: network_contract "make_uplinkable d a" "snet_inv base_inv" "snet_queued base_queued"
  unfolding make_uplinkable_def by (rule base.stats_contract)

interpretation abase: network_contract "addressable_Wrap (make_base d a)" "anet_inv base_inv" "anet_queued base_queued"
  by (rule base.addressable_contract)

interpretation stack: network_contract "make_net d a" "snet_inv (anet_inv base_inv)"
  "snet_queued (anet_queued base_queued)"
  unfolding make_net_def by (rule abase.stats_contract)

section \<open>Invariant of the whole network\<close>

definition box_inv :: "box \<Rightarrow> bool" where
  "box_inv b \<longleftrightarrow> snet_inv (anet_inv base_inv) (box_net b)"

lemma anet_inv_inner: "anet_inv I s \<Longrightarrow> I i \<Longrightarrow> anet_inv I (s\<lparr>a_inner := i\<rparr>)"
  by (simp add: anet_inv_def)

lemma box_inv_put_up:
  "box_inv b \<Longrightarrow> snet_inv base_inv u \<Longrightarrow> box_inv (put_up u b)"
  by (simp add: box_inv_def snet_inv_def put_up_def anet_inv_inner)

lemma box_inv_get_up: "box_inv b \<Longrightarrow> snet_inv base_inv (get_up b)"
  by (simp add: box_inv_def snet_inv_def get_up_def box_base_def anet_inv_def)

lemma box_inv_step:
  assumes b: "box_inv b" and st: "box_step d a op b = Some b'"
  shows "box_inv b'"
proof -
  have net: "snet_inv (anet_inv base_inv) (box_net b)" using b by (simp add: box_inv_def)
  note up = box_inv_get_up [OF b]
  show ?thesis
  proof (cases op)
    case (ClientNew e)
    with st net stack.inv_new show ?thesis by (fastforce simp: on_net_def box_inv_def)
  next
    case (ClientRead c n)
    with st net stack.inv_read show ?thesis by (fastforce simp: on_net_def box_inv_def)
  next
    case (UplinkNew e)
    with st b up.inv_new [OF up] show ?thesis by (fastforce intro: box_inv_put_up)
  next
    case (UplinkRead c n)
    with st b up.inv_read [OF up] show ?thesis by (fastforce intro: box_inv_put_up)
  next
    case (DumpRead c t)
    with st net show ?thesis
      by (auto simp: box_inv_def snet_inv_def tap_ReadPacket_def box_base_def split_beta anet_inv_def tnet_inv_def)
  qed (use st b net up stack.inv_write stack.inv_close up.inv_write up.inv_close in
      \<open>auto simp: on_net_def box_inv_def [of "_\<lparr>box_net := _\<rparr>"] intro: box_inv_put_up\<close>)
qed

lemma box_inv_run: "box_inv b \<Longrightarrow> box_run d a ops b = Some b' \<Longrightarrow> box_inv b'"
  by (induction ops arbitrary: b) (auto simp: bind_eq_Some_conv intro: box_inv_step)

lemma box_inv_init: "box_inv (makeNetwork dump)"
  using switch_inv_New
  by (auto simp: box_inv_def makeNetwork_def Let_def snet_inv_def snet_init_def anet_inv_def anet_init_def
      tnet_inv_def tnet_init_def NewTap_def)


section \<open>End-to-end delivery\<close>

lemma base_write:
  assumes "a \<or> \<not> shouldFilter (Header p)"
  shows "t_inner (fst (WritePacket (make_base d a) e n p s)) = fst (node_WritePacket e n p (t_inner s))"
  using assms
  by (auto simp: make_base_def Let_def filter_WritePacket_def tappable_WritePacket_def writeToTaps_def
      switch_network_def split_beta)

lemma base_read:
  assumes "a \<or> \<not> shouldFilter (Header p)"
    and "ch (rxpipe (t_inner s) n) = [p]" "\<not> closed (rxpipe (t_inner s) n)"
  shows "\<exists>s'. ReadPacket (make_base d a) Background n s = Some (s', RPacket p)"
  using assms
  by (auto simp: make_base_def Let_def filter_ReadPacket_def read_until.simps tappable_ReadPacket_def
      switch_network_def node_ReadPacket_def pipe_defs Background_def)

text \<open>The switch node of a client, and the client's receive queue in the switch.\<close>

definition switch_node :: "int \<Rightarrow> switch tnet anet snet \<Rightarrow> int" where
  "switch_node h s = an_inner (a_nodes (s_inner s) (sn_inner (s_nodes s h)))"

definition switch_of :: "switch tnet anet snet \<Rightarrow> switch" where
  "switch_of s = t_inner (a_inner (s_inner s))"

lemma make_net_NodeAddress:
  "NodeAddress (make_net d a) h s = an_addr (a_nodes (s_inner s) (sn_inner (s_nodes s h)))"
  by (simp add: make_net_def NodeAddress_def stats_GetProperty_def addressable_GetProperty_def)

lemma make_net_write:
  assumes "a \<or> \<not> shouldFilter (Header p)"
    and "Network (Src (Header p)) = ZeroNetwork" "Addr (Src (Header p)) = NodeAddress (make_net d a) h s"
    and "WritePacket (make_net d a) e h p s = (s', err)"
  shows "switch_of s' = fst (node_WritePacket e (switch_node h s) p (switch_of s))
    \<and> switch_node k s' = switch_node k s
    \<and> NodeAddress (make_net d a) k s' = NodeAddress (make_net d a) k s"
  using assms base_write [OF assms(1), where d = d]
  unfolding make_net_NodeAddress
  by (auto simp: make_net_def stats_WritePacket_def addressable_WritePacket_def Let_def split_beta
      switch_of_def switch_node_def split: option.splits)

lemma make_net_read:
  assumes "a \<or> \<not> shouldFilter (Header p)"
    and "destined_for (NodeAddress (make_net d a) h s) p"
    and "ch (rxpipe (switch_of s) (switch_node h s)) = [p]" "\<not> closed (rxpipe (switch_of s) (switch_node h s))"
  shows "\<exists>s'. ReadPacket (make_net d a) Background h s = Some (s', RPacket p)"
proof -
  let ?m = "sn_inner (s_nodes s h)"
  from base_read [OF assms(1), of "a_inner (s_inner s)" "switch_node h s"] assms(3,4)
  obtain t where "ReadPacket (make_base d a) Background (an_inner (a_nodes (s_inner s) ?m)) (a_inner (s_inner s))
      = Some (t, RPacket p)"
    unfolding switch_of_def switch_node_def by blast
  with assms(2) have "ReadPacket (addressable_Wrap (make_base d a)) Background ?m (s_inner s)
      = Some ((s_inner s)\<lparr>a_inner := t\<rparr>, RPacket p)"
    by (simp add: addressable_ReadPacket_def read_until.simps make_net_NodeAddress)
  then show ?thesis
    by (simp add: make_net_def stats_ReadPacket_def)
qed

lemma switch_delivers:
  assumes "switch_inv s" "n \<in> set (nodesByID s)" "n \<noteq> m" "ch (rxpipe s n) = []"
    and "LookupDest (Dest (Header p)) (Record (env_clock e) m (Src (Header p)) (table s)) \<in> {broadcastDest, n}"
  shows "let s' = fst (node_WritePacket e m p s) in ch (rxpipe s' n) = [p] \<and> \<not> closed (rxpipe s' n)"
  using assms
  by (auto simp: node_WritePacket_def forwardPacket_rxpipe recipients_def switch_inv_def Let_def
      pipe_WritePacket_def maxBufferedPackets_def)

text \<open>
  C1. End-to-end delivery. Two clients \<open>h\<close> and \<open>k\<close> of the assembled network are attached to different
  switch nodes and nothing is waiting for \<open>k\<close>. When \<open>h\<close> writes a packet from its own address to the
  address of \<open>k\<close>, or to everybody, that is not filtered, and the switch has not learnt the destination
  at some third node, then the next read of \<open>k\<close> returns exactly this packet, in every configuration.
\<close>

theorem network_delivers:
  assumes "box_run d a ops (makeNetwork d) = Some b"
    and "switch_node k (box_net b) \<in> set (nodesByID (switch_of (box_net b)))"
    and "switch_node k (box_net b) \<noteq> switch_node h (box_net b)"
    and "ch (rxpipe (switch_of (box_net b)) (switch_node k (box_net b))) = []"
    and "a \<or> \<not> shouldFilter (Header p)"
    and "Network (Src (Header p)) = ZeroNetwork" "Addr (Src (Header p)) = NodeAddress (make_net d a) h (box_net b)"
    and "Network (Dest (Header p)) = ZeroNetwork"
    and "Addr (Dest (Header p)) \<in> {NodeAddress (make_net d a) k (box_net b), AddrBroadcast}"
    and "LookupDest (Dest (Header p)) (Record (env_clock e) (switch_node h (box_net b)) (Src (Header p))
           (table (switch_of (box_net b)))) \<in> {broadcastDest, switch_node k (box_net b)}"
    and w: "WritePacket (make_net d a) e h p (box_net b) = (s', err)"
  shows "\<exists>s''. ReadPacket (make_net d a) Background k s' = Some (s'', RPacket p)"
proof (rule make_net_read)
  from make_net_write [OF assms(5,6,7) w] have s':
    "switch_of s' = fst (node_WritePacket e (switch_node h (box_net b)) p (switch_of (box_net b)))"
    "switch_node k s' = switch_node k (box_net b)"
    "NodeAddress (make_net d a) k s' = NodeAddress (make_net d a) k (box_net b)" by blast+
  have "switch_inv (switch_of (box_net b))"
    using box_inv_run [OF box_inv_init assms(1)]
    by (simp add: box_inv_def snet_inv_def anet_inv_def tnet_inv_def switch_of_def)
  from switch_delivers [OF this assms(2,3,4,10)]
  show "ch (rxpipe (switch_of s') (switch_node k s')) = [p]" "\<not> closed (rxpipe (switch_of s') (switch_node k s'))"
    by (simp_all add: s' Let_def)
  show "destined_for (NodeAddress (make_net d a) k s') p"
    using assms(8,9) by (auto simp: destined_for_def s' Let_def)
qed (rule assms(5))

section \<open>A concrete network\<close>

lemmas stack_eval = box_step.simps on_net_def make_net_def make_base_def Let_def
  stats_NewNode_def addressable_NewNode_def tappable_NewNode_def
  switch_network_def switch_NewNode_def generate.simps candidate_def demo_env_def
  makeNetwork_def snet_init_def anet_init_def tnet_init_def switch_New_def

definition demo_box :: box where
  "demo_box = the (box_run False False [ClientNew demo_env, ClientNew demo_env] (makeNetwork False))"

lemma demo_box_run:
  "box_run False False [ClientNew demo_env, ClientNew demo_env] (makeNetwork False) = Some demo_box"
  by (simp add: demo_box_def stack_eval)


lemma demo_box_facts:
  "switch_node 0 (box_net demo_box) = 0" "switch_node 1 (box_net demo_box) = 1"
  "nodesByID (switch_of (box_net demo_box)) = [0, 1]"
  "ch (rxpipe (switch_of (box_net demo_box)) n) = []"
  "NodeAddress (make_net False False) 0 (box_net demo_box) = MkAddr 2 0 0 0 0 0"
  "NodeAddress (make_net False False) 1 (box_net demo_box) = MkAddr 2 0 0 0 0 1"
  "addrs (table (switch_of (box_net demo_box))) = Map.empty"
  unfolding make_net_NodeAddress
  by (simp_all add: demo_box_def switch_node_def switch_of_def stack_eval
      pipe_New_def AddPort_def makeRoutingTable_def)

theorem network_delivers_witness:
  "\<exists>s''. ReadPacket (make_net False False) Background 1
     (fst (WritePacket (make_net False False) demo_env 0 (demo_packet 0 1) (box_net demo_box)))
       = Some (s'', RPacket (demo_packet 0 1))"
proof -
  obtain s' err where w: "WritePacket (make_net False False) demo_env 0 (demo_packet 0 1) (box_net demo_box) = (s', err)"
    by (rule prod.exhaust)
  have "LookupDest (demo_addr 1) (Record (env_clock demo_env) 0 (demo_addr 0)
      (table (switch_of (box_net demo_box)))) = broadcastDest"
    by (simp add: demo_box_def switch_of_def stack_eval AddPort_def makeRoutingTable_def
        LookupDest_def Record_def checkDestPort_def makeKey_def demo_addr_def AddrBroadcast_def AddrNull_def upd_port_def)
  with network_delivers [OF demo_box_run _ _ _ _ _ _ _ _ _ w, of 1] show ?thesis
    by (simp add: w demo_box_facts shouldFilter_def netbiosPorts_def)
qed

end
