(* ===== verification/IpxpktRouter.thy ===== *)
theory IpxpktRouter
  imports Fragments Stack
begin

text \<open>
  Package \<^verbatim>\<open>module/ipxpkt\<close>, part 2 (\<^verbatim>\<open>src/module/ipxpkt/router.go\<close>): the router that carries Ethernet frames
  in IPX packets. It is a client of a network node; \<open>r_node\<close> is that node. A slice expression may
  reach beyond the length of a slice up to its capacity: \<open>spare\<close> stands for those bytes.
\<close>

section \<open>State and operations\<close>

definition ipxSocket :: u16 where
  "ipxSocket = 0x6181"

definition trailBytes :: nat where
  "trailBytes = 32"

record router =
  r_node :: int
  packetCounter :: u16
  r_fr :: frameReassembler

definition NewRouter :: "int \<Rightarrow> router" where
  "NewRouter node = \<lparr>r_node = node, packetCounter = 0, r_fr = reassembler_init\<rparr>"

definition router_Close :: "'s network \<Rightarrow> router \<Rightarrow> 's \<Rightarrow> 's" where
  "router_Close net r s = fst (Close net (r_node r) s)"

text \<open>The router changes even when the result is an error: an incomplete frame is stored.\<close>

definition unwrapFrame ::
  "(frames \<Rightarrow> frames) \<Rightarrow> (nat \<Rightarrow> time) \<Rightarrow> Packet \<Rightarrow> router \<Rightarrow> (router \<times> (error + bytes)) outcome" where
  "unwrapFrame rng clock packet r =
     (if Socket (Dest (Header packet)) \<noteq> ipxSocket
      then Return (r, Inl (Errorf ''not an ipxpkt fragment'' [uint (Socket (Dest (Header packet))), uint ipxSocket]))
      else if length (Payload packet) < trailBytes + pktHeaderLength
      then Return (r, Inl (Errorf ''inner packet too short'' [int (length (Payload packet)), 36]))
      else
        let payload = drop trailBytes (Payload packet)
        in case pktHeader_UnmarshalBinary payload of
             Inl err \<Rightarrow> Return (r, Inl err)
           | Inr hdr \<Rightarrow>
               (case reassemble rng clock (Header packet) hdr (drop pktHeaderLength payload) (r_fr r) of
                  Return (fr, None) \<Rightarrow> Return (r\<lparr>r_fr := fr\<rparr>, Inl (Errorf ''incomplete frame'' []))
                | Return (fr, Some frame) \<Rightarrow> Return (r\<lparr>r_fr := fr\<rparr>, Inr frame)
                | Fail e \<Rightarrow> Fail e
                | Panic \<Rightarrow> Panic))"

datatype frame_read = FFrame bytes | FError error | FBlock | FPanic

text \<open>The read loop; iteration \<open>i\<close> reads the clock \<open>clock i\<close> and ranges over maps in the order \<open>rngs i\<close>.\<close>

partial_function (option) ReadPacketData ::
  "'s network \<Rightarrow> (nat \<Rightarrow> frames \<Rightarrow> frames) \<Rightarrow> (nat \<Rightarrow> nat \<Rightarrow> time) \<Rightarrow> nat \<Rightarrow> router \<Rightarrow> 's
     \<Rightarrow> (router \<times> 's \<times> frame_read) option" where
  "ReadPacketData net rngs clock i r s =
     Option.bind (ReadPacket net Background (r_node r) s) (\<lambda>(s', rd).
       case rd of
         RError err \<Rightarrow> Some (r, s', FError err)
       | RBlock \<Rightarrow> Some (r, s', FBlock)
       | RPacket packet \<Rightarrow>
           (case unwrapFrame (rngs i) (clock i) packet r of
              Return (r', Inr frame) \<Rightarrow> Some (r', s', FFrame frame)
            | Return (r', Inl err) \<Rightarrow> ReadPacketData net rngs clock (Suc i) r' s'
            | Fail err \<Rightarrow> Some (r, s', FError err)
            | Panic \<Rightarrow> Some (r, s', FPanic)))"

fun write_fragments ::
  "'s network \<Rightarrow> (nat \<Rightarrow> env) \<Rightarrow> int \<Rightarrow> Header \<Rightarrow> pktHeader \<Rightarrow> nat \<Rightarrow> bytes list \<Rightarrow> 's \<Rightarrow> 's" where
  "write_fragments net es n hdr1 hdr2 fragIndex [] s = s"
| "write_fragments net es n hdr1 hdr2 fragIndex (frag # frags) s =
     (let hdr1 = hdr1\<lparr>Length := of_nat (HeaderLength + pktHeaderLength + trailBytes + length frag)\<rparr>;
          hdr2 = hdr2\<lparr>Fragment := of_nat (fragIndex + 1)\<rparr>;
          data = replicate trailBytes 0 @ pktHeader_MarshalBinary hdr2 @ frag;
          (s', err) = WritePacket net (es fragIndex) n \<lparr>Header = hdr1, Payload = data\<rparr> s
      in case err of
           Some e \<Rightarrow> s'
         | None \<Rightarrow> write_fragments net es n hdr1 hdr2 (fragIndex + 1) frags s')"

definition WritePacketData ::
  "'s network \<Rightarrow> (nat \<Rightarrow> env) \<Rightarrow> bytes \<Rightarrow> bytes \<Rightarrow> router \<Rightarrow> 's \<Rightarrow> (router \<times> 's \<times> error option) outcome" where
  "WritePacketData net es spare frame r s =
     (if length (frame @ spare) < 6 then Panic
      else
        let b = frame @ spare;
            dest = MkAddr (b ! 0) (b ! 1) (b ! 2) (b ! 3) (b ! 4) (b ! 5);
            hdr1 = zeroHeader\<lparr>
              Src := \<lparr>Network = ZeroNetwork, Addr = NodeAddress net (r_node r) s, Socket = ipxSocket\<rparr>,
              Dest := \<lparr>Network = ZeroNetwork, Addr = dest, Socket = ipxSocket\<rparr>, Checksum := 0xffff\<rparr>;
            r = r\<lparr>packetCounter := packetCounter r + 1\<rparr>;
            fragments = fragmentFrame frame;
            hdr2 = \<lparr>Fragment = 0, NumFragments = of_nat (length fragments), PacketID = packetCounter r\<rparr>
        in Return (r, write_fragments net es (r_node r) hdr1 hdr2 0 fragments s, None))"

section \<open>What is written\<close>

text \<open>The packet that carries fragment \<open>i\<close> of \<open>frs\<close>, and writing packets until one is refused.\<close>

definition frag_packet :: "Header \<Rightarrow> u16 \<Rightarrow> bytes list \<Rightarrow> nat \<Rightarrow> Packet" where
  "frag_packet hdr1 pid frs i =
     \<lparr>Header = hdr1\<lparr>Length := of_nat (66 + length (frs ! i))\<rparr>,
      Payload = replicate 32 0 @ pktHeader_MarshalBinary (frag_hdr pid (length frs) i) @ frs ! i\<rparr>"

fun write_packets :: "'s network \<Rightarrow> (nat \<Rightarrow> env) \<Rightarrow> int \<Rightarrow> nat \<Rightarrow> Packet list \<Rightarrow> 's \<Rightarrow> 's" where
  "write_packets net es n i [] s = s"
| "write_packets net es n i (p # ps) s =
     (let (s', err) = WritePacket net (es i) n p s
      in if err = None then write_packets net es n (i + 1) ps s' else s')"

lemma write_fragments_packets:
  assumes "PacketID hdr2 = pid" "NumFragments hdr2 = of_nat (length frs)" "k \<le> length frs"
  shows "write_fragments net es n hdr1 hdr2 k (drop k frs) s
    = write_packets net es n k (map (frag_packet hdr1 pid frs) [k..<length frs]) s"
  using assms
proof (induction "length frs - k" arbitrary: k s hdr1 hdr2)
  case (Suc m)
  then have k: "k < length frs" by simp
  have hd: "drop k frs = frs ! k # drop (Suc k) frs" using k by (simp add: Cons_nth_drop_Suc)
  have h2: "hdr2\<lparr>Fragment := of_nat (k + 1)\<rparr> = frag_hdr pid (length frs) k"
    using Suc.prems by (simp add: frag_hdr_def)
  have *: "frag_packet (hdr1\<lparr>Length := l\<rparr>) pid frs = frag_packet hdr1 pid frs" for l
    by (simp add: frag_packet_def fun_eq_iff)
  have IH: "write_fragments net es n (hdr1\<lparr>Length := l\<rparr>) (frag_hdr pid (length frs) k) (k + 1) (drop (Suc k) frs) s'
    = write_packets net es n (k + 1) (map (frag_packet hdr1 pid frs) [Suc k..<length frs]) s'" for l s'
    using Suc.hyps(1) [of "Suc k" "frag_hdr pid (length frs) k" "hdr1\<lparr>Length := l\<rparr>" s'] Suc.hyps(2) k
    by (simp add: frag_hdr_def *)
  have p: "\<lparr>Header = hdr1\<lparr>Length := of_nat (HeaderLength + pktHeaderLength + trailBytes + length (frs ! k))\<rparr>,
      Payload = replicate trailBytes 0 @ pktHeader_MarshalBinary (frag_hdr pid (length frs) k) @ frs ! k\<rparr>
      = frag_packet hdr1 pid frs k"
    by (simp add: frag_packet_def HeaderLength_def pktHeaderLength_def trailBytes_def)
  show ?case
    unfolding hd upt_conv_Cons [OF k] list.map write_fragments.simps write_packets.simps Let_def h2 p IH
    by (auto simp: split_beta split: option.splits)
qed simp

section \<open>What is unwrapped\<close>

fun unwrap_all :: "((frames \<Rightarrow> frames) \<times> (nat \<Rightarrow> time) \<times> Packet) list \<Rightarrow> router \<Rightarrow> (router \<times> bytes list) outcome" where
  "unwrap_all [] r = Return (r, [])"
| "unwrap_all ((rng, clock, p) # ps) r =
     (case unwrapFrame rng clock p r of
        Return (r1, x) \<Rightarrow>
          (case unwrap_all ps r1 of
             Return (r2, out) \<Rightarrow> Return (r2, (case x of Inl _ \<Rightarrow> out | Inr frame \<Rightarrow> frame # out))
           | Fail e \<Rightarrow> Fail e | Panic \<Rightarrow> Panic)
      | Fail e \<Rightarrow> Fail e | Panic \<Rightarrow> Panic)"

definition packet_arrival :: "(frames \<Rightarrow> frames) \<Rightarrow> (nat \<Rightarrow> time) \<Rightarrow> Header \<Rightarrow> pktHeader \<Rightarrow> bytes \<Rightarrow> arrival" where
  "packet_arrival rng clock h hdr payload =
     \<lparr>ar_rng = rng, ar_clock = clock, ar_ipx = h, ar_hdr = hdr, ar_payload = payload\<rparr>"

lemma unwrapFrame_fragment:
  assumes "Socket (Dest h) = ipxSocket" "hdr_ok hdr"
  shows "unwrapFrame rng clock \<lparr>Header = h, Payload = replicate 32 0 @ pktHeader_MarshalBinary hdr @ f\<rparr> r =
    (case feed_one (packet_arrival rng clock h hdr f) (r_fr r) of
       Return (fr, None) \<Rightarrow> Return (r\<lparr>r_fr := fr\<rparr>, Inl (Errorf ''incomplete frame'' []))
     | Return (fr, Some frame) \<Rightarrow> Return (r\<lparr>r_fr := fr\<rparr>, Inr frame)
     | Fail e \<Rightarrow> Fail e | Panic \<Rightarrow> Panic)"
proof -
  have "length (pktHeader_MarshalBinary hdr) = 4" by (simp add: pktHeader_MarshalBinary_def)
  with pktHeader_roundtrip [OF assms(2), of f] assms(1) show ?thesis
    by (simp add: unwrapFrame_def trailBytes_def pktHeaderLength_def feed_one_def packet_arrival_def Let_def)
qed

lemma unwrap_all_feed:
  assumes "\<And>i. i \<in> set is \<Longrightarrow> Socket (Dest (h i)) = ipxSocket \<and> hdr_ok (hdr i)"
    and "feed (map (\<lambda>i. packet_arrival (rng i) (clock i) (h i) (hdr i) (f i)) is) (r_fr r) = Return (fr', out)"
  shows "unwrap_all (map (\<lambda>i. (rng i, clock i,
      \<lparr>Header = h i, Payload = replicate 32 0 @ pktHeader_MarshalBinary (hdr i) @ f i\<rparr>)) is) r
    = Return (r\<lparr>r_fr := fr'\<rparr>, map snd out)"
  using assms
proof (induction "is" arbitrary: r out)
  case (Cons i "is")
  let ?a = "\<lambda>i. packet_arrival (rng i) (clock i) (h i) (hdr i) (f i)"
  from Cons.prems(2) obtain fr1 x out1 where one: "feed_one (?a i) (r_fr r) = Return (fr1, x)"
    and rest: "feed (map ?a is) fr1 = Return (fr', out1)"
    and out: "out = (case x of None \<Rightarrow> out1 | Some f \<Rightarrow> (arrival_key (?a i), f) # out1)"
    by (auto split: outcome.splits)
  from Cons.IH [of "r\<lparr>r_fr := fr1\<rparr>" out1] Cons.prems(1) rest
  have "unwrap_all (map (\<lambda>i. (rng i, clock i,
      \<lparr>Header = h i, Payload = replicate 32 0 @ pktHeader_MarshalBinary (hdr i) @ f i\<rparr>)) is) (r\<lparr>r_fr := fr1\<rparr>)
    = Return (r\<lparr>r_fr := fr'\<rparr>, map snd out1)" by simp
  with one out Cons.prems(1) [of i] show ?case
    by (auto simp: unwrapFrame_fragment split: option.splits)
qed simp

section \<open>End to end\<close>

lemma unwrap_fragments:
  assumes frame: "0 < length frame" "length frame \<le> 255 * 510"
    and sock: "Socket (Dest hdr1) = ipxSocket"
    and rng: "list_all (\<lambda>(rng, clock, p). \<forall>fs. mset (rng fs) = mset fs) qs"
    and qs: "mset (map (snd \<circ> snd) qs) =
      mset (map (frag_packet hdr1 pid (fragmentFrame frame)) [0..<length (fragmentFrame frame)])"
  shows "\<exists>r'. unwrap_all qs (NewRouter n) = Return (r', [frame])"
proof -
  let ?frs = "fragmentFrame frame"
  from qs obtain js where js: "map (snd \<circ> snd) qs = map (frag_packet hdr1 pid ?frs) js"
    "mset js = mset [0..<length ?frs]" by (rule mset_eq_mapE)
  have len: "length js = length qs" using arg_cong [OF js(1), of length] by simp
  let ?h = "\<lambda>i. hdr1\<lparr>Length := of_nat (66 + length (?frs ! (js ! i)))\<rparr>"
  let ?hdr = "\<lambda>i. frag_hdr pid (length ?frs) (js ! i)"
  let ?a = "\<lambda>i. packet_arrival (fst (qs ! i)) (fst (snd (qs ! i))) (?h i) (?hdr i) (?frs ! (js ! i))"
  let ?as = "map ?a [0..<length qs]"
  let ?k = "\<lparr>fk_src = Src hdr1, fk_packetID = pid\<rparr>"
  have key: "arrival_key (?a i) = ?k" for i by (simp add: arrival_key_def packet_arrival_def frag_hdr_def)
  have n: "js ! i < length ?frs" if "i < length qs" for i
    using that js(2) len by (metis atLeastLessThan_iff mset_eq_setD nth_mem set_upt)
  have ok: "hdr_ok (?hdr i)" if "i < length qs" for i
    using frag_hdr_ok(1) [OF n [OF that]] fragmentFrame_count [OF frame] by blast
  have "list_all arrival_ok ?as"
    using rng ok by (auto simp: list_all_length arrival_ok_def packet_arrival_def split_beta)
  moreover have "arrival_key ` set ?as \<subseteq> {?k}" using key by auto
  then have "card (arrival_key ` set ?as) \<le> 16" using card_mono [of "{?k}" "arrival_key ` set ?as"] by simp
  ultimately obtain fr' out where feed: "feed ?as reassembler_init = Return (fr', out)"
    and run: "\<forall>k. slot_run (filter (\<lambda>a. arrival_key a = k) ?as) None
           = (slot_of k fr', map snd (filter (\<lambda>(k', f). k' = k) out))" using feed_init by blast
  have all: "filter (\<lambda>a. arrival_key a = ?k) ?as = ?as" by (rule filter_True) (use key in fastforce)
  have out: "filter (\<lambda>(k', f). k' = ?k) out = out"
    by (rule filter_True) (use feed_out_keys [OF feed] key in auto)
  have "map (\<lambda>a. (ar_hdr a, ar_payload a)) ?as = map (\<lambda>i. (frag_hdr pid (length ?frs) i, ?frs ! i)) js"
    by (rule nth_equalityI) (simp_all add: len packet_arrival_def)
  from slot_run_frame [OF frame this js(2)] run [THEN spec, of ?k] all out
  have "map snd out = [frame]" by simp
  moreover have "qs = map (\<lambda>i. (fst (qs ! i), fst (snd (qs ! i)),
      \<lparr>Header = ?h i, Payload = replicate 32 0 @ pktHeader_MarshalBinary (?hdr i) @ ?frs ! (js ! i)\<rparr>)) [0..<length qs]"
  proof (rule nth_equalityI)
    fix i assume i: "i < length qs"
    from arg_cong [OF js(1), of "\<lambda>xs. xs ! i"] i len have "snd (snd (qs ! i)) = frag_packet hdr1 pid ?frs (js ! i)" by simp
    with i show "qs ! i = map (\<lambda>i. (fst (qs ! i), fst (snd (qs ! i)),
      \<lparr>Header = ?h i, Payload = replicate 32 0 @ pktHeader_MarshalBinary (?hdr i) @ ?frs ! (js ! i)\<rparr>)) [0..<length qs] ! i"
      by (simp add: frag_packet_def prod_eq_iff)
  qed simp
  ultimately show ?thesis
    using unwrap_all_feed [of "[0..<length qs]" ?h ?hdr "\<lambda>i. fst (qs ! i)" "\<lambda>i. fst (snd (qs ! i))"
        "\<lambda>i. ?frs ! (js ! i)" "NewRouter n" fr' out] feed ok sock
    by (auto simp: NewRouter_def)
qed

text \<open>
  C24. Ethernet frames cross the IPX network intact. For a frame of at most 255 fragments,
  \<^verbatim>\<open>WritePacketData\<close> does not panic and writes a list \<open>ps\<close> of packets to the node, up to the first one that the
  network refuses; any new router that unwraps exactly these packets, in any order, yields exactly the
  original frame, once.
\<close>

theorem ipxpkt_roundtrip:
  assumes "6 \<le> length frame" "length frame \<le> 255 * 510"
  shows "\<exists>ps. WritePacketData net es spare frame r s =
      Return (r\<lparr>packetCounter := packetCounter r + 1\<rparr>, write_packets net es (r_node r) 0 ps s, None)
    \<and> (\<forall>qs n. list_all (\<lambda>(rng, clock, p). \<forall>fs. mset (rng fs) = mset fs) qs
         \<and> mset (map (snd \<circ> snd) qs) = mset ps
         \<longrightarrow> (\<exists>r'. unwrap_all qs (NewRouter n) = Return (r', [frame])))"
proof -
  let ?dest = "MkAddr (frame ! 0) (frame ! 1) (frame ! 2) (frame ! 3) (frame ! 4) (frame ! 5)"
  let ?h = "zeroHeader\<lparr>
      Src := \<lparr>Network = ZeroNetwork, Addr = NodeAddress net (r_node r) s, Socket = ipxSocket\<rparr>,
      Dest := \<lparr>Network = ZeroNetwork, Addr = ?dest, Socket = ipxSocket\<rparr>, Checksum := 0xffff\<rparr>"
  let ?pid = "packetCounter r + 1"
  let ?ps = "map (frag_packet ?h ?pid (fragmentFrame frame)) [0..<length (fragmentFrame frame)]"
  have ne: "frame \<noteq> []" using assms(1) by auto
  have "WritePacketData net es spare frame r s =
      Return (r\<lparr>packetCounter := packetCounter r + 1\<rparr>, write_packets net es (r_node r) 0 ?ps s, None)"
    using assms(1) ne write_fragments_packets [of _ ?pid "fragmentFrame frame" 0 net es "r_node r" ?h, simplified]
    by (simp add: WritePacketData_def Let_def nth_append)
  moreover have "\<exists>r'. unwrap_all qs (NewRouter n) = Return (r', [frame])"
    if "list_all (\<lambda>(rng, clock, p). \<forall>fs. mset (rng fs) = mset fs) qs" "mset (map (snd \<circ> snd) qs) = mset ?ps" for qs n
    by (rule unwrap_fragments [OF _ assms(2) _ that]) (use assms(1) in auto)
  ultimately show ?thesis by blast
qed

section \<open>The read loop ends\<close>

lemma unwrapFrame_inv:
  assumes "fr_inv (r_fr r)" "\<And>fs. mset (rng fs) = mset fs"
  shows "\<exists>r' x. unwrapFrame rng clock p r = Return (r', x) \<and> fr_inv (r_fr r') \<and> r_node r' = r_node r"
proof (cases "pktHeader_UnmarshalBinary (drop trailBytes (Payload p))")
  case (Inr hdr)
  from feed_one_spec [of "r_fr r" "packet_arrival rng clock (Header p) hdr (drop pktHeaderLength (drop trailBytes (Payload p)))"]
    assms pktHeader_UnmarshalBinary_ok [OF Inr]
  obtain fr' x where "reassemble rng clock (Header p) hdr (drop pktHeaderLength (drop trailBytes (Payload p))) (r_fr r)
      = Return (fr', x)" "fr_inv fr'"
    by (auto simp: feed_one_def packet_arrival_def)
  with Inr assms show ?thesis
    by (auto simp: unwrapFrame_def Let_def split: option.splits)
qed (use assms in \<open>auto simp: unwrapFrame_def Let_def\<close>)

context network_contract
begin

lemma ReadPacketData_returns:
  assumes "inv s" "fr_inv (r_fr r)" and rng: "\<And>i fs. mset (rngs i fs) = mset fs"
  shows "\<exists>r' s' x. ReadPacketData net rngs clock i r s = Some (r', s', x) \<and> x \<noteq> FPanic \<and> fr_inv (r_fr r') \<and> inv s'"
  using assms(1,2)
proof (induction "length (queued (r_node r) s)" arbitrary: i r s rule: less_induct)
  case less
  from read_returns [OF less.prems(1)] obtain s1 rd where rd: "ReadPacket net Background (r_node r) s = Some (s1, rd)"
    by fastforce
  have s1: "inv s1" using inv_read [OF less.prems(1) rd] .
  show ?case
  proof (cases rd)
    case (RPacket p)
    from unwrapFrame_inv [where rng = "rngs i", OF less.prems(2) rng] obtain r1 x where u: "unwrapFrame (rngs i) (clock i) p r = Return (r1, x)"
      and r1: "fr_inv (r_fr r1)" "r_node r1 = r_node r" by blast
    show ?thesis
    proof (cases x)
      case (Inl e)
      have "length (queued (r_node r1) s1) < length (queued (r_node r) s)"
        using read_decreases [OF less.prems(1) rd [unfolded RPacket]] r1(2) by simp
      from less.hyps [OF this s1 r1(1), of "Suc i"] show ?thesis
        by (subst ReadPacketData.simps) (simp add: rd RPacket u Inl)
    next
      case (Inr f)
      with s1 r1 show ?thesis by (subst ReadPacketData.simps) (simp add: rd RPacket u)
    qed
  qed (use s1 less.prems in \<open>subst ReadPacketData.simps, simp add: rd\<close>)+
qed

end

text \<open>
  The router cannot be hung or crashed by what arrives. In every reachable state of the assembled
  network, reading a frame returns (a frame, an error, or waiting for a packet) after finitely many
  packets, without a panic, and the reassembly memory stays within sixteen frames.
\<close>

lemma ipxpkt_read_returns:
  assumes "box_run d a ops (makeNetwork d) = Some b"
    and "fr_inv (r_fr r)" and "\<And>i fs. mset (rngs i fs) = mset fs"
  shows "\<exists>r' s' x. ReadPacketData (make_net d a) rngs clock 0 r (box_net b) = Some (r', s', x)
    \<and> x \<noteq> FPanic \<and> length (frames (r_fr r')) \<le> 16"
  using stack.ReadPacketData_returns [where rngs = rngs and s = "box_net b" and d = d and a = a, OF _ assms(2,3)]
    box_inv_run [OF box_inv_init assms(1)]
  by (fastforce simp: box_inv_def fr_inv_def maxFrames_def)

section \<open>Witnesses\<close>

theorem ipxpkt_roundtrip_witness:
  "\<exists>ps. WritePacketData (make_net False False) (\<lambda>_. demo_env) [] demo_frame (NewRouter 0) (box_net demo_box) =
      Return ((NewRouter 0)\<lparr>packetCounter := 1\<rparr>,
        write_packets (make_net False False) (\<lambda>_. demo_env) 0 0 ps (box_net demo_box), None)
    \<and> (\<exists>r'. unwrap_all (map (\<lambda>p. (id, (\<lambda>_. 0), p)) (rev ps)) (NewRouter 1) = Return (r', [demo_frame]))"
proof -
  have l: "6 \<le> length demo_frame" "length demo_frame \<le> 255 * 510" by (simp_all add: demo_frame_def)
  obtain ps where ps: "WritePacketData (make_net False False) (\<lambda>_. demo_env) [] demo_frame (NewRouter 0) (box_net demo_box) =
      Return ((NewRouter 0)\<lparr>packetCounter := packetCounter (NewRouter 0) + 1\<rparr>,
        write_packets (make_net False False) (\<lambda>_. demo_env) (r_node (NewRouter 0)) 0 ps (box_net demo_box), None)"
    "\<forall>qs n. list_all (\<lambda>(rng, clock, p). \<forall>fs. mset (rng fs) = mset fs) qs
         \<and> mset (map (snd \<circ> snd) qs) = mset ps
         \<longrightarrow> (\<exists>r'. unwrap_all qs (NewRouter n) = Return (r', [demo_frame]))"
    using ipxpkt_roundtrip [OF l, of "make_net False False" "\<lambda>_. demo_env" "[]" "NewRouter 0" "box_net demo_box"] by blast
  have "\<exists>r'. unwrap_all (map (\<lambda>p. (id, (\<lambda>_. 0), p)) (rev ps)) (NewRouter 1) = Return (r', [demo_frame])"
    using ps(2) [THEN spec, THEN spec, of "map (\<lambda>p. (id, (\<lambda>_. 0), p)) (rev ps)" 1] by (simp add: list_all_iff o_def)
  with ps(1) show ?thesis by (auto simp: NewRouter_def)
qed

end
