(* ===== verification/Doom.thy ===== *)
theory Doom
  imports Prelude
begin

text \<open>
  Package \<^verbatim>\<open>network/doom\<close>: the wire format of Doom's network games (\<^verbatim>\<open>src/network/doom/protocol.go\<close>) and
  the window of game tics that fills in tics lost on the way (\<^verbatim>\<open>src/network/doom/stream.go\<close>).
  \<^verbatim>\<open>Commands\<close> and \<^verbatim>\<open>Extra\<close> are never nil in a decoded packet and are plain byte lists; an empty slot of the
  window is \<open>None\<close>.
\<close>

section \<open>Packets\<close>

definition NcmdSetup :: u32 where
  "NcmdSetup = 0x20000000"

definition NcmdChecksum :: u32 where
  "NcmdChecksum = 0x0fffffff"

record GamePacket =
  GP_Checksum :: u32
  RetransmitFrom :: byte
  StartTic :: byte
  Player :: byte
  NumTics :: byte
  Commands :: bytes

definition ExpandTicNum :: "byte \<Rightarrow> u32 \<Rightarrow> u32" where
  "ExpandTicNum low base =
     (let result = (base AND NOT 0xff) OR ucast low
      in if result > base \<and> result - base > 64 then result - 256
         else if result < base \<and> base - result > 64 then result + 256
         else result)"

fun checksum_loop :: "nat \<Rightarrow> bytes \<Rightarrow> u32 \<Rightarrow> u32" where
  "checksum_loop i (b0 # b1 # b2 # b3 # data) result =
     checksum_loop (i + 1) data (result + le_u32 b0 b1 b2 b3 * of_nat (i + 1))"
| "checksum_loop i data result = result"

definition GamePacketChecksum :: "bytes \<Rightarrow> u32" where
  "GamePacketChecksum data = checksum_loop 0 data 0x1234567 AND NcmdChecksum"

definition GamePacket_MarshalBinary :: "GamePacket \<Rightarrow> bytes" where
  "GamePacket_MarshalBinary p =
     put_le32 (GP_Checksum p) @ [RetransmitFrom p, StartTic p, Player p, NumTics p] @ Commands p"

definition UpdateChecksum :: "GamePacket \<Rightarrow> GamePacket" where
  "UpdateChecksum p =
     (let marshaled = GamePacket_MarshalBinary p;
          checksum = GamePacketChecksum (drop 4 marshaled)
      in p\<lparr>GP_Checksum := (GP_Checksum p AND NOT NcmdChecksum) OR checksum\<rparr>)"

definition ErrShortPacket :: error where
  "ErrShortPacket = Errorf ''packet too short'' []"

definition GamePacket_UnmarshalBinary :: "bytes \<Rightarrow> error + GamePacket" where
  "GamePacket_UnmarshalBinary data =
     (if length data < 8 then Inl ErrShortPacket
      else Inr \<lparr>GP_Checksum = le_u32 (data ! 0) (data ! 1) (data ! 2) (data ! 3),
                RetransmitFrom = data ! 4, StartTic = data ! 5, Player = data ! 6, NumTics = data ! 7,
                Commands = drop 8 data\<rparr>)"

record SetupPacket =
  GameID :: u16
  Drone :: u16
  NodesFound :: u16
  NodesWanted :: u16
  Extra :: bytes

definition SetupPacket_MarshalBinary :: "SetupPacket \<Rightarrow> bytes" where
  "SetupPacket_MarshalBinary p =
     put_le16 (GameID p) @ put_le16 (Drone p) @ put_le16 (NodesFound p) @ put_le16 (NodesWanted p) @ Extra p"

definition SetupPacket_UnmarshalBinary :: "bytes \<Rightarrow> error + SetupPacket" where
  "SetupPacket_UnmarshalBinary data =
     (if length data < 8 then Inl ErrShortPacket
      else Inr \<lparr>GameID = le_u16 (data ! 0) (data ! 1), Drone = le_u16 (data ! 2) (data ! 3),
                NodesFound = le_u16 (data ! 4) (data ! 5), NodesWanted = le_u16 (data ! 6) (data ! 7),
                Extra = drop 8 data\<rparr>)"

datatype doom_payload = PSetup SetupPacket | PGame GamePacket

record IPXPacket =
  Sequence :: u32
  Tail :: u32
  DoomPayload :: doom_payload

definition doom_payload_MarshalBinary :: "doom_payload \<Rightarrow> bytes" where
  "doom_payload_MarshalBinary p =
     (case p of PSetup s \<Rightarrow> SetupPacket_MarshalBinary s | PGame g \<Rightarrow> GamePacket_MarshalBinary g)"

definition IPXPacket_MarshalBinary :: "IPXPacket \<Rightarrow> bytes" where
  "IPXPacket_MarshalBinary p =
     put_le32 (Sequence p) @ doom_payload_MarshalBinary (DoomPayload p) @ put_le32 (Tail p)"

definition IPXPacket_UnmarshalBinary :: "bytes \<Rightarrow> error + IPXPacket" where
  "IPXPacket_UnmarshalBinary data =
     (if length data < 8 then Inl ErrShortPacket
      else
        let n = length data;
            sequence = le_u32 (data ! 0) (data ! 1) (data ! 2) (data ! 3);
            tail = le_u32 (data ! (n - 4)) (data ! (n - 3)) (data ! (n - 2)) (data ! (n - 1));
            inner = go_slice 4 (n - 4) data
        in if sequence = 0xffffffff
           then (case SetupPacket_UnmarshalBinary inner of
                   Inl err \<Rightarrow> Inl err
                 | Inr sp \<Rightarrow> Inr \<lparr>Sequence = sequence, Tail = tail, DoomPayload = PSetup sp\<rparr>)
           else (case GamePacket_UnmarshalBinary inner of
                   Inl err \<Rightarrow> Inl err
                 | Inr gp \<Rightarrow> Inr \<lparr>Sequence = sequence, Tail = tail, DoomPayload = PGame gp\<rparr>))"

section \<open>Streams\<close>

definition windowSize :: nat where
  "windowSize = 32"

definition sendExtraTics :: nat where
  "sendExtraTics = 5"

record stream =
  window :: "bytes option list"
  windowHead :: u32
  windowTail :: u32
  ipxPacketCounter :: u32

definition new_stream :: stream where
  "new_stream = \<lparr>window = replicate windowSize None, windowHead = 0, windowTail = 0, ipxPacketCounter = 0\<rparr>"

definition handleSetupPacket :: "SetupPacket \<Rightarrow> stream \<Rightarrow> stream" where
  "handleSetupPacket sp s = s\<lparr>windowHead := 0, windowTail := 0, ipxPacketCounter := 0\<rparr>"

text \<open>One iteration of the loop that moves the window forward, and the loop, which may not end.\<close>

definition shift_step :: "stream \<Rightarrow> stream" where
  "shift_step s =
     (let w = (window s)[unat (windowHead s mod 32) := None];
          head = windowHead s + 1;
          tail = (if head - windowTail s > 32 then head - 32 else windowTail s)
      in s\<lparr>window := w, windowHead := head, windowTail := tail\<rparr>)"

partial_function (option) shift_window :: "u32 \<Rightarrow> stream \<Rightarrow> stream option" where
  "shift_window ticNum s =
     (if ticNum \<ge> windowHead s then shift_window ticNum (shift_step s) else Some s)"

definition add_tic :: "u32 \<Rightarrow> bytes \<Rightarrow> stream \<Rightarrow> stream option" where
  "add_tic ticNum cmd s =
     (if ticNum < windowTail s then Some s
      else map_option (\<lambda>s. s\<lparr>window := (window s)[unat (ticNum mod 32) := Some cmd]\<rparr>) (shift_window ticNum s))"

fun add_tics :: "u32 \<Rightarrow> bytes list \<Rightarrow> stream \<Rightarrow> stream option" where
  "add_tics ticNum [] s = Some s"
| "add_tics ticNum (cmd # cmds) s = Option.bind (add_tic ticNum cmd s) (add_tics (ticNum + 1) cmds)"

text \<open>The commands of the tics in a packet, \<^verbatim>\<open>gp.Commands[ticLen*i : ticLen*(i+1)]\<close> for each \<^verbatim>\<open>i\<close>.\<close>

definition tic_commands :: "GamePacket \<Rightarrow> bytes list" where
  "tic_commands gp =
     (let ticLen = length (Commands gp) div unat (NumTics gp)
      in map (\<lambda>i. go_slice (ticLen * i) (ticLen * (i + 1)) (Commands gp)) [0..<unat (NumTics gp)])"

text \<open>The result is \<open>None\<close> when the call never returns; \<^verbatim>\<open>len / 0\<close> panics.\<close>

definition addNewTics :: "GamePacket \<Rightarrow> stream \<Rightarrow> (stream \<times> u32) outcome option" where
  "addNewTics gp s =
     (let startTic = ExpandTicNum (StartTic gp) (windowHead s)
      in if NumTics gp = 0 then Some Panic
         else map_option (\<lambda>s'. Return (s', startTic + ucast (NumTics gp))) (add_tics startTic (tic_commands gp) s))"

function send_loop :: "stream \<Rightarrow> u32 \<Rightarrow> nat \<Rightarrow> u32 \<times> nat" where
  "send_loop s idx cnt =
     (if cnt < sendExtraTics \<and> idx > windowTail s
      then (if window s ! unat ((idx - 1) mod 32) = None then (idx, cnt)
            else send_loop s (idx - 1) (cnt + 1))
      else (idx, cnt))"
  by pat_completeness auto
termination
  by (relation "measure (\<lambda>(s, idx, cnt). sendExtraTics - cnt)") auto

declare send_loop.simps [simp del]

definition ticsToSend :: "u32 \<Rightarrow> stream \<Rightarrow> u32 \<times> nat" where
  "ticsToSend endTic s = send_loop s endTic 0"

definition handleGamePacket :: "GamePacket \<Rightarrow> stream \<Rightarrow> (stream \<times> GamePacket) outcome option" where
  "handleGamePacket gp s =
     (if GP_Checksum gp AND NcmdSetup \<noteq> 0 \<or> NumTics gp = 0 then Some (Return (s, gp))
      else map_option (\<lambda>r.
          case r of
            Panic \<Rightarrow> Panic
          | Fail e \<Rightarrow> Fail e
          | Return (s', nextTic) \<Rightarrow>
              (let (startTic, numTics) = ticsToSend nextTic s';
                   cmds = map (\<lambda>i. case window s' ! unat ((startTic + of_nat i) mod 32) of None \<Rightarrow> [] | Some c \<Rightarrow> c)
                            [0..<numTics]
               in Return (s', gp\<lparr>StartTic := ucast (startTic AND 0xff), NumTics := of_nat numTics,
                                 Commands := concat cmds\<rparr>)))
        (addNewTics gp s))"

section \<open>The wire format\<close>

lemma length_8_split:
  assumes "8 \<le> length d"
  obtains b0 b1 b2 b3 b4 b5 b6 b7 rest where "d = b0 # b1 # b2 # b3 # b4 # b5 # b6 # b7 # rest"
  using assms that by (auto simp: Suc_le_length_iff numeral_eq_Suc)

lemma GamePacket_roundtrip: "GamePacket_UnmarshalBinary (GamePacket_MarshalBinary g) = Inr g"
  by (simp add: GamePacket_UnmarshalBinary_def GamePacket_MarshalBinary_def put_le32_def)

lemma GamePacket_roundtrip': "GamePacket_UnmarshalBinary d = Inr g \<Longrightarrow> GamePacket_MarshalBinary g = d"
  by (cases "8 \<le> length d")
    (auto simp: GamePacket_UnmarshalBinary_def GamePacket_MarshalBinary_def put_le32_def elim!: length_8_split)

lemma SetupPacket_roundtrip: "SetupPacket_UnmarshalBinary (SetupPacket_MarshalBinary g) = Inr g"
  by (simp add: SetupPacket_UnmarshalBinary_def SetupPacket_MarshalBinary_def put_le16_def)

lemma SetupPacket_roundtrip': "SetupPacket_UnmarshalBinary d = Inr g \<Longrightarrow> SetupPacket_MarshalBinary g = d"
  by (cases "8 \<le> length d")
    (auto simp: SetupPacket_UnmarshalBinary_def SetupPacket_MarshalBinary_def put_le16_def elim!: length_8_split)

lemma length_4E:
  assumes "length xs = 4"
  obtains a b c d where "xs = [a, b, c, d]"
  using assms that by (auto simp: length_Suc_conv numeral_eq_Suc)

lemma frame_split:
  assumes "8 \<le> length d"
  obtains a0 a1 a2 a3 m z0 z1 z2 z3 where "d = [a0, a1, a2, a3] @ m @ [z0, z1, z2, z3]"
proof -
  have d: "d = take 4 d @ go_slice 4 (length d - 4) d @ drop (length d - 4) d"
  proof -
    have "length d - 8 + 4 = length d - 4" "length d - 4 - 4 = length d - 8" using assms by simp_all
    moreover have "drop 4 d = take (length d - 8) (drop 4 d) @ drop (length d - 8 + 4) d"
      by (metis append_take_drop_id drop_drop)
    ultimately show ?thesis
      unfolding go_slice_def by (metis append_take_drop_id)
  qed
  have "length (take 4 d) = 4" "length (drop (length d - 4) d) = 4" using assms by auto
  then obtain a0 a1 a2 a3 z0 z1 z2 z3 where "take 4 d = [a0, a1, a2, a3]" "drop (length d - 4) d = [z0, z1, z2, z3]"
    by (meson length_4E)
  with d that show thesis by metis
qed

lemma IPXPacket_UnmarshalBinary_frame:
  "IPXPacket_UnmarshalBinary ([a0, a1, a2, a3] @ m @ [z0, z1, z2, z3]) =
     (if le_u32 a0 a1 a2 a3 = 0xffffffff
      then map_sum id (\<lambda>sp. \<lparr>Sequence = le_u32 a0 a1 a2 a3, Tail = le_u32 z0 z1 z2 z3, DoomPayload = PSetup sp\<rparr>)
             (SetupPacket_UnmarshalBinary m)
      else map_sum id (\<lambda>gp. \<lparr>Sequence = le_u32 a0 a1 a2 a3, Tail = le_u32 z0 z1 z2 z3, DoomPayload = PGame gp\<rparr>)
             (GamePacket_UnmarshalBinary m))"
proof -
  have "go_slice 4 (length ([a0, a1, a2, a3] @ m @ [z0, z1, z2, z3]) - 4) ([a0, a1, a2, a3] @ m @ [z0, z1, z2, z3]) = m"
    by (simp add: go_slice_def)
  then show ?thesis
    by (simp add: IPXPacket_UnmarshalBinary_def Let_def nth_append split: sum.splits)
qed

text \<open>
  C39. Doom packets are decoded and encoded without loss: decoding the encoding of a packet whose payload
  kind agrees with its sequence number gives the packet back, and encoding a decoded packet gives the
  original bytes back.
\<close>

theorem doom_wire_format:
  "((Sequence p = 0xffffffff \<longleftrightarrow> (\<exists>sp. DoomPayload p = PSetup sp)) \<longrightarrow>
      IPXPacket_UnmarshalBinary (IPXPacket_MarshalBinary p) = Inr p)
   \<and> (IPXPacket_UnmarshalBinary d = Inr q \<longrightarrow> IPXPacket_MarshalBinary q = d)"
proof (intro conjI impI)
  assume *: "Sequence p = 0xffffffff \<longleftrightarrow> (\<exists>sp. DoomPayload p = PSetup sp)"
  have e: "IPXPacket_MarshalBinary p = [ucast (Sequence p), ucast (drop_bit 8 (Sequence p)),
      ucast (drop_bit 16 (Sequence p)), ucast (drop_bit 24 (Sequence p))] @ doom_payload_MarshalBinary (DoomPayload p)
      @ [ucast (Tail p), ucast (drop_bit 8 (Tail p)), ucast (drop_bit 16 (Tail p)), ucast (drop_bit 24 (Tail p))]"
    by (simp add: IPXPacket_MarshalBinary_def put_le32_def)
  show "IPXPacket_UnmarshalBinary (IPXPacket_MarshalBinary p) = Inr p"
    unfolding e IPXPacket_UnmarshalBinary_frame be_u32_split using *
    by (cases "DoomPayload p") (auto simp: doom_payload_MarshalBinary_def SetupPacket_roundtrip GamePacket_roundtrip)
next
  assume d: "IPXPacket_UnmarshalBinary d = Inr q"
  then have "8 \<le> length d" by (auto simp: IPXPacket_UnmarshalBinary_def split: if_splits)
  then obtain a0 a1 a2 a3 m z0 z1 z2 z3 where f: "d = [a0, a1, a2, a3] @ m @ [z0, z1, z2, z3]"
    by (rule frame_split)
  have "Sequence q = le_u32 a0 a1 a2 a3 \<and> Tail q = le_u32 z0 z1 z2 z3 \<and> doom_payload_MarshalBinary (DoomPayload q) = m"
    using d unfolding f IPXPacket_UnmarshalBinary_frame
    by (auto simp: doom_payload_MarshalBinary_def map_sum_def
        dest: SetupPacket_roundtrip' GamePacket_roundtrip' split: if_splits sum.splits)
  then show "IPXPacket_MarshalBinary q = d"
    by (simp add: IPXPacket_MarshalBinary_def put_le32_def f)
qed

section \<open>Tic numbers\<close>

text \<open>The candidate: the block of 256 tics of \<open>base\<close>, with the low byte replaced.\<close>

lemma unat_candidate: "unat ((base AND - 256) OR ucast (low :: byte) :: u32) = unat base div 256 * 256 + unat low"
proof -
  let ?hi = "push_bit 8 (drop_bit 8 base)"
  have m: "(- 256 :: u32) = NOT (mask 8)" by (simp add: mask_eq_exp_minus_1)
  have "(base AND - 256) OR ucast low = ?hi OR ucast low"
    unfolding m by (rule bit_word_eqI) (auto simp: bit_simps)
  also have "\<dots> = ?hi + ucast low"
    by (rule disjunctive_add_eq_or [symmetric]) (rule bit_word_eqI, auto simp: bit_simps)
  finally have "(base AND - 256) OR ucast low = ?hi + ucast low" .
  moreover have "unat ?hi = unat base div 256 * 256"
  proof -
    have "unat base div 256 * 256 < 2 ^ 32" using unat_bounds(3) [of base] by (simp add: le_less_trans [OF div_times_less_eq_dividend])
    then show ?thesis by (simp add: push_bit_eq_mult drop_bit_eq_div unat_word_ariths unat_div)
  qed
  moreover have "unat base div 256 * 256 + unat low < 2 ^ 32"
  proof -
    have "unat base div 256 < 2 ^ 24" using unat_bounds(3) [of base] by (simp add: less_mult_imp_div_less)
    then show ?thesis using unat_bounds(1) [of low] by simp
  qed
  ultimately show ?thesis by (simp add: unat_add_u32 unat_ucast_up)
qed

lemma ExpandTicNum_cases:
  fixes low base
  defines "r \<equiv> (base AND NOT 0xff) OR ucast low :: u32"
  shows "ExpandTicNum low base \<in> {r, r - 256, r + 256}"
  by (auto simp: ExpandTicNum_def r_def Let_def)

lemma ExpandTicNum_low: "ucast (ExpandTicNum low base) = low"
proof -
  let ?r = "(base AND NOT 0xff) OR ucast low :: u32"
  have c: "ucast ?r = low"
    using unat_low [of ?r] by (simp add: unat_candidate unat_bounds(1) word_unat_eq_iff)
  have plus: "ucast (x + 256) = (ucast x :: byte)" for x :: u32
    by (simp add: word_unat_eq_iff unat_low unat_word_ariths mod_mod_cancel)
  from plus [of "?r - 256"] have "ucast (?r - 256) = (ucast ?r :: byte)" by simp
  with c plus [of ?r] ExpandTicNum_cases [of low base] show ?thesis by auto
qed

lemma ExpandTicNum_near:
  assumes "\<bar>int (unat t) - int (unat base)\<bar> \<le> 64"
  shows "ExpandTicNum (ucast t) base = t"
proof -
  let ?r = "(base AND - 256) OR ucast (ucast t :: byte) :: u32"
  define bq where "bq = unat base div 256"
  define bm where "bm = unat base mod 256"
  define tq where "tq = unat t div 256"
  define tm where "tm = unat t mod 256"
  define R where "R = bq * 256 + tm"
  define k where "k = int bq - int tq"
  have r: "unat ?r = R" by (simp add: unat_candidate unat_low R_def bq_def tm_def)
  have b: "unat base = bq * 256 + bm" "bm < 256" and t: "unat t = tq * 256 + tm" "tm < 256"
    by (simp_all add: bq_def bm_def tq_def tm_def)
  have close: "\<bar>int R - int (unat base)\<bar> < 256" using b t unfolding R_def by simp
  have k: "int R = int (unat t) + 256 * k" using t by (simp add: R_def k_def algebra_simps)
  have near: "unat t \<le> unat base + 64" "unat base \<le> unat t + 64" using assms by linarith+
  have "- 2 < k" "k < 2" using k close assms by linarith+
  then consider (eq) "k = 0" | (up) "k = 1" | (down) "k = -1" by linarith
  then show ?thesis
  proof cases
    case eq
    have "R = unat t" using k [unfolded eq] by linarith
    then have "?r = t" using r by (simp add: word_unat_eq_iff)
    with near show ?thesis
      by (auto simp: ExpandTicNum_def Let_def word_less_nat_alt unat_sub_u32 less_imp_le word_le_nat_alt)
  next
    case up
    have R: "R = unat t + 256" using k [unfolded up] by linarith
    then have "?r - 256 = t" using r unat_bounds(3) [of ?r] by (simp add: word_unat_eq_iff unat_sub_u32 word_le_nat_alt)
    moreover have "base < ?r" using R r near by (simp add: word_less_nat_alt)
    moreover from this have "64 < ?r - base"
      using R r near by (simp add: word_less_nat_alt unat_sub_u32 word_le_nat_alt)
    ultimately show ?thesis by (simp add: ExpandTicNum_def Let_def)
  next
    case down
    have R: "R + 256 = unat t" using k [unfolded down] by linarith
    then have "?r + 256 = t" using r unat_bounds(3) [of t] by (simp add: word_unat_eq_iff unat_add_u32)
    moreover have "?r < base" using R r near by (simp add: word_less_nat_alt)
    moreover from this have "64 < base - ?r"
      using R r near by (simp add: word_less_nat_alt unat_sub_u32 word_le_nat_alt)
    ultimately show ?thesis by (auto simp: ExpandTicNum_def Let_def)
  qed
qed

text \<open>
  \<^verbatim>\<open>ExpandTicNum\<close> recovers the full tic number: the result always has the given low byte, and when the true
  number is at most 64 away from the reference (without wrapping around) it is exactly that number.
\<close>

lemma expand_tic_num:
  "ucast (ExpandTicNum low base) = low
   \<and> (\<bar>int (unat t) - int (unat base)\<bar> \<le> 64 \<longrightarrow> ExpandTicNum (ucast t) base = t)"
  using ExpandTicNum_low ExpandTicNum_near by blast

text \<open>
  \<^verbatim>\<open>UpdateChecksum\<close> makes the checksum right and touches nothing else: the low 28 bits of the field are the
  checksum of the bytes after it, the four flag bits and all other fields are unchanged, and doing it twice
  is doing it once.
\<close>

lemma update_checksum:
  "let p' = UpdateChecksum p
   in GP_Checksum p' AND NcmdChecksum = GamePacketChecksum (drop 4 (GamePacket_MarshalBinary p'))
    \<and> GP_Checksum p' AND NOT NcmdChecksum = GP_Checksum p AND NOT NcmdChecksum
    \<and> p'\<lparr>GP_Checksum := GP_Checksum p\<rparr> = p \<and> UpdateChecksum p' = p'"
proof -
  let ?c = "GamePacketChecksum (drop 4 (GamePacket_MarshalBinary p))"
  let ?p = "UpdateChecksum p"
  have d: "drop 4 (GamePacket_MarshalBinary (p\<lparr>GP_Checksum := c\<rparr>)) = drop 4 (GamePacket_MarshalBinary p)" for c
    by (simp add: GamePacket_MarshalBinary_def put_le32_def)
  have c: "?c AND NOT NcmdChecksum = 0" "?c AND NcmdChecksum = ?c"
    unfolding GamePacketChecksum_def by (rule bit_word_eqI, auto simp: bit_simps)+
  have p: "?p = p\<lparr>GP_Checksum := (GP_Checksum p AND NOT NcmdChecksum) OR ?c\<rparr>"
    by (simp add: UpdateChecksum_def Let_def)
  have lo: "((x AND NOT m) OR y) AND m = y AND m" and hi: "((x AND NOT m) OR y) AND NOT m = (x AND NOT m) OR (y AND NOT m)"
    for x y m :: u32
    by (rule bit_word_eqI, auto simp: bit_simps)+
  have 1: "GP_Checksum ?p AND NcmdChecksum = ?c" by (simp add: p lo c)
  have 2: "GP_Checksum ?p AND NOT NcmdChecksum = GP_Checksum p AND NOT NcmdChecksum" by (simp add: p hi c)
  have 3: "UpdateChecksum ?p = ?p" using 2 by (simp add: UpdateChecksum_def Let_def d)
  show ?thesis unfolding Let_def using 1 2 3 d by (simp add: p)
qed

section \<open>The window as a map from tic numbers\<close>

text \<open>
  The reference: a map from tic numbers to commands, the next tic after the newest one, and the oldest tic
  that is kept. Adding a tic moves the end forward if need be, and forgets what is more than 32 tics old.
\<close>

type_synonym tic_view = "(nat \<Rightarrow> bytes option) \<times> nat \<times> nat"

fun view_add :: "nat \<Rightarrow> bytes \<Rightarrow> tic_view \<Rightarrow> tic_view" where
  "view_add n c (m, h, t) =
     (if n < t then (m, h, t)
      else let h' = max h (Suc n); t' = max t (h' - 32)
           in (\<lambda>x. if x < t' then None else if x = n then Some c else m x, h', t'))"

fun view_adds :: "nat \<Rightarrow> bytes list \<Rightarrow> tic_view \<Rightarrow> tic_view" where
  "view_adds n [] v = v"
| "view_adds n (c # cs) v = view_adds (Suc n) cs (view_add n c v)"

definition tic :: "stream \<Rightarrow> nat \<Rightarrow> bytes option" where
  "tic s n = (if unat (windowTail s) \<le> n \<and> n < unat (windowHead s) then window s ! (n mod 32) else None)"

definition stream_view :: "stream \<Rightarrow> tic_view" where
  "stream_view s = (tic s, unat (windowHead s), unat (windowTail s))"

definition stream_inv :: "stream \<Rightarrow> bool" where
  "stream_inv s \<longleftrightarrow> length (window s) = 32 \<and> windowTail s \<le> windowHead s
     \<and> unat (windowHead s) \<le> unat (windowTail s) + 32"

lemma stream_inv_new: "stream_inv new_stream"
  by (simp add: stream_inv_def new_stream_def windowSize_def)

lemma stream_inv_setup: "stream_inv s \<Longrightarrow> stream_inv (handleSetupPacket sp s)"
  by (simp add: stream_inv_def handleSetupPacket_def)

lemma mod_32_eq:
  assumes "(m :: nat) mod 32 = n mod 32" "n \<le> m" "m < n + 32" shows "m = n"
proof -
  have "(m - n) mod 32 = 0" using assms(1,2) by (metis mod_eq_dvd_iff_nat mod_eq_0_iff_dvd)
  with assms show ?thesis by simp
qed

lemma unat_mod_32: "unat ((a :: u32) mod 32) = unat a mod 32"
  by (simp add: unat_mod)

lemma shift_step_spec:
  assumes s: "stream_inv s" and h: "unat (windowHead s) < 2 ^ 32 - 1"
  shows "stream_inv (shift_step s)" "unat (windowHead (shift_step s)) = Suc (unat (windowHead s))"
    "unat (windowTail (shift_step s)) = max (unat (windowTail s)) (Suc (unat (windowHead s)) - 32)"
    "tic (shift_step s) n = (if n < unat (windowTail (shift_step s)) then None else tic s n)"
proof -
  let ?h = "unat (windowHead s)" and ?t = "unat (windowTail s)"
  have h1: "unat (windowHead s + 1) = Suc ?h" using h by (simp add: unat_add_u32)
  have t: "?t \<le> ?h" "?h \<le> ?t + 32" "length (window s) = 32" using s by (auto simp: stream_inv_def word_le_nat_alt)
  have d: "unat (windowHead s + 1 - windowTail s) = Suc ?h - ?t"
    using t h1 by (simp add: unat_sub_u32 word_le_nat_alt)
  show 1: "unat (windowHead (shift_step s)) = Suc ?h" by (simp add: shift_step_def Let_def h1)
  show 2: "unat (windowTail (shift_step s)) = max ?t (Suc ?h - 32)"
    using t h1 d by (auto simp: shift_step_def Let_def word_less_nat_alt unat_sub_u32 word_le_nat_alt max_def)
  show "stream_inv (shift_step s)"
  proof -
    have "length (window (shift_step s)) = 32" using t(3) by (simp add: shift_step_def Let_def)
    then show ?thesis unfolding stream_inv_def word_le_nat_alt 1 2 using t by auto
  qed
  have w: "window (shift_step s) = (window s)[?h mod 32 := None]"
    by (simp add: shift_step_def Let_def unat_mod_32)
  show "tic (shift_step s) n = (if n < unat (windowTail (shift_step s)) then None else tic s n)"
    unfolding tic_def 1 2 w
  proof -
    have "?h mod 32 \<noteq> n mod 32" if "Suc ?h - 32 \<le> n" "n < ?h"
      using mod_32_eq [of ?h n] that by linarith
    then show "(if max ?t (Suc ?h - 32) \<le> n \<and> n < Suc ?h then (window s)[?h mod 32 := None] ! (n mod 32) else None) =
      (if n < max ?t (Suc ?h - 32) then None else if ?t \<le> n \<and> n < ?h then window s ! (n mod 32) else None)"
      using t by (auto simp: nth_list_update less_Suc_eq not_less)
  qed
qed

lemma shift_window_spec:
  assumes "stream_inv s" "unat t < 2 ^ 32 - 1"
  shows "\<exists>s'. shift_window t s = Some s' \<and> stream_inv s'
    \<and> unat (windowHead s') = max (unat (windowHead s)) (Suc (unat t))
    \<and> unat (windowTail s') = max (unat (windowTail s)) (unat (windowHead s') - 32)
    \<and> (\<forall>n. tic s' n = (if n < unat (windowTail s') then None else tic s n))"
  using assms
proof (induction "Suc (unat t) - unat (windowHead s)" arbitrary: s)
  case 0
  then have "\<not> t \<ge> windowHead s" by (simp add: word_le_nat_alt)
  moreover have "unat (windowHead s) - 32 \<le> unat (windowTail s)" using "0.prems"(1) by (auto simp: stream_inv_def)
  ultimately show ?case
    using "0.prems" "0.hyps" by (subst shift_window.simps) (auto simp: tic_def max_def)
next
  case (Suc k)
  then have le: "unat (windowHead s) \<le> unat t" by simp
  then have h: "unat (windowHead s) < 2 ^ 32 - 1" using Suc.prems(2) by simp
  note sp = shift_step_spec [OF Suc.prems(1) h]
  have "k = Suc (unat t) - unat (windowHead (shift_step s))" using Suc.hyps(2) sp(2) by simp
  from Suc.hyps(1) [OF this sp(1) Suc.prems(2)] obtain s' where s': "shift_window t (shift_step s) = Some s'"
    "stream_inv s'" "unat (windowHead s') = max (unat (windowHead (shift_step s))) (Suc (unat t))"
    "unat (windowTail s') = max (unat (windowTail (shift_step s))) (unat (windowHead s') - 32)"
    "\<And>n. tic s' n = (if n < unat (windowTail s') then None else tic (shift_step s) n)" by blast
  have "shift_window t s = Some s'" using s'(1) le by (subst shift_window.simps) (simp add: word_le_nat_alt)
  moreover have "tic s' n = (if n < unat (windowTail s') then None else tic s n)" for n
    using s'(4,5) sp(4) by auto
  ultimately show ?case using s'(2,3,4) sp(2,3) le by (auto simp: max_def)
qed

lemma add_tic_spec:
  assumes "stream_inv s" "unat t < 2 ^ 32 - 1"
  shows "\<exists>s'. add_tic t c s = Some s' \<and> stream_inv s' \<and> stream_view s' = view_add (unat t) c (stream_view s)"
proof (cases "t < windowTail s")
  case True
  with assms(1) show ?thesis by (simp add: add_tic_def stream_view_def word_less_nat_alt)
next
  case False
  then have t: "unat (windowTail s) \<le> unat t" by (simp add: word_less_nat_alt)
  obtain s1 where s1: "shift_window t s = Some s1" "stream_inv s1"
    "unat (windowHead s1) = max (unat (windowHead s)) (Suc (unat t))"
    "unat (windowTail s1) = max (unat (windowTail s)) (unat (windowHead s1) - 32)"
    "\<And>n. tic s1 n = (if n < unat (windowTail s1) then None else tic s n)"
    using shift_window_spec [OF assms] by blast
  let ?s = "s1\<lparr>window := (window s1)[unat (t mod 32) := Some c]\<rparr>"
  have "unat (windowHead s) \<le> unat (windowTail s) + 32" using assms(1) by (simp add: stream_inv_def)
  with s1(3,4) t have r: "unat (windowTail s1) \<le> unat t" "unat t < unat (windowHead s1)" by auto
  have l: "length (window s1) = 32" "unat (windowHead s1) \<le> unat (windowTail s1) + 32"
    using s1(2) by (auto simp: stream_inv_def)
  have tic: "tic ?s n = (if n = unat t then Some c else tic s1 n)" for n
  proof -
    have "n mod 32 \<noteq> unat t mod 32" if "n \<noteq> unat t" "unat (windowTail s1) \<le> n" "n < unat (windowHead s1)"
      using that r l(2) mod_32_eq [of n "unat t"] mod_32_eq [of "unat t" n] by linarith
    with r l show ?thesis by (auto simp: tic_def unat_mod_32 nth_list_update)
  qed
  have "stream_view ?s = view_add (unat t) c (stream_view s)"
    using t r s1(3,4) by (auto simp: stream_view_def Let_def tic s1(5) fun_eq_iff)
  moreover have "stream_inv ?s" using s1(2) by (simp add: stream_inv_def)
  moreover have "add_tic t c s = Some ?s" using False s1(1) by (simp add: add_tic_def)
  ultimately show ?thesis by blast
qed

lemma add_tics_spec:
  assumes "stream_inv s" "unat t + length cs < 2 ^ 32"
  shows "\<exists>s'. add_tics t cs s = Some s' \<and> stream_inv s' \<and> stream_view s' = view_adds (unat t) cs (stream_view s)"
  using assms
proof (induction cs arbitrary: t s)
  case (Cons c cs)
  then have t: "unat t < 2 ^ 32 - 1" and t1: "unat (t + 1) = Suc (unat t)" by (simp_all add: unat_add_u32)
  obtain s1 where s1: "add_tic t c s = Some s1" "stream_inv s1" "stream_view s1 = view_add (unat t) c (stream_view s)"
    using add_tic_spec [OF Cons.prems(1) t] by blast
  from Cons.IH [OF s1(2), of "t + 1"] Cons.prems(2) t1 s1 show ?case by simp
qed simp




section \<open>Tics that are sent\<close>



text \<open>
  C11. The tic window implements its reference. Unless the tic numbers of the packet wrap around the end of
  the 32-bit range, \<^verbatim>\<open>addNewTics\<close> returns, keeps the window invariant, and does to the map from tic numbers to
  commands exactly what adding the tics of the packet one by one does: at most 32 tics are kept, the newest
  ones, and no stale command survives in a slot that is used for a new tic.
\<close>

theorem doom_window_refines:
  assumes "stream_inv s" "NumTics gp \<noteq> 0"
    and "unat (ExpandTicNum (StartTic gp) (windowHead s)) + unat (NumTics gp) < 2 ^ 32"
  shows "\<exists>s'. addNewTics gp s = Some (Return (s', ExpandTicNum (StartTic gp) (windowHead s) + ucast (NumTics gp)))
    \<and> stream_inv s'
    \<and> stream_view s' = view_adds (unat (ExpandTicNum (StartTic gp) (windowHead s))) (tic_commands gp) (stream_view s)"
  using add_tics_spec [OF assms(1), of "ExpandTicNum (StartTic gp) (windowHead s)" "tic_commands gp"] assms(2,3)
  by (auto simp: addNewTics_def Let_def tic_commands_def)




section \<open>Two defects\<close>

lemma shift_window_Some:
  assumes "shift_window t s = Some s'"
  shows "t < windowHead s'"
  by (rule shift_window.raw_induct [where P = "\<lambda>t s s'. t < windowHead s'", OF _ assms])
    (auto split: if_splits)

text \<open>
  The loop that moves the window forward counts \<^verbatim>\<open>windowHead\<close> past the tic number; there is nothing above
  the largest 32-bit number, so for that tic the loop never ends.
\<close>

lemma doom_hang:
  assumes "ExpandTicNum (StartTic gp) (windowHead s) = 0xffffffff" "NumTics gp = 1"
    and "GP_Checksum gp AND NcmdSetup = 0"
  shows "handleGamePacket gp s = None"
proof -
  have "shift_window 0xffffffff s = None"
  proof (rule ccontr)
    assume "shift_window 0xffffffff s \<noteq> None"
    then obtain s' where "shift_window 0xffffffff s = Some s'" by blast
    from shift_window_Some [OF this] have "unat (0xffffffff :: u32) < unat (windowHead s')" by (simp only: word_less_nat_alt)
    then show False using unat_bounds(3) [of "windowHead s'"] by simp
  qed
  moreover have "\<not> 0xffffffff < windowTail s" using unat_bounds(3) [of "windowTail s"] by (simp add: word_less_nat_alt)
  ultimately have "add_tic 0xffffffff c s = None" for c by (simp add: add_tic_def)
  with assms show ?thesis
    by (simp add: handleGamePacket_def addNewTics_def Let_def tic_commands_def)
qed

definition demo_game :: "byte \<Rightarrow> byte \<Rightarrow> bytes \<Rightarrow> GamePacket" where
  "demo_game start n cmds = \<lparr>GP_Checksum = 0, RetransmitFrom = 0, StartTic = start, Player = 1, NumTics = n, Commands = cmds\<rparr>"

lemma doom_first_packet_hang: "handleGamePacket (demo_game 255 1 [7]) new_stream = None"
  by (rule doom_hang) (simp_all add: demo_game_def new_stream_def ExpandTicNum_def Let_def)

text \<open>A packet never comes back with more than five tics, also when it came with more: the first ones are dropped.\<close>

lemma send_loop_le: "c \<le> 5 \<Longrightarrow> snd (send_loop s idx c) \<le> 5"
proof (induction s idx c rule: send_loop.induct)
  case (1 s idx c)
  then show ?case by (subst send_loop.simps) (simp add: sendExtraTics_def)
qed

lemma doom_drops_tics:
  assumes "handleGamePacket gp s = Some (Return (s', r))" "GP_Checksum gp AND NcmdSetup = 0" "5 < NumTics gp"
  shows "NumTics r < NumTics gp"
proof -
  have "NumTics gp \<noteq> 0" using assms(3) by auto
  with assms(1,2) obtain z where z: "addNewTics gp s = Some z" by (auto simp: handleGamePacket_def)
  with assms(1,2) \<open>NumTics gp \<noteq> 0\<close> obtain nextTic where "NumTics r = of_nat (snd (send_loop s' nextTic 0))"
    by (cases z) (auto simp: handleGamePacket_def ticsToSend_def split_beta Let_def)
  moreover have "snd (send_loop s' nextTic 0) \<le> 5" by (rule send_loop_le) simp
  ultimately have "NumTics r \<le> 5" by (simp add: word_le_nat_alt unat_of_nat)
  from this assms(3) show ?thesis by (rule le_less_trans)
qed

section \<open>Witnesses\<close>

theorem doom_wire_format_witness:
  "IPXPacket_UnmarshalBinary (IPXPacket_MarshalBinary \<lparr>Sequence = 5, Tail = 9, DoomPayload = PGame (demo_game 1 1 [2, 3])\<rparr>)
     = Inr \<lparr>Sequence = 5, Tail = 9, DoomPayload = PGame (demo_game 1 1 [2, 3])\<rparr>"
  using doom_wire_format [of "\<lparr>Sequence = 5, Tail = 9, DoomPayload = PGame (demo_game 1 1 [2, 3])\<rparr>"] by simp

theorem doom_window_refines_witness:
  "\<exists>s'. addNewTics (demo_game 3 1 [7]) new_stream = Some (Return (s', 4)) \<and> stream_inv s'"
  using doom_window_refines [OF stream_inv_new, of "demo_game 3 1 [7]"]
  by (auto simp: demo_game_def new_stream_def ExpandTicNum_def Let_def)


end
