(* ===== verification/Sharder.thy ===== *)
theory Sharder
  imports Prelude
begin

text \<open>
  Package \<^verbatim>\<open>qproxy\<close>, the reliable stream (\<^verbatim>\<open>src/module/qproxy/protocol.go\<close>): Quake servers on UDP send reliable
  messages in fragments that are too big for IPX; the sharder collects them and sends them on in fragments of at
  most 1024 bytes.

  The callbacks \<^verbatim>\<open>txUpstream\<close> and \<^verbatim>\<open>txDownstream\<close> act on a state \<open>'w\<close>. A message is a slice of a larger buffer, and
  Go lets a slice expression reach past the length of a slice up to its capacity; \<open>spare\<close> is what follows the
  message in its buffer.
\<close>

section \<open>Messages\<close>

definition reliableHeaderLength :: nat where "reliableHeaderLength = 8"
definition vanillaQuakeMTU :: nat where "vanillaQuakeMTU = 1024"

definition flagData :: u16 where "flagData = 0x0001"
definition flagAck :: u16 where "flagAck = 0x0002"
definition flagEOM :: u16 where "flagEOM = 0x0008"
definition flagUnreliable :: u16 where "flagUnreliable = 0x0010"

lemmas flag_defs = flagData_def flagAck_def flagEOM_def flagUnreliable_def

datatype qstate = stateReceiving | stateReceivedEOM | stateSentEOM | stateEOMAcked

definition messageTooShort :: error where
  "messageTooShort = OtherError ''message too short to decode''"

record reliableMessage =
  Flags :: u16
  Sequence :: u32
  rm_Payload :: bytes

definition rm_MarshalBinary :: "reliableMessage \<Rightarrow> bytes" where
  "rm_MarshalBinary m =
     (let nbytes = reliableHeaderLength + length (rm_Payload m)
      in put_be16 (Flags m) @ put_be16 (of_nat nbytes) @ put_be32 (Sequence m) @ rm_Payload m)"

definition rm_UnmarshalBinary :: "bytes \<Rightarrow> error + reliableMessage" where
  "rm_UnmarshalBinary data =
     (if length data < reliableHeaderLength then Inl messageTooShort
      else Inr \<lparr>Flags = be_u16 (data ! 0) (data ! 1),
                Sequence = be_u32 (data ! 4) (data ! 5) (data ! 6) (data ! 7), rm_Payload = drop 8 data\<rparr>)"

section \<open>The sharder\<close>

record sharder =
  q_state :: qstate
  rxseq :: u32
  rxack :: u32
  txseq :: u32
  txack :: u32
  txqueue :: bytes

record 'w tx =
  txUpstream :: "bytes \<Rightarrow> 'w \<Rightarrow> 'w \<times> error option"
  txDownstream :: "bytes \<Rightarrow> 'w \<Rightarrow> 'w \<times> error option"

definition sharder_init :: sharder where
  "sharder_init = \<lparr>q_state = stateReceiving, rxseq = 0, rxack = 0, txseq = 0, txack = 0, txqueue = []\<rparr>"

definition stateTransition :: "qstate \<Rightarrow> qstate \<Rightarrow> sharder \<Rightarrow> sharder" where
  "stateTransition from_st to_st s = (if q_state s = from_st then s\<lparr>q_state := to_st\<rparr> else s)"

definition sendUpstream :: "'w tx \<Rightarrow> reliableMessage \<Rightarrow> 'w \<Rightarrow> 'w \<times> error option" where
  "sendUpstream T rm w = txUpstream T (rm_MarshalBinary rm) w"

definition sendDownstream :: "'w tx \<Rightarrow> reliableMessage \<Rightarrow> 'w \<Rightarrow> 'w \<times> error option" where
  "sendDownstream T rm w = txDownstream T (rm_MarshalBinary rm) w"

definition sendNext :: "'w tx \<Rightarrow> sharder \<times> 'w \<Rightarrow> (sharder \<times> 'w) \<times> error option" where
  "sendNext T sw =
     (let (s, w) = sw
      in if txack s \<noteq> txseq s then ((s, w), None)
         else if q_state s = stateSentEOM \<or> q_state s = stateEOMAcked then ((s, w), None)
         else if length (txqueue s) = 0 then ((s, w), None)
         else
           let nbytes = min (vanillaQuakeMTU - reliableHeaderLength) (length (txqueue s));
               payload = take nbytes (txqueue s);
               seq = txseq s;
               s = s\<lparr>txqueue := drop nbytes (txqueue s)\<rparr>;
               eom = (q_state s = stateReceivedEOM \<and> length (txqueue s) = 0);
               flags = (if eom then flagData OR flagEOM else flagData);
               s = (if eom then stateTransition stateReceivedEOM stateSentEOM s else s);
               s = s\<lparr>txseq := txseq s + 1\<rparr>;
               (w, err) = sendDownstream T \<lparr>Flags = flags, Sequence = seq, rm_Payload = payload\<rparr> w
           in ((s, w), err))"

definition sendAck :: "'w tx \<Rightarrow> sharder \<times> 'w \<Rightarrow> (sharder \<times> 'w) \<times> error option" where
  "sendAck T sw =
     (let (s, w) = sw
      in if rxseq s = rxack s then ((s, w), None)
         else
           let (w, err) = sendUpstream T \<lparr>Flags = flagAck, Sequence = rxseq s - 1, rm_Payload = []\<rparr> w
           in ((s\<lparr>rxack := rxseq s\<rparr>, w), err))"

text \<open>The effect of a data fragment on the sharder, before anything is sent.\<close>

definition accept_fragment :: "reliableMessage \<Rightarrow> sharder \<Rightarrow> sharder" where
  "accept_fragment rm s =
     (if Sequence rm = rxseq s then
        let s = stateTransition stateEOMAcked stateReceiving s;
            s = s\<lparr>txqueue := txqueue s @ rm_Payload rm\<rparr>;
            s = s\<lparr>rxseq := rxseq s + 1\<rparr>
        in if Flags rm AND flagEOM \<noteq> 0 then stateTransition stateReceiving stateReceivedEOM s else s
      else s)"

definition receiveFromUpstream ::
  "'w tx \<Rightarrow> bytes \<Rightarrow> bytes \<Rightarrow> sharder \<times> 'w \<Rightarrow> ((sharder \<times> 'w) \<times> bool \<times> error option) outcome" where
  "receiveFromUpstream T spare msg sw =
     (let buf = msg @ spare
      in if length buf < 2 then Panic
         else
           let flags = be_u16 (buf ! 0) (buf ! 1)
           in if flags AND flagUnreliable \<noteq> 0 then Return (sw, False, None)
              else if flags AND flagData = 0 then Return (sw, False, None)
              else
                (case rm_UnmarshalBinary msg of
                   Inl err \<Rightarrow> Return (sw, False, Some err)
                 | Inr rm \<Rightarrow>
                     let (s, w) = sw;
                         s = accept_fragment rm s;
                         (sw, err) = (if q_state s = stateReceiving \<or> q_state s = stateEOMAcked
                                      then sendAck T (s, w) else ((s, w), None))
                     in (case err of
                           Some e \<Rightarrow> Return (sw, False, Some e)
                         | None \<Rightarrow>
                             (let (sw, err) = sendNext T sw
                              in (case err of Some e \<Rightarrow> Return (sw, False, Some e) | None \<Rightarrow> Return (sw, True, None))))))"

definition receiveFromDownstream ::
  "'w tx \<Rightarrow> bytes \<Rightarrow> bytes \<Rightarrow> sharder \<times> 'w \<Rightarrow> ((sharder \<times> 'w) \<times> bool \<times> error option) outcome" where
  "receiveFromDownstream T spare msg sw =
     (let buf = msg @ spare
      in if length buf < 2 then Panic
         else
           let flags = be_u16 (buf ! 0) (buf ! 1)
           in if flags AND flagUnreliable \<noteq> 0 then Return (sw, False, None)
              else if flags AND flagAck = 0 then Return (sw, False, None)
              else
                (case rm_UnmarshalBinary msg of
                   Inl err \<Rightarrow> Return (sw, False, Some err)
                 | Inr rm \<Rightarrow>
                     (let (s, w) = sw
                      in if Sequence rm = txack s then
                           let s = stateTransition stateSentEOM stateEOMAcked (s\<lparr>txack := txack s + 1\<rparr>);
                               (sw, err) = (if q_state s = stateEOMAcked then sendAck T (s, w) else sendNext T (s, w))
                           in (case err of Some e \<Rightarrow> Return (sw, False, Some e) | None \<Rightarrow> Return (sw, True, None))
                         else Return (sw, True, None))))"

section \<open>Histories\<close>

datatype shard_event = FromUp bytes bytes | FromDown bytes bytes

fun shard_step :: "'w tx \<Rightarrow> shard_event \<Rightarrow> sharder \<times> 'w \<Rightarrow> (sharder \<times> 'w) outcome" where
  "shard_step T (FromUp spare msg) sw =
     (case receiveFromUpstream T spare msg sw of Return (sw', _) \<Rightarrow> Return sw' | Fail e \<Rightarrow> Fail e | Panic \<Rightarrow> Panic)"
| "shard_step T (FromDown spare msg) sw =
     (case receiveFromDownstream T spare msg sw of Return (sw', _) \<Rightarrow> Return sw' | Fail e \<Rightarrow> Fail e | Panic \<Rightarrow> Panic)"

text \<open>The data fragment that an event adds to the stream, if any.\<close>

fun accepted :: "shard_event \<Rightarrow> sharder \<Rightarrow> reliableMessage list" where
  "accepted (FromUp spare msg) s =
     (let flags = be_u16 ((msg @ spare) ! 0) ((msg @ spare) ! 1)
      in if flags AND flagUnreliable \<noteq> 0 \<or> flags AND flagData = 0 then []
         else case rm_UnmarshalBinary msg of
                Inr rm \<Rightarrow> if Sequence rm = rxseq s then [rm] else []
              | Inl _ \<Rightarrow> [])"
| "accepted (FromDown spare msg) s = []"

text \<open>A run with the fragments it accepts.\<close>

fun shard_run ::
  "'w tx \<Rightarrow> shard_event list \<Rightarrow> sharder \<times> 'w \<Rightarrow> (reliableMessage list \<times> sharder \<times> 'w) outcome" where
  "shard_run T [] sw = Return ([], sw)"
| "shard_run T (ev # evs) sw =
     (case shard_step T ev sw of
        Return sw' \<Rightarrow>
          (case shard_run T evs sw' of Return (rms, sw'') \<Rightarrow> Return (accepted ev (fst sw) @ rms, sw'') | Fail e \<Rightarrow> Fail e | Panic \<Rightarrow> Panic)
      | Fail e \<Rightarrow> Fail e | Panic \<Rightarrow> Panic)"

text \<open>An upstream that sends no new fragment while the end of its last message is not acknowledged.\<close>

fun patient :: "'w tx \<Rightarrow> shard_event list \<Rightarrow> sharder \<times> 'w \<Rightarrow> bool" where
  "patient T [] sw \<longleftrightarrow> True"
| "patient T (ev # evs) sw \<longleftrightarrow>
     (accepted ev (fst sw) = [] \<or> q_state (fst sw) \<in> {stateReceiving, stateEOMAcked})
     \<and> (case shard_step T ev sw of Return sw' \<Rightarrow> patient T evs sw' | _ \<Rightarrow> True)"

text \<open>Links that record what is sent up and down; \<open>fu\<close> and \<open>fd\<close> say which sends fail.\<close>

type_synonym wires = "bytes list \<times> bytes list"

definition log_tx :: "(bytes \<Rightarrow> error option) \<Rightarrow> (bytes \<Rightarrow> error option) \<Rightarrow> wires tx" where
  "log_tx fu fd = \<lparr>txUpstream = (\<lambda>b (us, ds). ((us @ [b], ds), fu b)), txDownstream = (\<lambda>b (us, ds). ((us, ds @ [b]), fd b))\<rparr>"

text \<open>The complete messages in a list of fragments, and the bytes of the incomplete last one.\<close>

definition is_eom :: "reliableMessage \<Rightarrow> bool" where
  "is_eom m \<longleftrightarrow> Flags m AND flagEOM \<noteq> 0"

fun msgs_of :: "bytes \<Rightarrow> reliableMessage list \<Rightarrow> bytes list \<times> bytes" where
  "msgs_of part [] = ([], part)"
| "msgs_of part (m # ms) =
     (if is_eom m then (let (done_msgs, r) = msgs_of [] ms in ((part @ rm_Payload m) # done_msgs, r))
      else msgs_of (part @ rm_Payload m) ms)"

section \<open>Invariants\<close>

lemma rm_roundtrip [simp]: "rm_UnmarshalBinary (rm_MarshalBinary m) = Inr m"
  by (simp add: rm_UnmarshalBinary_def rm_MarshalBinary_def reliableHeaderLength_def put_defs Let_def)

lemma msgs_of_append:
  "msgs_of part (ms @ ns) =
     (let (xs, r) = msgs_of part ms; (ys, r') = msgs_of r ns in (xs @ ys, r'))"
  by (induction ms arbitrary: part) (auto simp: Let_def split_beta)

text \<open>What may be sent downstream.\<close>

definition fragment_ok :: "reliableMessage \<Rightarrow> bool" where
  "fragment_ok m \<longleftrightarrow> 0 < length (rm_Payload m) \<and> length (rm_MarshalBinary m) \<le> vanillaQuakeMTU
     \<and> Flags m \<in> {flagData, flagData OR flagEOM}"

definition data_inv :: "reliableMessage list \<Rightarrow> reliableMessage list \<Rightarrow> sharder \<Rightarrow> wires \<Rightarrow> bool" where
  "data_inv acc sent s w \<longleftrightarrow>
     snd w = map rm_MarshalBinary sent
     \<and> concat (map rm_Payload sent) @ txqueue s = concat (map rm_Payload acc)
     \<and> list_all fragment_ok sent \<and> map Sequence sent = map of_nat [0..<length sent]
     \<and> map Sequence acc = map of_nat [0..<length acc]
     \<and> rxseq s = of_nat (length acc) \<and> txseq s = of_nat (length sent)"

text \<open>The messages sent, compared to those received.\<close>

definition msg_inv :: "reliableMessage list \<Rightarrow> reliableMessage list \<Rightarrow> sharder \<Rightarrow> bool" where
  "msg_inv acc sent s \<longleftrightarrow>
     (let (ms, r) = msgs_of [] acc; (ms', r') = msgs_of [] sent
      in case q_state s of
           stateReceiving \<Rightarrow> ms = ms' \<and> r = r' @ txqueue s
         | stateReceivedEOM \<Rightarrow> ms = ms' @ [r' @ txqueue s] \<and> r = []
         | _ \<Rightarrow> ms = ms' \<and> r = [] \<and> r' = [] \<and> txqueue s = [])"

definition shard_inv :: "bool \<Rightarrow> reliableMessage list \<Rightarrow> sharder \<times> wires \<Rightarrow> bool" where
  "shard_inv b acc sw \<longleftrightarrow> (\<exists>sent. data_inv acc sent (fst sw) (snd sw) \<and> (b \<longrightarrow> msg_inv acc sent (fst sw)))"

lemma eom_flags [simp]:
  "is_eom \<lparr>Flags = flagData, Sequence = q, rm_Payload = p\<rparr> = False"
  "is_eom \<lparr>Flags = flagData OR flagEOM, Sequence = q, rm_Payload = p\<rparr> = True"
  by (simp_all add: is_eom_def flag_defs)

lemma shard_inv_sendNext:
  assumes "shard_inv b acc sw" "sendNext (log_tx fu fd) sw = (sw', err)"
  shows "shard_inv b acc sw'"
proof -
  obtain s us ds where sw: "sw = (s, us, ds)" by (metis prod.exhaust)
  from assms(1) obtain sent where d: "data_inv acc sent s (us, ds)" and m: "b \<longrightarrow> msg_inv acc sent s"
    by (auto simp: shard_inv_def sw)
  consider "sw' = sw" | "txqueue s \<noteq> []" "q_state s = stateReceiving \<or> q_state s = stateReceivedEOM"
    using assms(2) by (cases "q_state s") (auto simp: sendNext_def sw Let_def split: if_splits)
  then show ?thesis
  proof cases
    case 1 with assms(1) show ?thesis by simp
  next
    case 2
    show ?thesis
    proof (cases "txack s = txseq s")
      case False
      with assms show ?thesis by (simp add: sendNext_def sw)
    next
      case True
      let ?n = "min (vanillaQuakeMTU - reliableHeaderLength) (length (txqueue s))"
      let ?eom = "q_state s = stateReceivedEOM \<and> length (txqueue s) \<le> ?n"
      let ?m = "\<lparr>Flags = if ?eom then flagData OR flagEOM else flagData, Sequence = txseq s, rm_Payload = take ?n (txqueue s)\<rparr>"
      let ?s = "s\<lparr>txqueue := drop ?n (txqueue s), txseq := txseq s + 1, q_state := if ?eom then stateSentEOM else q_state s\<rparr>"
      have sw': "sw' = (?s, us, ds @ [rm_MarshalBinary ?m])"
        using assms(2) 2 True by (auto simp: sendNext_def sw Let_def sendDownstream_def log_tx_def stateTransition_def)
      have "fragment_ok ?m"
        using 2(1) by (auto simp: fragment_ok_def rm_MarshalBinary_def Let_def vanillaQuakeMTU_def reliableHeaderLength_def)
      with d have "data_inv acc (sent @ [?m]) ?s (us, ds @ [rm_MarshalBinary ?m])"
        by (simp add: data_inv_def)
      moreover have "b \<longrightarrow> msg_inv acc (sent @ [?m]) ?s"
        using m 2 by (auto simp: msg_inv_def msgs_of_append split_beta Let_def)
      ultimately show ?thesis by (auto simp: shard_inv_def sw')
    qed
  qed
qed

lemma rxack_irrelevant:
  "data_inv acc sent (s\<lparr>rxack := x\<rparr>) (us', ds) = data_inv acc sent s (us, ds)"
  "msg_inv acc sent (s\<lparr>rxack := x\<rparr>) = msg_inv acc sent s"
  by (simp add: data_inv_def, cases "q_state s") (simp_all add: msg_inv_def)

lemma shard_inv_sendAck:
  "shard_inv b acc sw \<Longrightarrow> sendAck (log_tx fu fd) sw = (sw', err) \<Longrightarrow> shard_inv b acc sw'"
  by (cases sw)
    (auto simp: sendAck_def sendUpstream_def log_tx_def shard_inv_def rxack_irrelevant(2) Let_def
      rxack_irrelevant(1) [where us = "fst (snd sw)"] split: if_splits)

lemma shard_inv_accept:
  assumes "shard_inv b acc (s, w)" "b \<longrightarrow> Sequence rm \<noteq> rxseq s \<or> q_state s \<in> {stateReceiving, stateEOMAcked}"
  shows "shard_inv b (acc @ (if Sequence rm = rxseq s then [rm] else [])) (accept_fragment rm s, w)"
proof (cases "Sequence rm = rxseq s")
  case True
  from assms(1) obtain sent where d: "data_inv acc sent s w" and m: "b \<longrightarrow> msg_inv acc sent s"
    by (auto simp: shard_inv_def)
  from d True have "data_inv (acc @ [rm]) sent (accept_fragment rm s) w"
    by (auto simp: data_inv_def accept_fragment_def stateTransition_def Let_def simp flip: append_assoc)
  moreover have "b \<longrightarrow> msg_inv (acc @ [rm]) sent (accept_fragment rm s)"
    using m assms(2) True
    by (auto simp: msg_inv_def msgs_of_append accept_fragment_def stateTransition_def Let_def split_beta is_eom_def)
  ultimately show ?thesis using True by (auto simp: shard_inv_def)
qed (use assms in \<open>simp add: accept_fragment_def\<close>)

lemma shard_inv_ack:
  assumes "shard_inv b acc (s, w)"
  shows "shard_inv b acc (stateTransition stateSentEOM stateEOMAcked (s\<lparr>txack := a\<rparr>), w)"
proof -
  from assms obtain sent where "data_inv acc sent s w" and m: "b \<longrightarrow> msg_inv acc sent s"
    by (auto simp: shard_inv_def)
  then have "data_inv acc sent (stateTransition stateSentEOM stateEOMAcked (s\<lparr>txack := a\<rparr>)) w"
    by (auto simp: data_inv_def stateTransition_def)
  moreover have "b \<longrightarrow> msg_inv acc sent (stateTransition stateSentEOM stateEOMAcked (s\<lparr>txack := a\<rparr>))"
    using m by (cases "q_state s") (auto simp: msg_inv_def stateTransition_def)
  ultimately show ?thesis by (auto simp: shard_inv_def)
qed

lemma shard_inv_step:
  assumes "shard_inv b acc (s, w)" "shard_step (log_tx fu fd) ev (s, w) = Return sw'"
    and "b \<longrightarrow> accepted ev s = [] \<or> q_state s \<in> {stateReceiving, stateEOMAcked}"
  shows "shard_inv b (acc @ accepted ev s) sw'"
proof (cases ev)
  case (FromUp spare msg)
  define flags where "flags = be_u16 ((msg @ spare) ! 0) ((msg @ spare) ! 1)"
  note fl = flags_def [symmetric]
  show ?thesis
  proof (cases "\<exists>rm. rm_UnmarshalBinary msg = Inr rm \<and> flags AND flagUnreliable = 0 \<and> flags AND flagData \<noteq> 0")
    case True
    then obtain rm where rm: "rm_UnmarshalBinary msg = Inr rm" "flags AND flagUnreliable = 0" "flags AND flagData \<noteq> 0" by blast
    then have a: "accepted ev s = (if Sequence rm = rxseq s then [rm] else [])" by (simp add: FromUp fl del: One_nat_def)
    from shard_inv_accept [OF assms(1), of rm] assms(3)
    have 1: "shard_inv b (acc @ accepted ev s) (accept_fragment rm s, w)" by (auto simp: a split: if_splits)
    let ?acked = "if q_state (accept_fragment rm s) = stateReceiving \<or> q_state (accept_fragment rm s) = stateEOMAcked
      then sendAck (log_tx fu fd) (accept_fragment rm s, w) else ((accept_fragment rm s, w), None)"
    have 2: "shard_inv b (acc @ accepted ev s) (fst ?acked)"
      using 1 shard_inv_sendAck [OF 1 surjective_pairing] by simp
    have "sw' = fst ?acked \<or> sw' = fst (sendNext (log_tx fu fd) (fst ?acked))"
      using assms(2) by (auto simp: FromUp receiveFromUpstream_def fl rm Let_def simp del: One_nat_def split: if_splits prod.splits option.splits)
    with 2 shard_inv_sendNext [OF 2 surjective_pairing] show ?thesis by blast
  next
    case False
    with assms show ?thesis
      by (auto simp: FromUp receiveFromUpstream_def fl Let_def simp del: One_nat_def split: if_splits sum.splits)
  qed
next
  case (FromDown spare msg)
  with assms show ?thesis
    by (auto simp: receiveFromDownstream_def Let_def split: if_splits sum.splits prod.splits option.splits
        dest: shard_inv_sendAck [OF shard_inv_ack [OF assms(1)]] shard_inv_sendNext [OF shard_inv_ack [OF assms(1)]])
qed

lemma shard_inv_run:
  assumes "shard_inv b acc sw" "shard_run (log_tx fu fd) evs sw = Return (rms, sw')" "b \<longrightarrow> patient (log_tx fu fd) evs sw"
  shows "shard_inv b (acc @ rms) sw'"
  using assms
proof (induction evs arbitrary: acc sw rms)
  case (Cons ev evs)
  from Cons.prems(2) obtain sw1 rms1 where s: "shard_step (log_tx fu fd) ev sw = Return sw1"
    "shard_run (log_tx fu fd) evs sw1 = Return (rms1, sw')" "rms = accepted ev (fst sw) @ rms1"
    by (auto split: outcome.splits)
  have "shard_inv b (acc @ accepted ev (fst sw)) sw1"
    by (rule shard_inv_step [of b acc "fst sw" "snd sw"]) (use Cons.prems s in auto)
  from Cons.IH [OF this s(2)] Cons.prems(3) s show ?case by simp
qed simp

lemma shard_inv_init: "shard_inv b [] (sharder_init, [], [])"
  by (simp add: shard_inv_def data_inv_def msg_inv_def sharder_init_def)

text \<open>The sharder changes the outside world through its callbacks only.\<close>

lemma sharder_world:
  assumes "\<And>b w. P w \<Longrightarrow> P (fst (txUpstream T b w))" "\<And>b w. P w \<Longrightarrow> P (fst (txDownstream T b w))" "P (snd sw)"
  shows "P (snd (fst (sendNext T sw)))" and "P (snd (fst (sendAck T sw)))"
    and "receiveFromUpstream T spare msg sw = Return (sw', r) \<Longrightarrow> P (snd sw')"
    and "receiveFromDownstream T spare msg sw = Return (sw', r) \<Longrightarrow> P (snd sw')"
proof -
  have n: "P (snd (fst (sendNext T x)))" if "P (snd x)" for x
    using that assms(2) by (auto simp: sendNext_def sendDownstream_def Let_def split_beta)
  have a: "P (snd (fst (sendAck T x)))" if "P (snd x)" for x
    using that assms(1) by (auto simp: sendAck_def sendUpstream_def Let_def split_beta)
  show "P (snd (fst (sendNext T sw)))" "P (snd (fst (sendAck T sw)))"
    using n a assms(3) by auto
  show "receiveFromUpstream T spare msg sw = Return (sw', r) \<Longrightarrow> P (snd sw')"
    using assms(3)
    by (auto simp: receiveFromUpstream_def Let_def split_beta intro!: n a split: if_splits sum.splits option.splits)
  show "receiveFromDownstream T spare msg sw = Return (sw', r) \<Longrightarrow> P (snd sw')"
    using assms(3)
    by (auto simp: receiveFromDownstream_def Let_def split_beta intro!: n a split: if_splits sum.splits option.splits)
qed

section \<open>Draining the queue\<close>

abbreviation quiet_tx :: "wires tx" where
  "quiet_tx \<equiv> log_tx (\<lambda>_. None) (\<lambda>_. None)"

definition ack_event :: "u32 \<Rightarrow> shard_event" where
  "ack_event q = FromDown [] (rm_MarshalBinary \<lparr>Flags = flagAck, Sequence = q, rm_Payload = []\<rparr>)"


lemma accepted_ack [simp]: "accepted (ack_event q) s = []"
  by (simp add: ack_event_def)





section \<open>Properties\<close>

text \<open>
  C9. The reliable stream is neither lost, duplicated nor reordered: whatever arrives from both sides, the fragments
  accepted from upstream carry the sequence numbers 0, 1, 2 and so on; the fragments sent downstream do as well, are not
  empty and at most 1024 bytes long with their header, and their contents followed by what is still queued are exactly
  the contents of the accepted fragments.
\<close>

theorem sharder_stream:
  assumes "shard_run (log_tx fu fd) evs (sharder_init, [], []) = Return (acc, s, us, ds)"
  shows "\<exists>sent. ds = map rm_MarshalBinary sent
    \<and> concat (map rm_Payload sent) @ txqueue s = concat (map rm_Payload acc)
    \<and> list_all fragment_ok sent
    \<and> map Sequence sent = map of_nat [0..<length sent] \<and> map Sequence acc = map of_nat [0..<length acc]"
  using shard_inv_run [OF shard_inv_init [of False] assms] by (auto simp: shard_inv_def data_inv_def)

text \<open>
  C32. Message boundaries are kept: if the server sends nothing new while the end of its last message is not yet
  acknowledged, the complete messages in the fragments sent downstream are the complete messages received from
  upstream, except possibly the last one, whose rest is then still in the queue.
\<close>

theorem sharder_messages:
  assumes "shard_run (log_tx fu fd) evs (sharder_init, [], []) = Return (acc, s, us, ds)"
    and "patient (log_tx fu fd) evs (sharder_init, [], [])"
  shows "\<exists>sent. ds = map rm_MarshalBinary sent
    \<and> (if q_state s = stateReceivedEOM
       then fst (msgs_of [] acc) = fst (msgs_of [] sent) @ [snd (msgs_of [] sent) @ txqueue s]
       else fst (msgs_of [] acc) = fst (msgs_of [] sent))"
proof -
  from shard_inv_run [OF shard_inv_init [of True] assms(1)] assms(2)
  obtain sent where "data_inv acc sent s (us, ds)" "msg_inv acc sent s"
    by (auto simp: shard_inv_def)
  then show ?thesis
    by (intro exI [of _ sent], cases "q_state s") (auto simp: data_inv_def msg_inv_def Let_def split_beta)
qed


section \<open>Examples\<close>

definition demo_fragment :: "u16 \<Rightarrow> u32 \<Rightarrow> bytes \<Rightarrow> shard_event" where
  "demo_fragment flags q p = FromUp [] (rm_MarshalBinary \<lparr>Flags = flags, Sequence = q, rm_Payload = p\<rparr>)"

definition demo_shards :: "shard_event list" where
  "demo_shards = [demo_fragment flagData 0 [1, 2], demo_fragment (flagData OR flagEOM) 1 [3], ack_event 0, ack_event 1]"

lemma demo_shards_run:
  "case shard_run quiet_tx demo_shards (sharder_init, [], []) of
     Return (acc, s, us, ds) \<Rightarrow> map rm_Payload acc = [[1, 2], [3]] \<and> fst (msgs_of [] acc) = [[1, 2, 3]] \<and> length ds = 2 \<and> q_state s = stateEOMAcked
   | _ \<Rightarrow> False"
  "patient quiet_tx demo_shards (sharder_init, [], [])"
  by code_simp+

theorem sharder_stream_witness:
  "\<exists>acc s us ds. shard_run quiet_tx demo_shards (sharder_init, [], []) = Return (acc, s, us, ds)
    \<and> (\<exists>sent. ds = map rm_MarshalBinary sent \<and> list_all fragment_ok sent \<and> length sent = 2
        \<and> concat (map rm_Payload sent) @ txqueue s = [1, 2, 3])"
proof -
  from demo_shards_run(1) obtain acc s us ds where r: "shard_run quiet_tx demo_shards (sharder_init, [], []) = Return (acc, s, us, ds)"
    "map rm_Payload acc = [[1, 2], [3]]" "length ds = 2"
    by (auto split: outcome.splits)
  from sharder_stream [OF r(1)] r show ?thesis by force
qed

theorem sharder_messages_witness:
  "\<exists>acc s us ds. shard_run quiet_tx demo_shards (sharder_init, [], []) = Return (acc, s, us, ds)
    \<and> (\<exists>sent. ds = map rm_MarshalBinary sent \<and> fst (msgs_of [] sent) = [[1, 2, 3]])"
proof -
  from demo_shards_run(1) obtain acc s us ds where r: "shard_run quiet_tx demo_shards (sharder_init, [], []) = Return (acc, s, us, ds)"
    "fst (msgs_of [] acc) = [[1, 2, 3]]" "q_state s = stateEOMAcked"
    by (auto split: outcome.splits)
  from sharder_messages [OF r(1) demo_shards_run(2)] r show ?thesis by auto
qed


text \<open>
  A message whose last fragment is empty and arrives after everything before it has been sent and acknowledged is
  never finished: nothing is queued, so no fragment with the end mark is sent, and the last fragment is not acknowledged.
\<close>

lemma empty_eom_stuck:
  "case shard_run quiet_tx [demo_fragment flagData 0 [1, 2], ack_event 0, demo_fragment (flagData OR flagEOM) 1 []] (sharder_init, [], []) of
     Return (acc, s, us, ds) \<Rightarrow> q_state s = stateReceivedEOM \<and> txqueue s = [] \<and> txack s = txseq s \<and> rxack s \<noteq> rxseq s \<and> length ds = 1
   | _ \<Rightarrow> False"
  by code_simp

end
