(* ===== verification/QProxy.thy ===== *)
theory QProxy
  imports Sharder NetIface
begin

text \<open>
  Package \<^verbatim>\<open>qproxy\<close>, the proxy (\<^verbatim>\<open>src/module/qproxy/proxy.go\<close>): a node of the IPX network that stands for a Quake
  server reached over UDP. Each client, identified by its IPX header address, gets a connection with a UDP socket of
  its own.

  UDP and name resolution are operations on a state \<open>'u\<close>. Connections are shared by the proxy and by the goroutine
  that receives on their socket, also after the proxy has forgotten them, so they live in a store with numbered
  entries. IP addresses are numbers, equal if \<^verbatim>\<open>net.IP.Equal\<close> holds.
\<close>

section \<open>State\<close>

definition quakeIPXSocket :: u16 where "quakeIPXSocket = 26000"
definition connectedIPXSocket :: u16 where "connectedIPXSocket = 26001"
definition quakeHeaderBytes :: nat where "quakeHeaderBytes = 4"
definition acceptHeaderMinLen :: nat where "acceptHeaderMinLen = 9"
definition ccRepAccept :: byte where "ccRepAccept = 0x81"

record udpaddr =
  ua_IP :: nat
  ua_Port :: int

record connection =
  c_rs :: sharder
  c_ipxAddr :: HeaderAddr
  c_conn :: int
  c_lastRXTime :: time
  c_connectedPort :: int
  c_ipxSocket :: u16
  c_closed :: bool

record proxy =
  px_idle :: duration
  px_conns :: "(HeaderAddr \<times> nat) list"
  px_store :: "nat \<Rightarrow> connection option"
  px_next :: nat
  px_address :: udpaddr

record ('s, 'u) qenv =
  qe_net :: "'s network"
  qe_node :: int
  udp_resolve :: "'u \<Rightarrow> error + udpaddr"
  udp_listen :: "'u \<Rightarrow> 'u \<times> (error + int)"
  udp_write :: "int \<Rightarrow> bytes \<Rightarrow> udpaddr \<Rightarrow> 'u \<Rightarrow> 'u \<times> error option"
  udp_close :: "int \<Rightarrow> 'u \<Rightarrow> 'u"

record ('s, 'u) qworld =
  w_net :: 's
  w_udp :: 'u

definition qproxy_New :: "duration \<Rightarrow> proxy" where
  "qproxy_New idle = \<lparr>px_idle = idle, px_conns = [], px_store = Map.empty, px_next = 0,
     px_address = \<lparr>ua_IP = 0, ua_Port = 0\<rparr>\<rparr>"

section \<open>Connections\<close>

definition sendToDownstreamSocket ::
  "('s, 'u) qenv \<Rightarrow> env \<Rightarrow> connection \<Rightarrow> bytes \<Rightarrow> u16 \<Rightarrow> ('s, 'u) qworld \<Rightarrow> ('s, 'u) qworld \<times> error option" where
  "sendToDownstreamSocket E e c payload socket w =
     (let pktBytes = replicate quakeHeaderBytes 0 @ payload;
          packet = \<lparr>Header = zeroHeader\<lparr>Length := of_nat (HeaderLength + length pktBytes), Dest := c_ipxAddr c,
              Src := zeroHeaderAddr\<lparr>Addr := NodeAddress (qe_net E) (qe_node E) (w_net w), Socket := socket\<rparr>\<rparr>,
            Payload = pktBytes\<rparr>;
          (s, err) = WritePacket (qe_net E) e (qe_node E) packet (w_net w)
      in (w\<lparr>w_net := s\<rparr>, err))"

definition sendToDownstream ::
  "('s, 'u) qenv \<Rightarrow> env \<Rightarrow> connection \<Rightarrow> bytes \<Rightarrow> ('s, 'u) qworld \<Rightarrow> ('s, 'u) qworld \<times> error option" where
  "sendToDownstream E e c payload w = sendToDownstreamSocket E e c payload (c_ipxSocket c) w"

definition sendToUpstream ::
  "('s, 'u) qenv \<Rightarrow> udpaddr \<Rightarrow> connection \<Rightarrow> bytes \<Rightarrow> ('s, 'u) qworld \<Rightarrow> ('s, 'u) qworld \<times> error option" where
  "sendToUpstream E addr c payload w =
     (if c_connectedPort c < 0 then (w, None)
      else
        let (u, err) = udp_write E (c_conn c) payload \<lparr>ua_IP = ua_IP addr, ua_Port = c_connectedPort c\<rparr> (w_udp w)
        in (w\<lparr>w_udp := u\<rparr>, err))"

definition conn_tx :: "('s, 'u) qenv \<Rightarrow> env \<Rightarrow> udpaddr \<Rightarrow> connection \<Rightarrow> ('s, 'u) qworld tx" where
  "conn_tx E e addr c = \<lparr>txUpstream = sendToUpstream E addr c, txDownstream = sendToDownstream E e c\<rparr>"

text \<open>\<^verbatim>\<open>handleAccept\<close> changes the packet in place; the result has the new packet.\<close>

definition handleAccept ::
  "('s, 'u) qenv \<Rightarrow> udpaddr \<Rightarrow> bytes \<Rightarrow> connection \<Rightarrow> ('s, 'u) qworld \<Rightarrow> bytes \<times> connection \<times> ('s, 'u) qworld" where
  "handleAccept E serverAddr packet c w =
     (if length packet < acceptHeaderMinLen then (packet, c, w)
      else if packet ! 4 \<noteq> ccRepAccept then (packet, c, w)
      else
        let port = uint (packet ! 6) * 256 + uint (packet ! 5);
            c = c\<lparr>c_rs := sharder_init, c_connectedPort := port\<rparr>;
            c = (if port = ua_Port serverAddr then c\<lparr>c_ipxSocket := quakeIPXSocket\<rparr> else c);
            packet = packet[5 := ucast (c_ipxSocket c AND 0xff), 6 := ucast (drop_bit 8 (c_ipxSocket c) AND 0xff)];
            w = (if port \<noteq> ua_Port serverAddr
                 then w\<lparr>w_udp := fst (udp_write E (c_conn c) [] \<lparr>ua_IP = ua_IP serverAddr, ua_Port = port\<rparr> (w_udp w))\<rparr>
                 else w)
        in (packet, c, w))"

text \<open>
  One iteration of \<^verbatim>\<open>receivePackets\<close> for the connection \<open>cid\<close>: \<open>rd\<close> is what the socket returned, \<open>spare\<close> the rest of
  the buffer. The flag says whether the loop goes on.
\<close>

definition put_conn :: "nat \<Rightarrow> connection \<Rightarrow> proxy \<Rightarrow> proxy" where
  "put_conn cid c p = p\<lparr>px_store := (px_store p)(cid \<mapsto> c)\<rparr>"

definition receivePackets_step ::
  "('s, 'u) qenv \<Rightarrow> env \<Rightarrow> bytes \<Rightarrow> error + bytes \<times> udpaddr \<Rightarrow> nat \<Rightarrow> connection \<Rightarrow> proxy \<times> ('s, 'u) qworld
    \<Rightarrow> ((proxy \<times> ('s, 'u) qworld) \<times> bool) outcome" where
  "receivePackets_step E e spare rd cid c pw =
     (let (p, w) = pw
      in if c_closed c then Return (pw, False)
         else case rd of
           Inl err \<Rightarrow> Return (pw, False)
         | Inr (buf, addr) \<Rightarrow>
             if ua_IP addr \<noteq> ua_IP (px_address p) then Return (pw, True)
             else if ua_Port addr = ua_Port (px_address p) then
               (let (buf, c, w) = handleAccept E (px_address p) buf c w;
                    c = c\<lparr>c_lastRXTime := env_clock e 0\<rparr>;
                    (w, _) = sendToDownstreamSocket E e c buf quakeIPXSocket w
                in Return ((put_conn cid c p, w), True))
             else if ua_Port addr = c_connectedPort c then
               (case receiveFromUpstream (conn_tx E e (px_address p) c) spare buf (c_rs c, w) of
                  Return ((rs, w), eaten, err) \<Rightarrow>
                    (let c = c\<lparr>c_rs := rs\<rparr>
                     in if err \<noteq> None \<or> eaten then Return ((put_conn cid c p, w), True)
                        else
                          let c = c\<lparr>c_lastRXTime := env_clock e 0\<rparr>;
                              (w, _) = sendToDownstreamSocket E e c buf (c_ipxSocket c) w
                          in Return ((put_conn cid c p, w), True))
                | Fail err \<Rightarrow> Fail err | Panic \<Rightarrow> Panic)
             else Return (pw, True))"

section \<open>The proxy\<close>

definition newConnection ::
  "('s, 'u) qenv \<Rightarrow> time \<Rightarrow> HeaderAddr \<Rightarrow> proxy \<times> ('s, 'u) qworld \<Rightarrow> (proxy \<times> ('s, 'u) qworld) \<times> (error + nat)" where
  "newConnection E now ipxAddr pw =
     (let (p, w) = pw; (u, r) = udp_listen E (w_udp w); w = w\<lparr>w_udp := u\<rparr>
      in case r of
           Inl err \<Rightarrow> ((p, w), Inl err)
         | Inr sock \<Rightarrow>
             let c = \<lparr>c_rs = sharder_init, c_ipxAddr = ipxAddr, c_conn = sock, c_lastRXTime = now, c_connectedPort = -1,
                      c_ipxSocket = connectedIPXSocket, c_closed = False\<rparr>;
                 cid = px_next p
             in ((p\<lparr>px_conns := AList.update ipxAddr cid (px_conns p), px_store := (px_store p)(cid \<mapsto> c), px_next := cid + 1\<rparr>, w), Inr cid))"

definition closeConnection :: "('s, 'u) qenv \<Rightarrow> HeaderAddr \<Rightarrow> proxy \<times> ('s, 'u) qworld \<Rightarrow> proxy \<times> ('s, 'u) qworld" where
  "closeConnection E addr pw =
     (let (p, w) = pw
      in case map_of (px_conns p) addr of
           None \<Rightarrow> pw
         | Some cid \<Rightarrow>
             (case px_store p cid of
                None \<Rightarrow> pw
              | Some c \<Rightarrow>
                  ((put_conn cid (c\<lparr>c_closed := True\<rparr>) p)\<lparr>px_conns := AList.delete addr (px_conns p)\<rparr>,
                   w\<lparr>w_udp := udp_close E (c_conn c) (w_udp w)\<rparr>)))"

definition resolveAddress :: "('s, 'u) qenv \<Rightarrow> proxy \<times> ('s, 'u) qworld \<Rightarrow> proxy \<times> bool" where
  "resolveAddress E pw =
     (case udp_resolve E (w_udp (snd pw)) of Inl err \<Rightarrow> (fst pw, False) | Inr a \<Rightarrow> ((fst pw)\<lparr>px_address := a\<rparr>, True))"

definition forward_packet ::
  "('s, 'u) qenv \<Rightarrow> time \<Rightarrow> Packet \<Rightarrow> nat \<Rightarrow> proxy \<times> ('s, 'u) qworld \<Rightarrow> (proxy \<times> ('s, 'u) qworld) outcome" where
  "forward_packet E now packet cid pw =
     (let (p, w) = pw
      in case px_store p cid of
           None \<Rightarrow> Panic
         | Some c \<Rightarrow>
             let p = put_conn cid (c\<lparr>c_lastRXTime := now\<rparr>) p
             in if length (Payload packet) < quakeHeaderBytes then Panic
                else
                  let (u, err) = udp_write E (c_conn c) (drop quakeHeaderBytes (Payload packet)) (px_address p) (w_udp w);
                      w = w\<lparr>w_udp := u\<rparr>
                  in (case err of None \<Rightarrow> Return (p, w) | Some er \<Rightarrow> Return (closeConnection E (Src (Header packet)) (p, w))))"

definition qproxy_processPacket ::
  "('s, 'u) qenv \<Rightarrow> env \<Rightarrow> Packet \<Rightarrow> proxy \<times> ('s, 'u) qworld \<Rightarrow> (proxy \<times> ('s, 'u) qworld) outcome" where
  "qproxy_processPacket E e packet pw =
     (let (p, w) = pw;
          (p, ok) = (if length (px_conns p) = 0 then resolveAddress E (p, w) else (p, True))
      in if \<not> ok then Return (p, w)
         else case map_of (px_conns p) (Src (Header packet)) of
           Some cid \<Rightarrow> forward_packet E (env_clock e 1) packet cid (p, w)
         | None \<Rightarrow>
             (case newConnection E (env_clock e 0) (Src (Header packet)) (p, w) of
                (pw', Inl err) \<Rightarrow> Return pw'
              | (pw', Inr cid) \<Rightarrow> forward_packet E (env_clock e 1) packet cid pw'))"

definition processConnectedPacket ::
  "('s, 'u) qenv \<Rightarrow> env \<Rightarrow> bytes \<Rightarrow> Packet \<Rightarrow> proxy \<times> ('s, 'u) qworld \<Rightarrow> (proxy \<times> ('s, 'u) qworld) outcome" where
  "processConnectedPacket E e spare packet pw =
     (let (p, w) = pw; src = Src (Header packet)
      in case map_of (px_conns p) src of
           None \<Rightarrow> Return pw
         | Some cid \<Rightarrow>
             (case px_store p cid of
                None \<Rightarrow> Panic
              | Some c \<Rightarrow>
                  let c = c\<lparr>c_lastRXTime := env_clock e 0\<rparr>
                  in if length (Payload packet) < quakeHeaderBytes then Panic
                     else
                       let msg = drop quakeHeaderBytes (Payload packet)
                       in (case receiveFromDownstream (conn_tx E e (px_address p) c) spare msg (c_rs c, w) of
                             Return ((rs, w), eaten, err) \<Rightarrow>
                               (let c = c\<lparr>c_rs := rs\<rparr>;
                                    (p, w) = (put_conn cid c p, w);
                                    (p, w) = (if err \<noteq> None then closeConnection E src (p, w) else (p, w))
                                in if eaten then Return (p, w)
                                   else
                                     let (w, err) = sendToUpstream E (px_address p) c msg w
                                     in Return (if err \<noteq> None then closeConnection E src (p, w) else (p, w)))
                           | Fail err \<Rightarrow> Fail err | Panic \<Rightarrow> Panic)))"

text \<open>One iteration of \<^verbatim>\<open>garbageCollect\<close>, at the time \<open>now\<close>.\<close>

definition expiredConns :: "time \<Rightarrow> proxy \<Rightarrow> HeaderAddr list" where
  "expiredConns now p =
     map fst (filter (\<lambda>(addr, cid). case px_store p cid of Some c \<Rightarrow> now - c_lastRXTime c > px_idle p | None \<Rightarrow> False) (px_conns p))"

definition garbageCollect_step :: "('s, 'u) qenv \<Rightarrow> time \<Rightarrow> proxy \<times> ('s, 'u) qworld \<Rightarrow> proxy \<times> ('s, 'u) qworld" where
  "garbageCollect_step E now pw = fold (closeConnection E) (expiredConns now (fst pw)) pw"

text \<open>One iteration of \<^verbatim>\<open>Run\<close>, when the node has returned a packet.\<close>

definition qproxy_Run_step ::
  "('s, 'u) qenv \<Rightarrow> env \<Rightarrow> bytes \<Rightarrow> Packet \<Rightarrow> proxy \<times> ('s, 'u) qworld \<Rightarrow> (proxy \<times> ('s, 'u) qworld) outcome" where
  "qproxy_Run_step E e spare packet pw =
     (if Socket (Dest (Header packet)) = quakeIPXSocket then qproxy_processPacket E e packet pw
      else if Socket (Dest (Header packet)) = connectedIPXSocket then processConnectedPacket E e spare packet pw
      else Return pw)"

section \<open>Histories\<close>

datatype proxy_event =
    PxPacket env bytes Packet
  | PxUDP env bytes nat "error + bytes \<times> udpaddr"
  | PxCollect time

fun proxy_step :: "('s, 'u) qenv \<Rightarrow> proxy_event \<Rightarrow> proxy \<times> ('s, 'u) qworld \<Rightarrow> (proxy \<times> ('s, 'u) qworld) outcome" where
  "proxy_step E (PxPacket e spare packet) pw = qproxy_Run_step E e spare packet pw"
| "proxy_step E (PxUDP e spare cid rd) pw =
     (case px_store (fst pw) cid of
        None \<Rightarrow> Return pw
      | Some c \<Rightarrow> (case receivePackets_step E e spare rd cid c pw of Return (pw', _) \<Rightarrow> Return pw' | Fail err \<Rightarrow> Fail err | Panic \<Rightarrow> Panic))"
| "proxy_step E (PxCollect now) pw = Return (garbageCollect_step E now pw)"

fun proxy_run :: "('s, 'u) qenv \<Rightarrow> proxy_event list \<Rightarrow> proxy \<times> ('s, 'u) qworld \<Rightarrow> (proxy \<times> ('s, 'u) qworld) outcome" where
  "proxy_run E [] pw = Return pw"
| "proxy_run E (ev # evs) pw =
     (case proxy_step E ev pw of Return pw' \<Rightarrow> proxy_run E evs pw' | Fail err \<Rightarrow> Fail err | Panic \<Rightarrow> Panic)"

section \<open>Who the proxy talks to\<close>























section \<open>Panics\<close>






section \<open>Properties\<close>



text \<open>A packet to the server socket with a payload of less than four bytes stops the program.\<close>

lemma short_packet_panics:
  assumes "Socket (Dest (Header q)) = quakeIPXSocket" "length (Payload q) < quakeHeaderBytes"
    and "udp_resolve E (w_udp w) = Inr a" "udp_listen E (w_udp w) = (u, Inr sock)"
  shows "proxy_run E [PxPacket e spare q] (qproxy_New idle, w) = Panic"
  using assms
  by (simp add: qproxy_Run_step_def qproxy_processPacket_def qproxy_New_def resolveAddress_def newConnection_def forward_packet_def)

section \<open>Examples\<close>










end
