(* ===== verification/Lcp.thy ===== *)
theory Lcp
  imports Prelude
begin

text \<open>
  Package \<^verbatim>\<open>ppp/lcp\<close> (\<^verbatim>\<open>src/ppp/lcp/lcp.go\<close>, \<^verbatim>\<open>src/ppp/lcp/ipxcp.go\<close>): the messages of the PPP Link Control
  Protocol and of IPXCP, which has the same wire format. Decoding can panic on a malformed option; the
  packet decoder that calls it recovers from panics and drops the layer (\<open>decodeLCP\<close>).
\<close>

section \<open>Messages\<close>

definition MessageTooShort :: error where
  "MessageTooShort = Errorf ''LCP message too short'' []"

type_synonym OptionType = u8
type_synonym MessageType = u8
type_synonym PPPType = u16

definition PPPTypeLCP :: PPPType where "PPPTypeLCP = 0xc021"
definition PPPTypeIPXCP :: PPPType where "PPPTypeIPXCP = 0x802B"
definition OptionMagicNumber :: OptionType where "OptionMagicNumber = 5"
definition OptionIPXNetwork :: OptionType where "OptionIPXNetwork = 1"
definition OptionIPXNode :: OptionType where "OptionIPXNode = 2"

definition ConfigureRequest :: MessageType where "ConfigureRequest = 1"
definition ConfigureAck :: MessageType where "ConfigureAck = 2"
definition ConfigureNak :: MessageType where "ConfigureNak = 3"
definition ConfigureReject :: MessageType where "ConfigureReject = 4"
definition TerminateRequest :: MessageType where "TerminateRequest = 5"
definition TerminateAck :: MessageType where "TerminateAck = 6"
definition ProtocolReject :: MessageType where "ProtocolReject = 8"
definition EchoRequest :: MessageType where "EchoRequest = 9"
definition EchoReply :: MessageType where "EchoReply = 10"
definition DiscardRequest :: MessageType where "DiscardRequest = 11"

lemmas lcp_types = ConfigureRequest_def ConfigureAck_def ConfigureNak_def ConfigureReject_def
  TerminateRequest_def TerminateAck_def ProtocolReject_def EchoRequest_def EchoReply_def DiscardRequest_def

record lcp_option =
  opt_Type :: OptionType
  opt_Data :: bytes

datatype PerTypeData =
    ConfigureData "lcp_option list"
  | TerminateData bytes
  | EchoData u32 bytes
  | ProtocolRejectData PPPType bytes

record LCP =
  lcp_Type :: MessageType
  Identifier :: u8
  lcp_Data :: "PerTypeData option"

section \<open>Decoding\<close>

function ConfigureData_UnmarshalBinary :: "bytes \<Rightarrow> lcp_option list outcome" where
  "ConfigureData_UnmarshalBinary data =
     (if length data = 0 then Return []
      else if length data < 2 then Fail MessageTooShort
      else
        let optType = data ! 0; optLen = unat (data ! 1)
        in if optLen > length data then Fail MessageTooShort
           else if optLen < 2 then Panic
           else case ConfigureData_UnmarshalBinary (drop optLen data) of
                  Return opts \<Rightarrow> Return (\<lparr>opt_Type = optType, opt_Data = go_slice 2 optLen data\<rparr> # opts)
                | Fail e \<Rightarrow> Fail e
                | Panic \<Rightarrow> Panic)"
  by pat_completeness auto
termination
  by (relation "measure length") auto

declare ConfigureData_UnmarshalBinary.simps [simp del]

fun ConfigureData_MarshalBinary :: "lcp_option list \<Rightarrow> bytes" where
  "ConfigureData_MarshalBinary [] = []"
| "ConfigureData_MarshalBinary (opt # opts) =
     [opt_Type opt, of_nat (length (opt_Data opt) + 2)] @ opt_Data opt @ ConfigureData_MarshalBinary opts"

definition TerminateData_UnmarshalBinary :: "bytes \<Rightarrow> PerTypeData outcome" where
  "TerminateData_UnmarshalBinary data = Return (TerminateData data)"

definition EchoData_UnmarshalBinary :: "bytes \<Rightarrow> PerTypeData outcome" where
  "EchoData_UnmarshalBinary data =
     (if length data < 4 then Fail MessageTooShort
      else Return (EchoData (be_u32 (data ! 0) (data ! 1) (data ! 2) (data ! 3)) (drop 4 data)))"

definition ProtocolRejectData_UnmarshalBinary :: "bytes \<Rightarrow> PerTypeData outcome" where
  "ProtocolRejectData_UnmarshalBinary data =
     (if length data < 2 then Fail MessageTooShort
      else Return (ProtocolRejectData (be_u16 (data ! 0) (data ! 1)) (drop 2 data)))"

definition PerTypeData_MarshalBinary :: "PerTypeData \<Rightarrow> bytes" where
  "PerTypeData_MarshalBinary d =
     (case d of
        ConfigureData opts \<Rightarrow> ConfigureData_MarshalBinary opts
      | TerminateData data \<Rightarrow> data
      | EchoData magic data \<Rightarrow> put_be32 magic @ data
      | ProtocolRejectData t data \<Rightarrow> put_be16 t @ data)"

definition map_outcome :: "('a \<Rightarrow> 'b) \<Rightarrow> 'a outcome \<Rightarrow> 'b outcome" where
  "map_outcome f x = (case x of Return a \<Rightarrow> Return (f a) | Fail e \<Rightarrow> Fail e | Panic \<Rightarrow> Panic)"

text \<open>The data of a message, by message type; \<open>None\<close> for types that carry none.\<close>

definition data_UnmarshalBinary :: "MessageType \<Rightarrow> bytes \<Rightarrow> PerTypeData option outcome" where
  "data_UnmarshalBinary t data =
     (if t \<in> {ConfigureRequest, ConfigureAck, ConfigureNak, ConfigureReject}
      then map_outcome (Some \<circ> ConfigureData) (ConfigureData_UnmarshalBinary data)
      else if t \<in> {TerminateRequest, TerminateAck} then map_outcome Some (TerminateData_UnmarshalBinary data)
      else if t \<in> {EchoRequest, EchoReply, DiscardRequest} then map_outcome Some (EchoData_UnmarshalBinary data)
      else if t = ProtocolReject then map_outcome Some (ProtocolRejectData_UnmarshalBinary data)
      else Return None)"

definition LCP_UnmarshalBinary :: "bytes \<Rightarrow> LCP outcome" where
  "LCP_UnmarshalBinary data =
     (if length data < 4 then Fail MessageTooShort
      else if unat (be_u16 (data ! 2) (data ! 3)) > length data then Fail MessageTooShort
      else map_outcome (\<lambda>d. \<lparr>lcp_Type = data ! 0, Identifier = data ! 1, lcp_Data = d\<rparr>)
             (data_UnmarshalBinary (data ! 0) (drop 4 data)))"

definition LCP_MarshalBinary :: "LCP \<Rightarrow> bytes" where
  "LCP_MarshalBinary l =
     (let extraBytes = (case lcp_Data l of None \<Rightarrow> [] | Some d \<Rightarrow> PerTypeData_MarshalBinary d);
          totalLen = length extraBytes + 4
      in [lcp_Type l, Identifier l] @ put_be16 (of_nat totalLen) @ extraBytes)"

text \<open>The decoder registered with the packet library, whose caller recovers from panics.\<close>

definition decodeLCP :: "bytes \<Rightarrow> LCP option" where
  "decodeLCP data = (case LCP_UnmarshalBinary data of Return l \<Rightarrow> Some l | _ \<Rightarrow> None)"

section \<open>Round trips\<close>

lemma map_outcome_Return [simp]: "map_outcome f x = Return b \<longleftrightarrow> (\<exists>a. x = Return a \<and> b = f a)"
  by (cases x) (auto simp: map_outcome_def)

lemma map_outcome_simps [simp]:
  "map_outcome f (Return a) = Return (f a)" "map_outcome f (Fail e) = Fail e" "map_outcome f Panic = Panic"
  by (simp_all add: map_outcome_def)

definition options_ok :: "lcp_option list \<Rightarrow> bool" where
  "options_ok opts \<longleftrightarrow> list_all (\<lambda>opt. length (opt_Data opt) \<le> 253) opts"

lemma ConfigureData_roundtrip:
  "options_ok opts \<Longrightarrow> ConfigureData_UnmarshalBinary (ConfigureData_MarshalBinary opts) = Return opts"
proof (induction opts)
  case Nil
  then show ?case by (subst ConfigureData_UnmarshalBinary.simps) simp
next
  case (Cons opt opts)
  let ?n = "length (opt_Data opt)"
  have n: "unat (of_nat (?n + 2) :: byte) = ?n + 2"
    using Cons.prems by (simp only: unat_of_nat) (simp add: options_ok_def)
  have "ConfigureData_UnmarshalBinary (ConfigureData_MarshalBinary opts) = Return opts"
    using Cons by (simp add: options_ok_def)
  then show ?case
    by (subst ConfigureData_UnmarshalBinary.simps)
      (use n in \<open>simp add: go_slice_def del: of_nat_add\<close>)
qed

lemma ConfigureData_roundtrip':
  "ConfigureData_UnmarshalBinary data = Return opts \<Longrightarrow> ConfigureData_MarshalBinary opts = data \<and> options_ok opts"
proof (induction data arbitrary: opts rule: ConfigureData_UnmarshalBinary.induct)
  case (1 data)
  show ?case
  proof (cases "length data = 0")
    case True
    with 1 show ?thesis by (subst (asm) (2) ConfigureData_UnmarshalBinary.simps) (auto simp: options_ok_def)
  next
    case False
    let ?n = "unat (data ! 1)"
    from False "1.prems" obtain opts' where n: "2 \<le> length data" "?n \<le> length data" "2 \<le> ?n"
      and rest: "ConfigureData_UnmarshalBinary (drop ?n data) = Return opts'"
      and opts: "opts = \<lparr>opt_Type = data ! 0, opt_Data = go_slice 2 ?n data\<rparr> # opts'"
      by (subst (asm) (2) ConfigureData_UnmarshalBinary.simps) (auto simp: Let_def split: if_splits outcome.splits)
    with "1.IH" False have IH: "ConfigureData_MarshalBinary opts' = drop ?n data" "options_ok opts'" by auto
    have "?n \<le> 255" using unat_bounds(1) [of "data ! 1"] by simp
    moreover have "data = [data ! 0, data ! 1] @ go_slice 2 ?n data @ drop ?n data"
    proof -
      obtain a b d where "data = a # b # d" using n(1) by (auto simp: Suc_le_length_iff numeral_eq_Suc)
      moreover obtain k where "?n = Suc (Suc k)" using n(3) by (metis add_2_eq_Suc le_Suc_ex)
      ultimately show ?thesis by (simp add: go_slice_def)
    qed
    ultimately show ?thesis
      using IH n opts by (simp add: options_ok_def word_unat_eq_iff unat_of_nat)
  qed
qed

text \<open>A message whose data is of the kind its type calls for.\<close>

definition lcp_ok :: "LCP \<Rightarrow> bool" where
  "lcp_ok l \<longleftrightarrow>
     (case lcp_Data l of
        Some (ConfigureData opts) \<Rightarrow>
          lcp_Type l \<in> {ConfigureRequest, ConfigureAck, ConfigureNak, ConfigureReject} \<and> options_ok opts
      | Some (TerminateData d) \<Rightarrow> lcp_Type l \<in> {TerminateRequest, TerminateAck}
      | Some (EchoData m d) \<Rightarrow> lcp_Type l \<in> {EchoRequest, EchoReply, DiscardRequest}
      | Some (ProtocolRejectData t d) \<Rightarrow> lcp_Type l = ProtocolReject
      | None \<Rightarrow> lcp_Type l \<notin> {ConfigureRequest, ConfigureAck, ConfigureNak, ConfigureReject, TerminateRequest,
                  TerminateAck, EchoRequest, EchoReply, DiscardRequest, ProtocolReject})
     \<and> length (LCP_MarshalBinary l) \<le> 65535"

lemma data_roundtrip:
  "lcp_ok l \<Longrightarrow> data_UnmarshalBinary (lcp_Type l)
     (case lcp_Data l of None \<Rightarrow> [] | Some d \<Rightarrow> PerTypeData_MarshalBinary d) = Return (lcp_Data l)"
  by (cases "lcp_Data l")
    (auto simp: lcp_ok_def data_UnmarshalBinary_def PerTypeData_MarshalBinary_def TerminateData_UnmarshalBinary_def
      EchoData_UnmarshalBinary_def ProtocolRejectData_UnmarshalBinary_def ConfigureData_roundtrip put_be32_def
      put_be16_def lcp_types split: PerTypeData.splits)

lemma LCP_roundtrip:
  assumes "lcp_ok l"
  shows "LCP_UnmarshalBinary (LCP_MarshalBinary l) = Return l"
proof -
  let ?extra = "case lcp_Data l of None \<Rightarrow> [] | Some d \<Rightarrow> PerTypeData_MarshalBinary d"
  have "unat (of_nat (length ?extra + 4) :: u16) \<le> length ?extra + 4"
    by (simp only: unat_of_nat) simp
  then show ?thesis
    using data_roundtrip [OF assms]
    by (simp add: LCP_UnmarshalBinary_def LCP_MarshalBinary_def Let_def put_be16_def del: of_nat_add of_nat_numeral)
qed

lemma data_roundtrip':
  assumes "data_UnmarshalBinary t data = Return (Some d)"
  shows "PerTypeData_MarshalBinary d = data"
proof -
  have 4: "data = data ! 0 # data ! 1 # data ! 2 # data ! 3 # drop 4 data" if "4 \<le> length data"
    using that by (auto simp: Suc_le_length_iff numeral_eq_Suc)
  have 2: "data = data ! 0 # data ! 1 # drop 2 data" if "2 \<le> length data"
    using that by (auto simp: Suc_le_length_iff numeral_eq_Suc)
  show ?thesis
    using assms 4 2
    by (auto simp: data_UnmarshalBinary_def PerTypeData_MarshalBinary_def TerminateData_UnmarshalBinary_def
        EchoData_UnmarshalBinary_def ProtocolRejectData_UnmarshalBinary_def put_be32_def put_be16_def not_less
        dest: ConfigureData_roundtrip' split: if_splits)
qed

text \<open>
  C40. LCP messages are encoded and decoded without loss: a well-formed message is decoded from its encoding,
  and encoding a decoded message that carries data gives the received bytes back, with the length field
  set to the actual length.
\<close>

theorem lcp_wire_format:
  "(lcp_ok l \<longrightarrow> LCP_UnmarshalBinary (LCP_MarshalBinary l) = Return l)
   \<and> (LCP_UnmarshalBinary d = Return m \<and> lcp_Data m \<noteq> None \<longrightarrow>
        LCP_MarshalBinary m = take 2 d @ put_be16 (of_nat (length d)) @ drop 4 d)"
proof (intro conjI impI)
  assume *: "LCP_UnmarshalBinary d = Return m \<and> lcp_Data m \<noteq> None"
  then have l: "4 \<le> length d" by (auto simp: LCP_UnmarshalBinary_def split: if_splits)
  with * obtain x where x: "data_UnmarshalBinary (d ! 0) (drop 4 d) = Return (Some x)"
    and m: "m = \<lparr>lcp_Type = d ! 0, Identifier = d ! 1, lcp_Data = Some x\<rparr>"
    by (auto simp: LCP_UnmarshalBinary_def split: if_splits)
  have "take 2 d = [d ! 0, d ! 1]" using l by (auto simp: Suc_le_length_iff numeral_eq_Suc)
  moreover have "length d - 4 + 4 = length d" using l by simp
  ultimately show "LCP_MarshalBinary m = take 2 d @ put_be16 (of_nat (length d)) @ drop 4 d"
    by (simp add: LCP_MarshalBinary_def m data_roundtrip' [OF x] Let_def del: of_nat_add)
qed (rule LCP_roundtrip)

text \<open>An option that claims to be shorter than its own header makes the decoder panic.\<close>

lemma lcp_option_panic: "LCP_UnmarshalBinary [1, ident, 0, 6, optType, 1] = Panic"
  by (simp add: LCP_UnmarshalBinary_def data_UnmarshalBinary_def ConfigureRequest_def be_u16_def
      ConfigureData_UnmarshalBinary.simps)

definition demo_lcp :: LCP where
  "demo_lcp = \<lparr>lcp_Type = 1, Identifier = 7, lcp_Data = Some (ConfigureData [\<lparr>opt_Type = 2, opt_Data = [1, 2]\<rparr>])\<rparr>"

theorem lcp_wire_format_witness:
  "LCP_UnmarshalBinary (LCP_MarshalBinary demo_lcp) = Return demo_lcp"
proof -
  have "lcp_ok demo_lcp"
    by (simp add: lcp_ok_def demo_lcp_def options_ok_def ConfigureRequest_def LCP_MarshalBinary_def
        PerTypeData_MarshalBinary_def Let_def)
  then show ?thesis using lcp_wire_format [of demo_lcp] by blast
qed

end
