(* ===== verification/Negotiate.thy ===== *)
theory Negotiate
  imports Lcp Ipx
begin

text \<open>
  Package \<^verbatim>\<open>ppp\<close>, option negotiation (\<^verbatim>\<open>src/ppp/negotiate.go\<close>), with the two negotiators that
  \<^verbatim>\<open>src/ppp/session.go\<close> sets up. The Go maps of options are association lists; the order of the options in a
  message follows the order of the list, which the program leaves to the map iteration.

  \<open>send\<close> is the \<^verbatim>\<open>sendPPP\<close> callback: it takes the encoded message and the state of the channel and returns the
  new state of the channel and an error.
\<close>

section \<open>Options\<close>

datatype validator = NonNegotiable | RequiredOption

record nopt =
  n_value :: "bytes option"
  n_validate :: "validator option"

definition nonNegotiable :: "bytes option \<Rightarrow> bool" where
  "nonNegotiable newValue = False"

definition requiredOption :: "bytes option \<Rightarrow> bool" where
  "requiredOption newValue \<longleftrightarrow> newValue \<noteq> None"

definition validateValue :: "nopt \<Rightarrow> bytes option \<Rightarrow> bool" where
  "validateValue opt newValue =
     (case n_validate opt of
        None \<Rightarrow> True
      | Some v \<Rightarrow>
          if n_value opt = newValue then True
          else (case v of NonNegotiable \<Rightarrow> nonNegotiable newValue | RequiredOption \<Rightarrow> requiredOption newValue))"

type_synonym options = "(OptionType \<times> nopt) list"
type_synonym optvals = "(OptionType \<times> bytes option) list"
type_synonym 'c sender = "bytes \<Rightarrow> 'c \<Rightarrow> 'c \<times> error option"

section \<open>The negotiator\<close>

definition maxConfigureRequests :: nat where
  "maxConfigureRequests = 5"

definition requestTimeout :: duration where
  "requestTimeout = 1 * second"

record negotiator =
  localOptions :: options
  remoteOptions :: options
  localComplete :: bool
  remoteComplete :: bool
  requestSequence :: u8
  requestSendTime :: time
  n_err :: "error option"

definition neg_sendPacket :: "'c sender \<Rightarrow> LCP \<Rightarrow> negotiator \<times> 'c \<Rightarrow> negotiator \<times> 'c" where
  "neg_sendPacket send l nc =
     (let (n, c) = nc; (c', err) = send (LCP_MarshalBinary l) c
      in (case err of None \<Rightarrow> n | Some e \<Rightarrow> n\<lparr>n_err := Some e\<rparr>, c'))"

text \<open>The values a request asks for: nil for an option it does not mention, the last one if it mentions it twice.\<close>

definition newValues :: "options \<Rightarrow> lcp_option list \<Rightarrow> optvals" where
  "newValues remote opts =
     fold (\<lambda>opt. AList.update (opt_Type opt) (Some (opt_Data opt))) opts (map (\<lambda>(ot, _). (ot, None)) remote)"

definition suggested :: "options \<Rightarrow> OptionType \<Rightarrow> lcp_option" where
  "suggested remote ot = \<lparr>opt_Type = ot,
     opt_Data = (case map_of remote ot of Some opt \<Rightarrow> (case n_value opt of Some v \<Rightarrow> v | None \<Rightarrow> []) | None \<Rightarrow> [])\<rparr>"

definition set_values :: "optvals \<Rightarrow> options \<Rightarrow> options" where
  "set_values vs opts = map (\<lambda>(ot, opt). (ot, case map_of vs ot of None \<Rightarrow> opt | Some v \<Rightarrow> opt\<lparr>n_value := v\<rparr>)) opts"

definition handleConfigureRequest ::
  "'c sender \<Rightarrow> u8 \<Rightarrow> lcp_option list \<Rightarrow> negotiator \<times> 'c \<Rightarrow> negotiator \<times> 'c" where
  "handleConfigureRequest send ident opts nc =
     (let (n, c) = nc; remote = remoteOptions n;
          unknownOpts = filter (\<lambda>opt. map_of remote (opt_Type opt) = None) opts
      in if length unknownOpts > 0
         then neg_sendPacket send
                \<lparr>lcp_Type = ConfigureReject, Identifier = ident, lcp_Data = Some (ConfigureData unknownOpts)\<rparr> (n, c)
         else
           let nv = newValues remote opts;
               badOpts = map fst (filter (\<lambda>(ot, value). \<not> validateValue (the (map_of remote ot)) value) nv)
           in if length badOpts > 0
              then
                let replyOpts =
                      map (\<lambda>opt. suggested remote (opt_Type opt)) (filter (\<lambda>opt. opt_Type opt \<in> set badOpts) opts)
                      @ map (suggested remote) (filter (\<lambda>ot. map_of nv ot = Some None) badOpts)
                in neg_sendPacket send
                     \<lparr>lcp_Type = ConfigureNak, Identifier = ident, lcp_Data = Some (ConfigureData replyOpts)\<rparr> (n, c)
              else
                neg_sendPacket send
                  \<lparr>lcp_Type = ConfigureAck, Identifier = ident, lcp_Data = Some (ConfigureData opts)\<rparr>
                  (n\<lparr>remoteOptions := set_values nv remote, remoteComplete := True\<rparr>, c))"

definition sendConfigureRequest :: "'c sender \<Rightarrow> time \<Rightarrow> negotiator \<times> 'c \<Rightarrow> negotiator \<times> 'c" where
  "sendConfigureRequest send now nc =
     (let (n, c) = nc;
          opts = List.map_filter (\<lambda>(ot, opt). map_option (\<lambda>v. \<lparr>opt_Type = ot, opt_Data = v\<rparr>) (n_value opt)) (localOptions n);
          (n, c) = neg_sendPacket send
            \<lparr>lcp_Type = ConfigureRequest, Identifier = requestSequence n, lcp_Data = Some (ConfigureData opts)\<rparr> (n, c)
      in (n\<lparr>requestSequence := requestSequence n + 1, requestSendTime := now\<rparr>, c))"

definition applyNewValues :: "'c sender \<Rightarrow> time \<Rightarrow> optvals \<Rightarrow> negotiator \<times> 'c \<Rightarrow> negotiator \<times> 'c" where
  "applyNewValues send now vs nc =
     (let (n, c) = nc;
          unknownOpts = filter (\<lambda>(ot, _). map_of (localOptions n) ot = None) vs;
          rejectedOpts = filter (\<lambda>(ot, value). case map_of (localOptions n) ot of None \<Rightarrow> False
                                  | Some opt \<Rightarrow> \<not> validateValue opt value) vs
      in if length unknownOpts > 0
         then (n\<lparr>n_err := Some (Errorf ''peer requested unrecognized options'' (map (uint \<circ> fst) unknownOpts))\<rparr>, c)
         else if length rejectedOpts > 0
         then (n\<lparr>n_err := Some (Errorf ''peer wanted unacceptable option values'' (map (uint \<circ> fst) rejectedOpts))\<rparr>, c)
         else sendConfigureRequest send now (n\<lparr>localOptions := set_values vs (localOptions n)\<rparr>, c))"

definition handleConfigureReject ::
  "'c sender \<Rightarrow> time \<Rightarrow> lcp_option list \<Rightarrow> negotiator \<times> 'c \<Rightarrow> negotiator \<times> 'c" where
  "handleConfigureReject send now opts nc =
     applyNewValues send now (fold (\<lambda>opt. AList.update (opt_Type opt) None) opts []) nc"

definition handleConfigureNak ::
  "'c sender \<Rightarrow> time \<Rightarrow> lcp_option list \<Rightarrow> negotiator \<times> 'c \<Rightarrow> negotiator \<times> 'c" where
  "handleConfigureNak send now opts nc =
     applyNewValues send now (fold (\<lambda>opt. AList.update (opt_Type opt) (Some (opt_Data opt))) opts []) nc"

text \<open>
  A received packet is given as its LCP layer, if it has one. The type assertion on the data of a
  Configure message panics if the data is of another kind.
\<close>

definition neg_RecvPacket :: "'c sender \<Rightarrow> time \<Rightarrow> LCP option \<Rightarrow> negotiator \<times> 'c \<Rightarrow> (negotiator \<times> 'c) outcome" where
  "neg_RecvPacket send now pkt nc =
     (if n_err (fst nc) \<noteq> None then Return nc
      else
        case pkt of
          None \<Rightarrow> Return nc
        | Some l \<Rightarrow>
            if lcp_Type l = ConfigureAck then Return ((fst nc)\<lparr>localComplete := True\<rparr>, snd nc)
            else if lcp_Type l \<in> {ConfigureRequest, ConfigureNak, ConfigureReject} then
              (case lcp_Data l of
                 Some (ConfigureData opts) \<Rightarrow>
                   Return (if lcp_Type l = ConfigureRequest then handleConfigureRequest send (Identifier l) opts nc
                           else if lcp_Type l = ConfigureNak then handleConfigureNak send now opts nc
                           else handleConfigureReject send now opts nc)
               | _ \<Rightarrow> Panic)
            else Return nc)"

text \<open>\<open>clock 0\<close> is the time the timeout is checked against, \<open>clock 1\<close> the time recorded with a request.\<close>

definition maybeSendRequest :: "'c sender \<Rightarrow> (nat \<Rightarrow> time) \<Rightarrow> negotiator \<times> 'c \<Rightarrow> negotiator \<times> 'c" where
  "maybeSendRequest send clock nc =
     (let (n, c) = nc
      in if clock 0 < requestSendTime n + requestTimeout then (n, c)
         else if unat (requestSequence n) \<ge> maxConfigureRequests + 1
         then (n\<lparr>n_err := Some (Errorf ''failed to negotiate after sending Configure-Requests'' [5])\<rparr>, c)
         else sendConfigureRequest send (clock 1) (n, c))"

definition StartNegotiation :: "negotiator \<Rightarrow> negotiator" where
  "StartNegotiation n = n\<lparr>requestSequence := 1, n_err := None\<rparr>"

text \<open>One iteration of the loop of \<^verbatim>\<open>StartNegotiation\<close>; the flag says whether the loop ends.\<close>

definition negotiation_step :: "'c sender \<Rightarrow> (nat \<Rightarrow> time) \<Rightarrow> negotiator \<times> 'c \<Rightarrow> (negotiator \<times> 'c) \<times> bool" where
  "negotiation_step send clock nc =
     (let dn = localComplete (fst nc) \<or> n_err (fst nc) \<noteq> None
      in (if \<not> dn then maybeSendRequest send clock nc else nc, dn))"

definition neg_Done :: "negotiator \<Rightarrow> bool \<times> error option" where
  "neg_Done n = (localComplete n \<and> remoteComplete n \<or> n_err n \<noteq> None, n_err n)"

definition new_negotiator :: "options \<Rightarrow> options \<Rightarrow> negotiator" where
  "new_negotiator loc rem = \<lparr>localOptions = loc, remoteOptions = rem, localComplete = False, remoteComplete = False,
     requestSequence = 0, requestSendTime = 0, n_err = None\<rparr>"

text \<open>The negotiators for LCP and for IPXCP.\<close>

definition lcp_negotiator :: "bytes \<Rightarrow> negotiator" where
  "lcp_negotiator magicNumber = new_negotiator
     [(OptionMagicNumber, \<lparr>n_value = Some magicNumber, n_validate = Some NonNegotiable\<rparr>)]
     [(OptionMagicNumber, \<lparr>n_value = Some [0, 0, 0, 0], n_validate = Some RequiredOption\<rparr>)]"

definition ipx_negotiator :: "addr \<Rightarrow> negotiator" where
  "ipx_negotiator a = new_negotiator
     [(OptionIPXNetwork, \<lparr>n_value = Some [0, 0, 0, 0], n_validate = None\<rparr>),
      (OptionIPXNode, \<lparr>n_value = Some [0, 0, 0, 0, 0, 0], n_validate = None\<rparr>)]
     [(OptionIPXNode, \<lparr>n_value = Some (addr_bytes a), n_validate = Some NonNegotiable\<rparr>)]"

section \<open>Histories\<close>

datatype neg_event = NegRecv time "LCP option" | NegTick "nat \<Rightarrow> time"

fun neg_step :: "'c sender \<Rightarrow> neg_event \<Rightarrow> negotiator \<times> 'c \<Rightarrow> (negotiator \<times> 'c) outcome" where
  "neg_step send (NegRecv now pkt) nc = neg_RecvPacket send now pkt nc"
| "neg_step send (NegTick clock) nc = Return (fst (negotiation_step send clock nc))"

fun neg_run :: "'c sender \<Rightarrow> neg_event list \<Rightarrow> negotiator \<times> 'c \<Rightarrow> (negotiator \<times> 'c) outcome" where
  "neg_run send [] nc = Return nc"
| "neg_run send (e # es) nc =
     (case neg_step send e nc of Return nc' \<Rightarrow> neg_run send es nc' | Fail err \<Rightarrow> Fail err | Panic \<Rightarrow> Panic)"

text \<open>A channel that records what is sent; \<open>f\<close> says which writes fail.\<close>

definition log_send :: "(bytes \<Rightarrow> error option) \<Rightarrow> bytes list sender" where
  "log_send f b log = (log @ [b], f b)"

lemma neg_sendPacket_log:
  "neg_sendPacket (log_send f) l (n, log) =
     (case f (LCP_MarshalBinary l) of None \<Rightarrow> n | Some e \<Rightarrow> n\<lparr>n_err := Some e\<rparr>, log @ [LCP_MarshalBinary l])"
  by (simp add: neg_sendPacket_def log_send_def)

section \<open>The server's choice of address stands\<close>

text \<open>The invariant: the only remote option is the node address, with its value, and every acknowledgement
  in the log is one for that address.\<close>

definition ack_ok :: "addr \<Rightarrow> bytes \<Rightarrow> bool" where
  "ack_ok a b \<longleftrightarrow> (\<exists>l. b = LCP_MarshalBinary l \<and>
     (lcp_Type l = ConfigureAck \<longrightarrow>
       (\<exists>opts. lcp_Data l = Some (ConfigureData (opts @ [\<lparr>opt_Type = OptionIPXNode, opt_Data = addr_bytes a\<rparr>]))
          \<and> list_all (\<lambda>opt. opt_Type opt = OptionIPXNode) opts)))"

definition node_option :: "addr \<Rightarrow> options" where
  "node_option a = [(OptionIPXNode, \<lparr>n_value = Some (addr_bytes a), n_validate = Some NonNegotiable\<rparr>)]"

definition ipx_inv :: "addr \<Rightarrow> negotiator \<times> bytes list \<Rightarrow> bool" where
  "ipx_inv a nc \<longleftrightarrow> remoteOptions (fst nc) = node_option a \<and> list_all (ack_ok a) (snd nc)
     \<and> (remoteComplete (fst nc) \<longrightarrow> (\<exists>b \<in> set (snd nc). \<exists>l. b = LCP_MarshalBinary l \<and> lcp_Type l = ConfigureAck))"

lemma newValues_node:
  assumes "list_all (\<lambda>opt. opt_Type opt = OptionIPXNode) opts"
  shows "newValues (node_option a) opts = [(OptionIPXNode, if opts = [] then None else Some (opt_Data (last opts)))]"
proof -
  have "fold (\<lambda>opt. AList.update (opt_Type opt) (Some (opt_Data opt))) opts [(OptionIPXNode, v)]
      = [(OptionIPXNode, if opts = [] then v else Some (opt_Data (last opts)))]" for v
    using assms by (induction opts arbitrary: v) auto
  then show ?thesis by (simp add: newValues_def node_option_def)
qed

lemma ipx_inv_send:
  "ipx_inv a (n, log) \<Longrightarrow> lcp_Type l \<noteq> ConfigureAck \<Longrightarrow> ipx_inv a (neg_sendPacket (log_send f) l (n, log))"
  by (auto simp: ipx_inv_def neg_sendPacket_log ack_ok_def split: option.splits)

lemma ipx_inv_local [simp]:
  "ipx_inv a (n\<lparr>n_err := e\<rparr>, log) = ipx_inv a (n, log)"
  "ipx_inv a (n\<lparr>localComplete := b\<rparr>, log) = ipx_inv a (n, log)"
  "ipx_inv a (n\<lparr>localOptions := opts\<rparr>, log) = ipx_inv a (n, log)"
  "ipx_inv a (n\<lparr>requestSequence := q, requestSendTime := t\<rparr>, log) = ipx_inv a (n, log)"
  by (simp_all add: ipx_inv_def)

lemma validate_node:
  "validateValue (the (map_of (node_option a) OptionIPXNode)) v \<longleftrightarrow> v = Some (addr_bytes a)"
  by (auto simp: validateValue_def node_option_def nonNegotiable_def)

lemma ipx_inv_request:
  assumes "ipx_inv a nc"
  shows "ipx_inv a (handleConfigureRequest (log_send f) ident opts nc)"
proof -
  obtain n log where nc: "nc = (n, log)" by (rule prod.exhaust)
  have r: "remoteOptions n = node_option a" using assms by (simp add: nc ipx_inv_def)
  show ?thesis
  proof (cases "list_all (\<lambda>opt. opt_Type opt = OptionIPXNode) opts")
    case False
    then have "filter (\<lambda>opt. map_of (node_option a) (opt_Type opt) = None) opts \<noteq> []"
      by (auto simp: node_option_def filter_empty_conv list_all_iff)
    with assms show ?thesis
      by (simp add: handleConfigureRequest_def nc r Let_def ipx_inv_send ConfigureAck_def ConfigureReject_def)
  next
    case True
    then have unk: "filter (\<lambda>opt. map_of (node_option a) (opt_Type opt) = None) opts = []"
      by (auto simp: node_option_def list_all_iff)
    note nv = newValues_node [OF True, of a]
    show ?thesis
    proof (cases "opts \<noteq> [] \<and> opt_Data (last opts) = addr_bytes a")
      case good: True
      then have sv: "set_values [(OptionIPXNode, Some (addr_bytes a))] (node_option a) = node_option a"
        by (simp add: set_values_def node_option_def)
      have last: "last opts = \<lparr>opt_Type = OptionIPXNode, opt_Data = addr_bytes a\<rparr>"
        using True good by (auto simp: list_all_iff intro!: lcp_option.equality)
      let ?l = "\<lparr>lcp_Type = ConfigureAck, Identifier = ident, lcp_Data = Some (ConfigureData opts)\<rparr>"
      have "handleConfigureRequest (log_send f) ident opts nc
        = neg_sendPacket (log_send f) ?l (n\<lparr>remoteOptions := node_option a, remoteComplete := True\<rparr>, log)"
        using good by (simp add: handleConfigureRequest_def nc r Let_def unk nv sv validate_node)
      moreover have "ack_ok a (LCP_MarshalBinary ?l)"
      proof -
        have "opts = butlast opts @ [\<lparr>opt_Type = OptionIPXNode, opt_Data = addr_bytes a\<rparr>]"
          using good last by (metis append_butlast_last_id)
        moreover have "list_all (\<lambda>opt. opt_Type opt = OptionIPXNode) (butlast opts)"
          using True by (auto simp: list_all_iff dest: in_set_butlastD)
        ultimately show ?thesis
          unfolding ack_ok_def by (intro exI [of _ ?l]) auto
      qed
      ultimately show ?thesis
        using assms by (auto simp: ipx_inv_def neg_sendPacket_log nc split: option.splits)
    next
      case False
      then have "(if opts = [] then None else Some (opt_Data (last opts))) \<noteq> Some (addr_bytes a)" by auto
      with assms show ?thesis
        unfolding handleConfigureRequest_def nc r Let_def unk nv prod.case
        by (simp add: r unk nv validate_node ipx_inv_send ConfigureAck_def ConfigureNak_def)
    qed
  qed
qed

lemma ipx_inv_sendRequest: "ipx_inv a nc \<Longrightarrow> ipx_inv a (sendConfigureRequest (log_send f) now nc)"
proof -
  obtain n log where nc: "nc = (n, log)" by (rule prod.exhaust)
  assume "ipx_inv a nc"
  then show ?thesis
    by (simp add: nc sendConfigureRequest_def Let_def split_beta ipx_inv_send ConfigureAck_def ConfigureRequest_def)
qed

lemma ipx_inv_apply: "ipx_inv a nc \<Longrightarrow> ipx_inv a (applyNewValues (log_send f) now vs nc)"
  by (cases nc) (simp add: applyNewValues_def Let_def ipx_inv_sendRequest)

lemma ipx_inv_step:
  assumes "ipx_inv a nc" "neg_step (log_send f) e nc = Return nc'"
  shows "ipx_inv a nc'"
proof (cases e)
  case (NegRecv now pkt)
  with assms show ?thesis
    by (cases nc)
      (auto simp: neg_RecvPacket_def handleConfigureNak_def handleConfigureReject_def
        ipx_inv_request ipx_inv_apply split: if_splits option.splits PerTypeData.splits)
next
  case (NegTick clock)
  with assms show ?thesis
    by (cases nc) (auto simp: negotiation_step_def maybeSendRequest_def Let_def ipx_inv_sendRequest)
qed

lemma ipx_inv_run: "ipx_inv a nc \<Longrightarrow> neg_run (log_send f) es nc = Return nc' \<Longrightarrow> ipx_inv a nc'"
  by (induction es arbitrary: nc) (auto split: outcome.splits intro: ipx_inv_step)

text \<open>
  C23. A client cannot choose its own address. Whatever it sends during IPXCP negotiation, in whatever order
  and with whatever write errors: every Configure-Ack the server sends acknowledges only the node-address option,
  finally with the address of the server's node; and if the negotiation completes without error, such an
  Ack has been sent and the address on record is that of the node.
\<close>

theorem address_not_negotiable:
  assumes "neg_run (log_send f) es (StartNegotiation (ipx_negotiator a), []) = Return (n, log)"
  shows "list_all (ack_ok a) log
    \<and> (neg_Done n = (True, None) \<longrightarrow>
        map_option n_value (map_of (remoteOptions n) OptionIPXNode) = Some (Some (addr_bytes a))
        \<and> (\<exists>b \<in> set log. \<exists>l. b = LCP_MarshalBinary l \<and> lcp_Type l = ConfigureAck))"
proof -
  have "ipx_inv a (StartNegotiation (ipx_negotiator a), [])"
    by (simp add: ipx_inv_def StartNegotiation_def ipx_negotiator_def new_negotiator_def node_option_def)
  from ipx_inv_run [OF this assms] show ?thesis
    by (auto simp: ipx_inv_def neg_Done_def node_option_def)
qed

section \<open>A silent peer\<close>






section \<open>Witnesses\<close>

definition demo_node :: addr where
  "demo_node = MkAddr 2 0 0 0 0 9"

definition demo_request :: LCP where
  "demo_request = \<lparr>lcp_Type = ConfigureRequest, Identifier = 3,
     lcp_Data = Some (ConfigureData [\<lparr>opt_Type = OptionIPXNode, opt_Data = addr_bytes demo_node\<rparr>])\<rparr>"

definition demo_ack :: LCP where
  "demo_ack = \<lparr>lcp_Type = ConfigureAck, Identifier = 1, lcp_Data = Some (ConfigureData [])\<rparr>"

lemma demo_negotiation:
  "\<exists>n log. neg_run (log_send (\<lambda>_. None)) [NegRecv 0 (Some demo_request), NegRecv 0 (Some demo_ack)]
      (StartNegotiation (ipx_negotiator demo_node), []) = Return (n, log) \<and> neg_Done n = (True, None)"
proof -
  let ?n = "StartNegotiation (ipx_negotiator demo_node)"
  have r: "remoteOptions ?n = node_option demo_node" "n_err ?n = None"
    by (simp_all add: StartNegotiation_def ipx_negotiator_def new_negotiator_def node_option_def)
  have nv: "newValues (node_option demo_node) [\<lparr>opt_Type = OptionIPXNode, opt_Data = addr_bytes demo_node\<rparr>]
      = [(OptionIPXNode, Some (addr_bytes demo_node))]"
    by (simp add: newValues_node)
  have "handleConfigureRequest (log_send (\<lambda>_. None)) 3 [\<lparr>opt_Type = OptionIPXNode, opt_Data = addr_bytes demo_node\<rparr>] (?n, [])
      = (?n\<lparr>remoteOptions := set_values [(OptionIPXNode, Some (addr_bytes demo_node))] (node_option demo_node), remoteComplete := True\<rparr>,
         [LCP_MarshalBinary \<lparr>lcp_Type = ConfigureAck, Identifier = 3,
            lcp_Data = Some (ConfigureData [\<lparr>opt_Type = OptionIPXNode, opt_Data = addr_bytes demo_node\<rparr>])\<rparr>])"
    unfolding handleConfigureRequest_def Let_def prod.case r nv
    by (simp add: validate_node neg_sendPacket_log) (simp add: node_option_def)
  then show ?thesis
    by (simp add: neg_RecvPacket_def r demo_request_def demo_ack_def lcp_types neg_Done_def)
qed

theorem address_not_negotiable_witness:
  "\<exists>n log. neg_run (log_send (\<lambda>_. None)) [NegRecv 0 (Some demo_request), NegRecv 0 (Some demo_ack)]
      (StartNegotiation (ipx_negotiator demo_node), []) = Return (n, log)
    \<and> (\<exists>b \<in> set log. \<exists>l. b = LCP_MarshalBinary l \<and> lcp_Type l = ConfigureAck)"
proof -
  obtain n log where run: "neg_run (log_send (\<lambda>_. None)) [NegRecv 0 (Some demo_request), NegRecv 0 (Some demo_ack)]
      (StartNegotiation (ipx_negotiator demo_node), []) = Return (n, log)" and "neg_Done n = (True, None)"
    using demo_negotiation by blast
  with address_not_negotiable [OF run] have "\<exists>b \<in> set log. \<exists>l. b = LCP_MarshalBinary l \<and> lcp_Type l = ConfigureAck" by blast
  with run show ?thesis by blast
qed




end
