(* ===== verification/Session.thy ===== *)
theory Session
  imports Negotiate NetIface
begin

text \<open>
  Package \<^verbatim>\<open>ppp\<close>, sessions (\<^verbatim>\<open>src/ppp/session.go\<close>): a PPP link between a client, reached through a channel, and a
  node of the network.

  PPP framing is done by the packet library: \<open>ppp_encode\<close> and \<open>ppp_decode\<close> stand for it. The library calls
  \<^verbatim>\<open>decodeLCP\<close> on the payload of LCP and IPXCP frames. The channel is given by its \<^verbatim>\<open>Write\<close> and \<^verbatim>\<open>Close\<close>; what
  a \<^verbatim>\<open>Read\<close> on it returns is an argument of the operation that reads.

  The main goroutine (\<^verbatim>\<open>doRun\<close>), the sender (\<^verbatim>\<open>sendPackets\<close>) and the request loops of the two negotiators run
  concurrently; a history is a list of events, each of which is one iteration of one of their loops.
\<close>

section \<open>State\<close>

definition PPPTypeIPX :: PPPType where
  "PPPTypeIPX = 0x002b"

definition supportedProtocols :: "PPPType \<Rightarrow> bool" where
  "supportedProtocols t \<longleftrightarrow> t \<in> {PPPTypeIPX, PPPTypeIPXCP, PPPTypeLCP}"

datatype linkState = stateDead | stateEstablish | stateAuthenticate | stateNetwork | stateTerminate

record session =
  s_node :: int
  s_state :: linkState
  s_negotiators :: "PPPType \<rightharpoonup> negotiator"
  numProtocolRejects :: u8
  magicNumber :: u32
  terminateError :: "error option"

record 'c channel =
  cWrite :: "bytes \<Rightarrow> 'c \<Rightarrow> 'c \<times> error option"
  cClose :: "'c \<Rightarrow> 'c \<times> error option"

text \<open>What a session is connected to, and the state of a session and of everything it acts on.\<close>

record ('s, 'c) penv =
  pe_net :: "'s network"
  pe_chan :: "'c channel"
  ppp_encode :: "PPPType \<Rightarrow> bytes \<Rightarrow> bytes"
  ppp_decode :: "bytes \<Rightarrow> (PPPType \<times> bytes) option"

record ('s, 'c) pworld =
  p_sess :: session
  p_net :: 's
  p_chan :: 'c

definition NewSession :: "int \<Rightarrow> session" where
  "NewSession node = \<lparr>s_node = node, s_state = stateEstablish, s_negotiators = Map.empty, numProtocolRejects = 0,
     magicNumber = 0, terminateError = None\<rparr>"

section \<open>Operations\<close>

definition session_Close :: "('s, 'c) penv \<Rightarrow> ('s, 'c) pworld \<Rightarrow> ('s, 'c) pworld \<times> error option" where
  "session_Close E w =
     (let (s', _) = Close (pe_net E) (s_node (p_sess w)) (p_net w);
          (c', err) = cClose (pe_chan E) (p_chan w)
      in (w\<lparr>p_net := s', p_chan := c'\<rparr>, err))"

definition sendPPP :: "('s, 'c) penv \<Rightarrow> PPPType \<Rightarrow> bytes \<Rightarrow> 'c \<Rightarrow> 'c \<times> error option" where
  "sendPPP E t payload c = cWrite (pe_chan E) (ppp_encode E t payload) c"

definition sendLCP :: "('s, 'c) penv \<Rightarrow> LCP \<Rightarrow> ('s, 'c) pworld \<Rightarrow> ('s, 'c) pworld \<times> error option" where
  "sendLCP E l w =
     (let (c', err) = sendPPP E PPPTypeLCP (LCP_MarshalBinary l) (p_chan w) in (w\<lparr>p_chan := c'\<rparr>, err))"

definition Terminated :: "session \<Rightarrow> bool" where
  "Terminated s \<longleftrightarrow> s_state s = stateTerminate \<or> s_state s = stateDead"

definition setState :: "linkState \<Rightarrow> session \<Rightarrow> session \<times> bool" where
  "setState st s = (if s_state s = st then (s, False) else (s\<lparr>s_state := st\<rparr>, True))"

text \<open>\<open>msg\<close> is the text of the error, empty for a nil error.\<close>

definition Terminate :: "('s, 'c) penv \<Rightarrow> error option \<Rightarrow> bytes \<Rightarrow> ('s, 'c) pworld \<Rightarrow> ('s, 'c) pworld" where
  "Terminate E err msg w =
     (let (s, changed) = setState stateTerminate (p_sess w)
      in if \<not> changed then w
         else
           let w = w\<lparr>p_sess := s\<rparr>;
               (w, _) = sendLCP E \<lparr>lcp_Type = TerminateRequest, Identifier = 0, lcp_Data = Some (TerminateData msg)\<rparr> w;
               (w, _) = session_Close E w
           in w\<lparr>p_sess := (p_sess w)\<lparr>terminateError := err\<rparr>\<rparr>)"

text \<open>The result is true if the message was handled; the type assertion on a Protocol-Reject can panic.\<close>

definition handleLCP :: "('s, 'c) penv \<Rightarrow> bytes \<Rightarrow> LCP \<Rightarrow> ('s, 'c) pworld \<Rightarrow> (('s, 'c) pworld \<times> bool) outcome" where
  "handleLCP E msg l w =
     (if lcp_Type l = TerminateRequest then
        (let (w, _) = sendLCP E \<lparr>lcp_Type = TerminateAck, Identifier = Identifier l, lcp_Data = None\<rparr> w;
             (w, _) = session_Close E w
         in Return (w, True))
      else if lcp_Type l = ProtocolReject then
        (case lcp_Data l of
           Some (ProtocolRejectData t d) \<Rightarrow>
             Return (Terminate E (Some (Errorf ''protocol must be supported to use this server'' [uint t])) msg w, True)
         | _ \<Rightarrow> Panic)
      else if lcp_Type l = EchoRequest then
        Return (fst (sendLCP E \<lparr>lcp_Type = EchoReply, Identifier = Identifier l,
                                lcp_Data = Some (EchoData (magicNumber (p_sess w)) [])\<rparr> w), True)
      else Return (w, False))"

text \<open>The LCP layer of a frame.\<close>

definition lcp_layer :: "PPPType \<Rightarrow> bytes \<Rightarrow> LCP option" where
  "lcp_layer t payload = (if t \<in> {PPPTypeLCP, PPPTypeIPXCP} then decodeLCP payload else None)"

definition deliver_lcp :: "('s, 'c) penv \<Rightarrow> time \<Rightarrow> PPPType \<Rightarrow> LCP option \<Rightarrow> ('s, 'c) pworld \<Rightarrow> ('s, 'c) pworld outcome" where
  "deliver_lcp E now t pkt w =
     (case s_negotiators (p_sess w) t of
        None \<Rightarrow> Return w
      | Some n \<Rightarrow>
          map_outcome (\<lambda>(n', c'). w\<lparr>p_sess := (p_sess w)\<lparr>s_negotiators := (s_negotiators (p_sess w))(t \<mapsto> n')\<rparr>, p_chan := c'\<rparr>)
            (neg_RecvPacket (sendPPP E t) now pkt (n, p_chan w)))"

text \<open>\<open>rd\<close> is what the read on the channel returned; \<open>msg\<close> the text of the error of a Protocol-Reject.\<close>

definition recvAndProcess ::
  "('s, 'c) penv \<Rightarrow> env \<Rightarrow> time \<Rightarrow> bytes \<Rightarrow> error + bytes \<Rightarrow> ('s, 'c) pworld \<Rightarrow> (('s, 'c) pworld \<times> error option) outcome" where
  "recvAndProcess E e now msg rd w =
     (case rd of
        Inl err \<Rightarrow> Return (w, Some err)
      | Inr frame \<Rightarrow>
          (case ppp_decode E frame of
             None \<Rightarrow> Return (w, None)
           | Some (t, payload) \<Rightarrow>
               if \<not> supportedProtocols t then
                 (let (w, _) = sendLCP E \<lparr>lcp_Type = ProtocolReject, Identifier = numProtocolRejects (p_sess w),
                                          lcp_Data = Some (ProtocolRejectData t payload)\<rparr> w
                  in Return (w\<lparr>p_sess := (p_sess w)\<lparr>numProtocolRejects := numProtocolRejects (p_sess w) + 1\<rparr>\<rparr>, None))
               else if t = PPPTypeIPX then
                 (case Packet_UnmarshalBinary payload of
                    Inl err \<Rightarrow> Return (w, None)
                  | Inr packet \<Rightarrow>
                      Return (w\<lparr>p_net := fst (WritePacket (pe_net E) e (s_node (p_sess w)) packet (p_net w))\<rparr>, None))
               else if t = PPPTypeLCP then
                 (case lcp_layer t payload of
                    None \<Rightarrow> Return (w, None)
                  | Some l \<Rightarrow>
                      (case handleLCP E msg l w of
                         Return (w, True) \<Rightarrow> Return (w, None)
                       | Return (w, False) \<Rightarrow> map_outcome (\<lambda>w. (w, None)) (deliver_lcp E now t (Some l) w)
                       | Fail err \<Rightarrow> Fail err | Panic \<Rightarrow> Panic))
               else map_outcome (\<lambda>w. (w, None)) (deliver_lcp E now t (lcp_layer t payload) w)))"

text \<open>One iteration of \<^verbatim>\<open>sendPackets\<close>; \<open>None\<close> in the first component if the loop ends.\<close>

definition sendPackets_step ::
  "('s, 'c) penv \<Rightarrow> ctx \<Rightarrow> ('s, 'c) pworld \<Rightarrow> (('s, 'c) pworld \<times> error option option) option" where
  "sendPackets_step E c w =
     (if Terminated (p_sess w) then Some (w, Some None)
      else
        map_option (\<lambda>(s', rd).
          let w = w\<lparr>p_net := s'\<rparr>
          in case rd of
               RBlock \<Rightarrow> (w, None)
             | RError err \<Rightarrow> (w, Some (Some err))
             | RPacket packet \<Rightarrow>
                 if s_state (p_sess w) \<noteq> stateNetwork then (w, None)
                 else
                   let (c', err) = sendPPP E PPPTypeIPX (Packet_MarshalBinary packet) (p_chan w);
                       w = w\<lparr>p_chan := c'\<rparr>
                   in (case err of None \<Rightarrow> (w, None) | Some er \<Rightarrow> (w, Some (Some er))))
          (ReadPacket (pe_net E) c (s_node (p_sess w)) (p_net w)))"

section \<open>The main goroutine\<close>

text \<open>
  Where \<^verbatim>\<open>doRun\<close> is: in one of its three loops, between the second and the third (where it does not look at the
  state before it sets it), or returned.
\<close>

datatype phase = InNegotiate bytes | InNegotiateIPX | EnterNetwork | InNetwork | Finished "error option"

definition install :: "PPPType \<Rightarrow> negotiator \<Rightarrow> session \<Rightarrow> session" where
  "install t n s = s\<lparr>s_negotiators := (s_negotiators s)(t \<mapsto> n)\<rparr>"

definition negotiate_start :: "bytes \<Rightarrow> session \<Rightarrow> session" where
  "negotiate_start magic s = install PPPTypeLCP (lcp_negotiator magic) s"

definition negotiateIPX_start :: "addr \<Rightarrow> session \<Rightarrow> session" where
  "negotiateIPX_start a s = install PPPTypeIPXCP (ipx_negotiator a) s"

definition recv_in :: "phase \<Rightarrow> (('s, 'c) pworld \<times> error option) outcome \<Rightarrow> (phase \<times> ('s, 'c) pworld) outcome" where
  "recv_in ph = map_outcome (\<lambda>(w, err). (case err of None \<Rightarrow> ph | Some e \<Rightarrow> Finished (Some e), w))"

text \<open>
  One iteration of the current loop. \<open>Done\<close> is checked before anything is read, and a finished negotiation
  starts the next phase.
\<close>

definition doRun_step ::
  "('s, 'c) penv \<Rightarrow> env \<Rightarrow> time \<Rightarrow> bytes \<Rightarrow> error + bytes \<Rightarrow> phase \<times> ('s, 'c) pworld \<Rightarrow> (phase \<times> ('s, 'c) pworld) outcome" where
  "doRun_step E e now msg rd pw =
     (let (ph, w) = pw; s = p_sess w
      in case ph of
           Finished err \<Rightarrow> Return (ph, w)
         | InNegotiate magic \<Rightarrow>
             if Terminated s then Return (Finished (Some (Errorf ''link terminated during negotiation phase'' [])), w)
             else (case s_negotiators s PPPTypeLCP of
                     None \<Rightarrow> Panic
                   | Some n \<Rightarrow>
                       (case neg_Done n of
                          (True, Some err) \<Rightarrow> Return (Finished (Some err), w)
                        | (True, None) \<Rightarrow>
                            Return (InNegotiateIPX,
                              w\<lparr>p_sess := negotiateIPX_start (NodeAddress (pe_net E) (s_node s) (p_net w))
                                  (s\<lparr>magicNumber := be_u32 (magic ! 0) (magic ! 1) (magic ! 2) (magic ! 3)\<rparr>)\<rparr>)
                        | (False, _) \<Rightarrow> recv_in ph (recvAndProcess E e now msg rd w)))
         | InNegotiateIPX \<Rightarrow>
             if Terminated s then Return (Finished (Some (Errorf ''link terminated during IPX protocol negotiation'' [])), w)
             else (case s_negotiators s PPPTypeIPXCP of
                     None \<Rightarrow> Panic
                   | Some n \<Rightarrow>
                       (case neg_Done n of
                          (True, Some err) \<Rightarrow> Return (Finished (Some err), w)
                        | (True, None) \<Rightarrow> Return (EnterNetwork, w)
                        | (False, _) \<Rightarrow> recv_in ph (recvAndProcess E e now msg rd w)))
         | EnterNetwork \<Rightarrow> Return (InNetwork, w\<lparr>p_sess := fst (setState stateNetwork s)\<rparr>)
         | InNetwork \<Rightarrow>
             if Terminated s then Return (Finished None, w) else recv_in ph (recvAndProcess E e now msg rd w))"

text \<open>The end of \<^verbatim>\<open>Run\<close>, when both goroutines have returned with combined error \<open>err\<close>.\<close>

definition Run_end :: "('s, 'c) penv \<Rightarrow> error option \<Rightarrow> bytes \<Rightarrow> ('s, 'c) pworld \<Rightarrow> ('s, 'c) pworld \<times> error option" where
  "Run_end E err msg w =
     (case terminateError (p_sess w) of
        Some te \<Rightarrow> (w, Some te)
      | None \<Rightarrow> (Terminate E err msg w, err))"

section \<open>Histories\<close>

text \<open>
  The goroutines of a session: the main one, \<^verbatim>\<open>sendPackets\<close>, one per negotiator, and the owner of the session,
  which may call \<^verbatim>\<open>Terminate\<close> at any time (as the PPTP server does when its control connection closes).
\<close>

datatype sess_event =
    EvMain env time bytes "error + bytes"
  | EvSend ctx
  | EvTerminate "error option" bytes
  | EvStart PPPType
  | EvTick PPPType "nat \<Rightarrow> time"
  | EvEnd "error option" bytes

definition on_neg ::
  "PPPType \<Rightarrow> (negotiator \<times> 'c \<Rightarrow> negotiator \<times> 'c) \<Rightarrow> ('s, 'c) pworld \<Rightarrow> ('s, 'c) pworld" where
  "on_neg t f w =
     (case s_negotiators (p_sess w) t of
        None \<Rightarrow> w
      | Some n \<Rightarrow> (let (n', c') = f (n, p_chan w) in w\<lparr>p_sess := install t n' (p_sess w), p_chan := c'\<rparr>))"

fun sess_step :: "('s, 'c) penv \<Rightarrow> sess_event \<Rightarrow> phase \<times> ('s, 'c) pworld \<Rightarrow> (phase \<times> ('s, 'c) pworld) outcome" where
  "sess_step E (EvMain e now msg rd) pw = doRun_step E e now msg rd pw"
| "sess_step E (EvSend c) pw =
     (case sendPackets_step E c (snd pw) of None \<Rightarrow> Return pw | Some (w, _) \<Rightarrow> Return (fst pw, w))"
| "sess_step E (EvTerminate err msg) pw = Return (fst pw, Terminate E err msg (snd pw))"
| "sess_step E (EvStart t) pw = Return (fst pw, on_neg t (\<lambda>(n, c). (StartNegotiation n, c)) (snd pw))"
| "sess_step E (EvTick t clock) pw = Return (fst pw, on_neg t (\<lambda>nc. fst (negotiation_step (sendPPP E t) clock nc)) (snd pw))"
| "sess_step E (EvEnd err msg) pw =
     (case fst pw of Finished _ \<Rightarrow> Return (fst pw, fst (Run_end E err msg (snd pw))) | _ \<Rightarrow> Return pw)"

fun sess_run :: "('s, 'c) penv \<Rightarrow> sess_event list \<Rightarrow> phase \<times> ('s, 'c) pworld \<Rightarrow> (phase \<times> ('s, 'c) pworld) outcome" where
  "sess_run E [] pw = Return pw"
| "sess_run E (ev # evs) pw =
     (case sess_step E ev pw of Return pw' \<Rightarrow> sess_run E evs pw' | Fail err \<Rightarrow> Fail err | Panic \<Rightarrow> Panic)"

definition sess_init :: "bytes \<Rightarrow> int \<Rightarrow> 's \<Rightarrow> 'c \<Rightarrow> phase \<times> ('s, 'c) pworld" where
  "sess_init magic node s c =
     (InNegotiate magic, \<lparr>p_sess = negotiate_start magic (NewSession node), p_net = s, p_chan = c\<rparr>)"

section \<open>What the operations may do\<close>

text \<open>A channel that records the frames written; \<open>f\<close> says which writes fail, \<open>g\<close> what a close returns.\<close>

definition log_channel :: "(bytes \<Rightarrow> error option) \<Rightarrow> error option \<Rightarrow> bytes list channel" where
  "log_channel f g = \<lparr>cWrite = log_send f, cClose = (\<lambda>c. (c, g))\<rparr>"

definition codec_ok :: "('s, 'c) penv \<Rightarrow> bool" where
  "codec_ok E \<longleftrightarrow> (\<forall>t p. ppp_decode E (ppp_encode E t p) = Some (t, p))"

definition ipx_frame :: "('s, 'c) penv \<Rightarrow> bytes \<Rightarrow> bool" where
  "ipx_frame E b \<longleftrightarrow> (case ppp_decode E b of Some (t, p) \<Rightarrow> t = PPPTypeIPX | None \<Rightarrow> False)"

definition terminate_frame :: "('s, 'c) penv \<Rightarrow> bytes \<Rightarrow> bool" where
  "terminate_frame E b \<longleftrightarrow>
     (case ppp_decode E b of Some (t, p) \<Rightarrow> t = PPPTypeLCP \<and> p \<noteq> [] \<and> hd p = TerminateRequest | None \<Rightarrow> False)"

definition terminates :: "('s, 'c) penv \<Rightarrow> bytes list \<Rightarrow> nat" where
  "terminates E log = length (filter (terminate_frame E) log)"

definition is_terminate :: "('s, 'c) pworld \<Rightarrow> nat" where
  "is_terminate w = (if s_state (p_sess w) = stateTerminate then 1 else 0)"

definition negotiated :: "PPPType \<Rightarrow> session \<Rightarrow> bool" where
  "negotiated t s \<longleftrightarrow> (\<exists>n. s_negotiators s t = Some n \<and> localComplete n \<and> remoteComplete n)"

text \<open>
  \<open>quiet E w w'\<close>: from \<open>w\<close> to \<open>w'\<close> no IPX frame is written, finished negotiations stay finished, the state stays or
  becomes \<open>stateTerminate\<close>, and a Terminate-Request is written only with that change of state.
\<close>

definition quiet :: "('s, bytes list) penv \<Rightarrow> ('s, bytes list) pworld \<Rightarrow> ('s, bytes list) pworld \<Rightarrow> bool" where
  "quiet E w w' \<longleftrightarrow>
     (\<exists>bs. p_chan w' = p_chan w @ bs \<and> list_all (\<lambda>b. \<not> ipx_frame E b) bs)
     \<and> (\<forall>t. negotiated t (p_sess w) \<longrightarrow> negotiated t (p_sess w'))
     \<and> dom (s_negotiators (p_sess w')) = dom (s_negotiators (p_sess w))
     \<and> (s_state (p_sess w') = s_state (p_sess w) \<or> s_state (p_sess w') = stateTerminate)
     \<and> terminates E (p_chan w') + is_terminate w \<le> terminates E (p_chan w) + is_terminate w'"

lemma quiet_refl [simp]: "quiet E w w"
  by (simp add: quiet_def)

lemma quiet_trans: "quiet E u v \<Longrightarrow> quiet E v w \<Longrightarrow> quiet E u w"
  by (auto simp: quiet_def)

lemma quiet_write:
  assumes "codec_ok E" "t \<noteq> PPPTypeIPX" "p \<noteq> []" "t = PPPTypeLCP \<longrightarrow> hd p \<noteq> TerminateRequest"
  shows "quiet E w (w\<lparr>p_chan := p_chan w @ [ppp_encode E t p]\<rparr>)"
  using assms
  by (auto simp: quiet_def codec_ok_def ipx_frame_def terminates_def terminate_frame_def is_terminate_def)

lemma LCP_MarshalBinary_hd [simp]: "LCP_MarshalBinary l \<noteq> []" "hd (LCP_MarshalBinary l) = lcp_Type l"
  by (simp_all add: LCP_MarshalBinary_def Let_def)

lemma types_distinct [simp]:
  "PPPTypeLCP \<noteq> PPPTypeIPX" "PPPTypeIPXCP \<noteq> PPPTypeIPX" "PPPTypeLCP \<noteq> PPPTypeIPXCP"
  "PPPTypeIPX \<noteq> PPPTypeLCP" "PPPTypeIPX \<noteq> PPPTypeIPXCP" "PPPTypeIPXCP \<noteq> PPPTypeLCP"
  by (simp_all add: PPPTypeLCP_def PPPTypeIPX_def PPPTypeIPXCP_def)

text \<open>Sessions on a recording channel.\<close>

definition log_env :: "('s, bytes list) penv \<Rightarrow> bool" where
  "log_env E \<longleftrightarrow> codec_ok E \<and> (\<exists>f g. pe_chan E = log_channel f g)"

lemma sendPPP_log: "log_env E \<Longrightarrow> fst (sendPPP E t p c) = c @ [ppp_encode E t p]"
  by (auto simp: log_env_def sendPPP_def log_channel_def log_send_def)

lemma quiet_sendLCP:
  "log_env E \<Longrightarrow> lcp_Type l \<noteq> TerminateRequest \<Longrightarrow> quiet E w (fst (sendLCP E l w))"
  by (simp add: sendLCP_def split_beta sendPPP_log quiet_write log_env_def)

lemma quiet_Close: "log_env E \<Longrightarrow> quiet E w (fst (session_Close E w))"
  by (auto simp: session_Close_def split_beta log_env_def log_channel_def quiet_def is_terminate_def)

lemma quiet_Terminate:
  assumes "log_env E"
  shows "quiet E w (Terminate E err msg w)"
proof (cases "s_state (p_sess w) = stateTerminate")
  case False
  let ?l = "\<lparr>lcp_Type = TerminateRequest, Identifier = 0, lcp_Data = Some (TerminateData msg)\<rparr>"
  let ?w = "w\<lparr>p_sess := (p_sess w)\<lparr>s_state := stateTerminate\<rparr>\<rparr>"
  have "quiet E w (fst (sendLCP E ?l ?w))"
    using assms False
    by (auto simp: quiet_def sendLCP_def split_beta sendPPP_log negotiated_def is_terminate_def terminates_def
        ipx_frame_def log_env_def codec_ok_def)
  moreover have "quiet E u (u\<lparr>p_sess := (p_sess u)\<lparr>terminateError := err\<rparr>\<rparr>)" for u :: "('a, bytes list) pworld"
    by (auto simp: quiet_def negotiated_def is_terminate_def)
  ultimately show ?thesis
    using False quiet_Close [OF assms] by (simp add: Terminate_def setState_def split_beta Let_def) (meson quiet_trans)
qed (simp add: Terminate_def setState_def)

lemma quiet_handleLCP:
  "log_env E \<Longrightarrow> handleLCP E msg l w = Return (w', b) \<Longrightarrow> quiet E w w'"
  by (auto simp: handleLCP_def split_beta Let_def lcp_types quiet_sendLCP intro: quiet_Terminate
      quiet_trans [OF quiet_sendLCP quiet_Close] split: if_splits option.splits PerTypeData.splits)

section \<open>Negotiators on a channel\<close>

text \<open>What any operation of a negotiator does: it writes messages other than Terminate-Request and never
  unsets a completion flag.\<close>

definition neg_quiet :: "('s, bytes list) penv \<Rightarrow> PPPType \<Rightarrow> negotiator \<times> bytes list \<Rightarrow> negotiator \<times> bytes list \<Rightarrow> bool" where
  "neg_quiet E t nc nc' \<longleftrightarrow>
     (localComplete (fst nc) \<longrightarrow> localComplete (fst nc')) \<and> (remoteComplete (fst nc) \<longrightarrow> remoteComplete (fst nc'))
     \<and> (\<exists>ls. snd nc' = snd nc @ map (\<lambda>l. ppp_encode E t (LCP_MarshalBinary l)) ls \<and> list_all (\<lambda>l. lcp_Type l \<noteq> TerminateRequest) ls)"

lemma neg_quiet_send:
  assumes "log_env E" "lcp_Type l \<noteq> TerminateRequest"
    "localComplete n \<longrightarrow> localComplete m" "remoteComplete n \<longrightarrow> remoteComplete m"
  shows "neg_quiet E t (n, c) (neg_sendPacket (sendPPP E t) l (m, c))"
  using assms sendPPP_log [OF assms(1), of t "LCP_MarshalBinary l" c]
  by (auto simp: neg_quiet_def neg_sendPacket_def split_beta Let_def split: option.splits intro!: exI [of _ "[l]"])

lemma neg_quiet_request:
  "log_env E \<Longrightarrow> neg_quiet E t nc (handleConfigureRequest (sendPPP E t) ident opts nc)"
  by (cases nc) (auto simp: handleConfigureRequest_def Let_def lcp_types intro!: neg_quiet_send)

lemma neg_quiet_sendRequest:
  assumes "log_env E" "localComplete n \<longrightarrow> localComplete m" "remoteComplete n \<longrightarrow> remoteComplete m"
  shows "neg_quiet E t (n, c) (sendConfigureRequest (sendPPP E t) now (m, c))"
proof -
  let ?l = "\<lparr>lcp_Type = ConfigureRequest, Identifier = requestSequence m, lcp_Data = Some (ConfigureData
    (List.map_filter (\<lambda>(ot, opt). map_option (\<lambda>v. \<lparr>opt_Type = ot, opt_Data = v\<rparr>) (n_value opt)) (localOptions m)))\<rparr>"
  have "neg_quiet E t (n, c) (neg_sendPacket (sendPPP E t) ?l (m, c))"
    by (rule neg_quiet_send) (use assms in \<open>simp_all add: lcp_types\<close>)
  then show ?thesis
    by (simp add: sendConfigureRequest_def split_beta Let_def neg_quiet_def)
qed

lemma neg_quiet_same:
  "localComplete n \<longrightarrow> localComplete m \<Longrightarrow> remoteComplete n \<longrightarrow> remoteComplete m \<Longrightarrow> neg_quiet E t (n, c) (m, c)"
  by (auto simp: neg_quiet_def intro!: exI [of _ "[]"])

lemma neg_quiet_apply: "log_env E \<Longrightarrow> neg_quiet E t nc (applyNewValues (sendPPP E t) now vs nc)"
  by (cases nc) (auto simp: applyNewValues_def Let_def intro!: neg_quiet_same neg_quiet_sendRequest)

lemma neg_quiet_recv:
  assumes "log_env E" "neg_RecvPacket (sendPPP E t) now pkt nc = Return nc'"
  shows "neg_quiet E t nc nc'"
proof -
  obtain n c where nc: "nc = (n, c)" by (rule prod.exhaust)
  show ?thesis
    using assms neg_quiet_request [OF assms(1), of t nc] neg_quiet_apply [OF assms(1), of t nc]
    by (auto simp: nc neg_RecvPacket_def handleConfigureNak_def handleConfigureReject_def
        intro: neg_quiet_same split: if_splits option.splits PerTypeData.splits)
qed

lemma neg_quiet_tick: "log_env E \<Longrightarrow> neg_quiet E t nc (fst (negotiation_step (sendPPP E t) clock nc))"
  by (cases nc)
    (auto simp: negotiation_step_def maybeSendRequest_def Let_def intro!: neg_quiet_same neg_quiet_sendRequest)

lemma quiet_neg:
  assumes "log_env E" "t \<noteq> PPPTypeIPX" "s_negotiators (p_sess w) t = Some n" "neg_quiet E t (n, p_chan w) (n', c')"
  shows "quiet E w (w\<lparr>p_sess := (p_sess w)\<lparr>s_negotiators := (s_negotiators (p_sess w))(t \<mapsto> n')\<rparr>, p_chan := c'\<rparr>)"
proof -
  from assms(4) obtain ls where c': "c' = p_chan w @ map (\<lambda>l. ppp_encode E t (LCP_MarshalBinary l)) ls"
    and ls: "list_all (\<lambda>l. lcp_Type l \<noteq> TerminateRequest) ls"
    and flags: "localComplete n \<longrightarrow> localComplete n'" "remoteComplete n \<longrightarrow> remoteComplete n'"
    by (auto simp: neg_quiet_def)
  have d: "ppp_decode E (ppp_encode E t p) = Some (t, p)" for p
    using assms(1) by (simp add: log_env_def codec_ok_def)
  have "terminates E c' = terminates E (p_chan w)"
    using ls by (auto simp: c' terminates_def terminate_frame_def d list_all_iff filter_empty_conv)
  moreover have "list_all (\<lambda>b. \<not> ipx_frame E b) (map (\<lambda>l. ppp_encode E t (LCP_MarshalBinary l)) ls)"
    using assms(2) by (auto simp: ipx_frame_def d list_all_iff)
  ultimately show ?thesis
    using flags assms(3) by (auto simp: quiet_def c' negotiated_def is_terminate_def)
qed

lemma quiet_deliver:
  assumes "log_env E" "t \<noteq> PPPTypeIPX" "deliver_lcp E now t pkt w = Return w'"
  shows "quiet E w w'"
proof (cases "s_negotiators (p_sess w) t")
  case (Some n)
  with assms(3) obtain n' c' where "neg_RecvPacket (sendPPP E t) now pkt (n, p_chan w) = Return (n', c')"
    and "w' = w\<lparr>p_sess := (p_sess w)\<lparr>s_negotiators := (s_negotiators (p_sess w))(t \<mapsto> n')\<rparr>, p_chan := c'\<rparr>"
    by (auto simp: deliver_lcp_def)
  with quiet_neg [OF assms(1,2) Some neg_quiet_recv [OF assms(1)]] show ?thesis by simp
qed (use assms in \<open>simp add: deliver_lcp_def\<close>)

lemma quiet_recv:
  assumes "log_env E" "recvAndProcess E e now msg rd w = Return (w', err)"
  shows "quiet E w w'"
proof (cases "\<exists>frame t p. rd = Inr frame \<and> ppp_decode E frame = Some (t, p)")
  case True
  then obtain frame t p where f: "rd = Inr frame" "ppp_decode E frame = Some (t, p)" by blast
  have rej: "quiet E u (u\<lparr>p_sess := (p_sess u)\<lparr>numProtocolRejects := k\<rparr>\<rparr>)" and net: "quiet E u (u\<lparr>p_net := x\<rparr>)"
    for u :: "('a, bytes list) pworld" and k x
    by (auto simp: quiet_def negotiated_def is_terminate_def)
  consider "\<not> supportedProtocols t" | "t = PPPTypeIPX" "supportedProtocols t" | "t = PPPTypeLCP" | "t = PPPTypeIPXCP" "t \<noteq> PPPTypeLCP"
    by (auto simp: supportedProtocols_def)
  then show ?thesis
  proof cases
    case 1
    with assms f show ?thesis
      by (auto simp: recvAndProcess_def split_beta Let_def lcp_types intro!: quiet_trans [OF quiet_sendLCP rej])
  next
    case 2
    with assms f net show ?thesis by (auto simp: recvAndProcess_def split: sum.splits)
  next
    case 3
    show ?thesis
    proof (cases "lcp_layer t p")
      case None
      with 3 assms f show ?thesis by (simp add: recvAndProcess_def supportedProtocols_def)
    next
      case (Some l)
      with 3 assms f obtain w1 b where h: "handleLCP E msg l w = Return (w1, b)"
        by (cases "handleLCP E msg l w") (auto simp: recvAndProcess_def supportedProtocols_def)
      with 3 Some assms f quiet_handleLCP [OF assms(1) h] show ?thesis
        by (cases b) (auto simp: recvAndProcess_def supportedProtocols_def
            intro: quiet_trans [OF _ quiet_deliver [OF assms(1) types_distinct(1)]])
    qed
  next
    case 4
    with assms f show ?thesis
      by (auto simp: recvAndProcess_def supportedProtocols_def intro: quiet_deliver [OF assms(1) types_distinct(2)])
  qed
qed (use assms in \<open>auto simp: recvAndProcess_def split: sum.splits option.splits\<close>)

lemma quiet_on_neg:
  assumes "log_env E" "dom (s_negotiators (p_sess w)) \<subseteq> {PPPTypeLCP, PPPTypeIPXCP}" "\<And>nc. neg_quiet E t nc (f nc)"
  shows "quiet E w (on_neg t f w)"
proof (cases "s_negotiators (p_sess w) t")
  case (Some n)
  with assms(2) have "t \<in> {PPPTypeLCP, PPPTypeIPXCP}" by blast
  then have "t \<noteq> PPPTypeIPX" by auto
  moreover obtain n' c' where "f (n, p_chan w) = (n', c')" by (rule prod.exhaust)
  ultimately show ?thesis
    using quiet_neg [OF assms(1) _ Some, of n' c'] assms(3) [of "(n, p_chan w)"] Some
    by (simp add: on_neg_def install_def)
qed (simp add: on_neg_def)

text \<open>The invariant of a session on a recording channel.\<close>

definition established :: "session \<Rightarrow> bool" where
  "established s \<longleftrightarrow> negotiated PPPTypeLCP s \<and> negotiated PPPTypeIPXCP s"

fun negotiating :: "phase \<Rightarrow> bool" where
  "negotiating (InNegotiate magic) = True"
| "negotiating InNegotiateIPX = True"
| "negotiating ph = False"

definition sess_inv :: "('s, bytes list) penv \<Rightarrow> phase \<times> ('s, bytes list) pworld \<Rightarrow> bool" where
  "sess_inv E pw \<longleftrightarrow> (case pw of (ph, w) \<Rightarrow>
     dom (s_negotiators (p_sess w)) \<subseteq> {PPPTypeLCP, PPPTypeIPXCP}
     \<and> (ph = InNegotiateIPX \<longrightarrow> negotiated PPPTypeLCP (p_sess w))
     \<and> (negotiating ph \<longrightarrow> s_state (p_sess w) \<noteq> stateNetwork \<and> \<not> list_ex (ipx_frame E) (p_chan w))
     \<and> (ph = EnterNetwork \<or> ph = InNetwork \<or> s_state (p_sess w) = stateNetwork \<or> list_ex (ipx_frame E) (p_chan w)
          \<longrightarrow> established (p_sess w)))"

definition at_most_one :: "('s, bytes list) penv \<Rightarrow> phase \<times> ('s, bytes list) pworld \<Rightarrow> bool" where
  "at_most_one E pw \<longleftrightarrow> terminates E (p_chan (snd pw)) \<le> is_terminate (snd pw)"

definition at_most_two :: "('s, bytes list) penv \<Rightarrow> phase \<times> ('s, bytes list) pworld \<Rightarrow> bool" where
  "at_most_two E pw \<longleftrightarrow> terminates E (p_chan (snd pw)) \<le> is_terminate (snd pw)
     + (case fst pw of InNetwork \<Rightarrow> 1 | Finished _ \<Rightarrow> 1 | _ \<Rightarrow> 0)"

lemma established_quiet: "established (p_sess w) \<Longrightarrow> quiet E w w' \<Longrightarrow> established (p_sess w')"
  by (simp add: established_def quiet_def)

lemma sess_inv_quiet:
  assumes "sess_inv E (ph, w)" "quiet E w w'"
  shows "sess_inv E (ph, w')" and "sess_inv E (Finished err, w')"
proof -
  from assms have *: "established (p_sess w')"
    if "ph = EnterNetwork \<or> ph = InNetwork \<or> s_state (p_sess w') = stateNetwork \<or> list_ex (ipx_frame E) (p_chan w')"
    using that established_quiet [OF _ assms(2)]
    by (auto simp: sess_inv_def quiet_def list_ex_iff list_all_iff)
  from assms have "s_state (p_sess w') \<noteq> stateNetwork \<and> \<not> list_ex (ipx_frame E) (p_chan w')" if "negotiating ph"
    using that by (auto simp: sess_inv_def quiet_def list_ex_iff list_all_iff)
  with * assms show "sess_inv E (ph, w')" "sess_inv E (Finished err, w')"
    by (auto simp: sess_inv_def quiet_def)
qed

text \<open>What a step of the main goroutine is, besides a quiet one.\<close>

lemma doRun_step_cases:
  assumes "log_env E" "sess_inv E (ph, w)" "doRun_step E e now msg rd (ph, w) = Return (ph', w')"
  obtains "quiet E w w'" "ph' = ph \<and> ph \<noteq> EnterNetwork \<or> (\<exists>err. ph' = Finished err)"
  | magic m a where "ph = InNegotiate magic" "ph' = InNegotiateIPX" "negotiated PPPTypeLCP (p_sess w)"
      "w' = w\<lparr>p_sess := negotiateIPX_start a ((p_sess w)\<lparr>magicNumber := m\<rparr>)\<rparr>" "\<not> Terminated (p_sess w)"
  | "ph = InNegotiateIPX" "ph' = EnterNetwork" "w' = w" "established (p_sess w)" "\<not> Terminated (p_sess w)"
  | "ph = EnterNetwork" "ph' = InNetwork" "w' = w\<lparr>p_sess := (p_sess w)\<lparr>s_state := stateNetwork\<rparr>\<rparr>"
proof -
  have recv: "quiet E w w'" "ph' = ph \<or> (\<exists>err. ph' = Finished err)"
    if "recv_in ph (recvAndProcess E e now msg rd w) = Return (ph', w')"
    using that quiet_recv [OF assms(1), of e now msg rd w]
    by (cases "recvAndProcess E e now msg rd w"; auto simp: recv_in_def split: option.splits)+
  show thesis
  proof (cases ph)
    case (InNegotiate magic)
    with assms(3) recv show thesis
      by (auto simp: doRun_step_def Let_def negotiated_def neg_Done_def split: if_splits option.splits bool.splits
          intro: that(1,2))
  next
    case InNegotiateIPX
    with assms recv show thesis
      by (auto simp: doRun_step_def Let_def negotiated_def neg_Done_def established_def sess_inv_def
          split: if_splits option.splits bool.splits intro: that(1,3))
  next
    case EnterNetwork
    with assms(3) show thesis
      by (intro that(4)) (auto simp: doRun_step_def Let_def setState_def)
  next
    case InNetwork
    with assms(3) recv show thesis
      by (auto simp: doRun_step_def Let_def split: if_splits intro: that(1))
  next
    case (Finished err)
    with assms(3) show thesis
      by (intro that(1)) (auto simp: doRun_step_def)
  qed
qed

lemma doRun_step_inv:
  assumes "log_env E" "sess_inv E (ph, w)" "doRun_step E e now msg rd (ph, w) = Return (ph', w')"
  shows "sess_inv E (ph', w')" and "at_most_two E (ph, w) \<Longrightarrow> at_most_two E (ph', w')"
    and "ph = EnterNetwork \<longrightarrow> is_terminate w = 0 \<Longrightarrow> at_most_one E (ph, w) \<Longrightarrow>
      at_most_one E (ph', w') \<and> (ph' = EnterNetwork \<longrightarrow> is_terminate w' = 0)"
proof -
  show "sess_inv E (ph', w')"
    using assms(2) sess_inv_quiet [OF assms(2)]
    by (cases rule: doRun_step_cases [OF assms])
      (auto simp: sess_inv_def established_def negotiated_def negotiateIPX_start_def install_def Terminated_def)
  show "at_most_two E (ph', w')" if "at_most_two E (ph, w)"
    using that
    by (cases rule: doRun_step_cases [OF assms])
      (auto simp: at_most_two_def quiet_def is_terminate_def negotiateIPX_start_def install_def Terminated_def
        split: if_splits phase.splits)
  show "at_most_one E (ph', w') \<and> (ph' = EnterNetwork \<longrightarrow> is_terminate w' = 0)"
    if "ph = EnterNetwork \<longrightarrow> is_terminate w = 0" "at_most_one E (ph, w)"
    using that
    by (cases rule: doRun_step_cases [OF assms])
      (auto simp: at_most_one_def quiet_def is_terminate_def negotiateIPX_start_def install_def Terminated_def
        split: if_splits)
qed

lemma sendPackets_log:
  assumes "log_env E" "sendPackets_step E c w = Some (w', r)"
  obtains "quiet E w w'" "s_state (p_sess w') = s_state (p_sess w)" | b s where "w' = w\<lparr>p_net := s, p_chan := p_chan w @ [b]\<rparr>" "s_state (p_sess w) = stateNetwork"
    "\<not> terminate_frame E b"
proof -
  have net: "quiet E w (w\<lparr>p_net := x\<rparr>)" for x
    by (auto simp: quiet_def is_terminate_def)
  have enc: "\<not> terminate_frame E (ppp_encode E PPPTypeIPX p)" for p
    using assms(1) by (auto simp: terminate_frame_def log_env_def codec_ok_def)
  show thesis
  proof (cases "Terminated (p_sess w)")
    case False
    with assms(2) obtain s rd where rd: "ReadPacket (pe_net E) c (s_node (p_sess w)) (p_net w) = Some (s, rd)"
      by (auto simp: sendPackets_step_def)
    with False assms(2) net sendPPP_log [OF assms(1)] enc show thesis
      by (cases rd) (auto simp: sendPackets_step_def Let_def split_beta split: if_splits option.splits intro: that)
  qed (use assms(2) that(1) in \<open>auto simp: sendPackets_step_def\<close>)
qed

lemma Run_end_quiet: "log_env E \<Longrightarrow> quiet E w (fst (Run_end E err msg w))"
  by (auto simp: Run_end_def intro: quiet_Terminate split: option.splits)

lemma on_neg_state: "s_state (p_sess (on_neg t f w)) = s_state (p_sess w)"
  by (simp add: on_neg_def install_def split_beta split: option.split)

lemma sess_step_cases:
  assumes "log_env E" "sess_inv E (ph, w)" "sess_step E ev (ph, w) = Return (ph', w')"
  obtains e now msg rd where "ev = EvMain e now msg rd" "doRun_step E e now msg rd (ph, w) = Return (ph', w')"
  | "quiet E w w'" "ph' = ph" "s_state (p_sess w') = s_state (p_sess w) \<or> (\<exists>err msg. ev = EvTerminate err msg) \<or> (\<exists>err. ph = Finished err)"
  | b s where "ph' = ph" "w' = w\<lparr>p_net := s, p_chan := p_chan w @ [b]\<rparr>" "s_state (p_sess w) = stateNetwork" "\<not> terminate_frame E b"
proof -
  from assms(2) have d: "dom (s_negotiators (p_sess w)) \<subseteq> {PPPTypeLCP, PPPTypeIPXCP}" by (simp add: sess_inv_def)
  show thesis
  proof (cases ev)
    case (EvSend c)
    show thesis
    proof (cases "sendPackets_step E c w")
      case (Some r)
      obtain u x where r: "r = (u, x)" by (rule prod.exhaust)
      from Some EvSend assms(3) have "u = w'" "ph' = ph" by (auto simp: r)
      then show thesis
        using sendPackets_log [OF assms(1) Some [unfolded r]] that(2,3) by metis
    qed (use that(2) EvSend assms(3) in auto)
  next
    case (EvStart t)
    have "quiet E w (on_neg t (\<lambda>(n, c). (StartNegotiation n, c)) w)"
      by (rule quiet_on_neg [OF assms(1) d]) (auto simp: StartNegotiation_def intro!: neg_quiet_same)
    with EvStart assms(3) show thesis
      by (intro that(2)) (auto simp: on_neg_state)
  next
    case (EvTick t clock)
    have "quiet E w (on_neg t (\<lambda>nc. fst (negotiation_step (sendPPP E t) clock nc)) w)"
      by (rule quiet_on_neg [OF assms(1) d neg_quiet_tick [OF assms(1)]])
    with EvTick assms(3) show thesis
      by (intro that(2)) (auto simp: on_neg_state)
  next
    case (EvTerminate err msg)
    with assms show thesis by (intro that(2)) (auto intro: quiet_Terminate)
  next
    case (EvEnd err msg)
    with assms show thesis by (intro that(2)) (auto intro: Run_end_quiet split: phase.splits)
  qed (use that(1) assms(3) in auto)
qed

lemma at_most_two_quiet: "at_most_two E (ph, w) \<Longrightarrow> quiet E w w' \<Longrightarrow> at_most_two E (ph, w')"
  by (auto simp: at_most_two_def quiet_def)

lemma at_most_one_quiet: "at_most_one E (ph, w) \<Longrightarrow> quiet E w w' \<Longrightarrow> at_most_one E (ph, w')"
  by (auto simp: at_most_one_def quiet_def)

lemma sess_step_inv:
  assumes "log_env E" "sess_inv E (ph, w)" "sess_step E ev (ph, w) = Return (ph', w')"
  shows "sess_inv E (ph', w')" and "at_most_two E (ph, w) \<Longrightarrow> at_most_two E (ph', w')"
    and "\<lbrakk>\<forall>err msg. ev \<noteq> EvTerminate err msg; ph = EnterNetwork \<longrightarrow> is_terminate w = 0; at_most_one E (ph, w)\<rbrakk> \<Longrightarrow>
      at_most_one E (ph', w') \<and> (ph' = EnterNetwork \<longrightarrow> is_terminate w' = 0)"
proof -
  show "sess_inv E (ph', w')"
    using assms(2)
    by (cases rule: sess_step_cases [OF assms])
      (auto intro: sess_inv_quiet(1) doRun_step_inv(1) [OF assms(1,2)], auto simp: sess_inv_def)
  show "at_most_two E (ph', w')" if "at_most_two E (ph, w)"
    using that
    by (cases rule: sess_step_cases [OF assms])
      (auto intro: at_most_two_quiet doRun_step_inv(2) [OF assms(1,2)],
        auto simp: at_most_two_def terminates_def is_terminate_def)
  show "at_most_one E (ph', w') \<and> (ph' = EnterNetwork \<longrightarrow> is_terminate w' = 0)"
    if "\<forall>err msg. ev \<noteq> EvTerminate err msg" "ph = EnterNetwork \<longrightarrow> is_terminate w = 0" "at_most_one E (ph, w)"
  proof (cases rule: sess_step_cases [OF assms])
    case (1 e now msg rd)
    from doRun_step_inv(3) [OF assms(1,2) 1(2) that(2,3)] show ?thesis .
  next
    case 2
    with that at_most_one_quiet [OF that(3)] show ?thesis by (auto simp: is_terminate_def)
  next
    case (3 b s)
    with that show ?thesis by (auto simp: at_most_one_def terminates_def is_terminate_def)
  qed
qed

lemma sess_run_inv:
  assumes "log_env E"
  shows "sess_run E evs pw = Return pw' \<Longrightarrow> sess_inv E pw \<Longrightarrow> sess_inv E pw'"
    and "sess_run E evs pw = Return pw' \<Longrightarrow> sess_inv E pw \<Longrightarrow> at_most_two E pw \<Longrightarrow> at_most_two E pw'"
    and "sess_run E evs pw = Return pw' \<Longrightarrow> sess_inv E pw \<Longrightarrow> at_most_one E pw \<Longrightarrow> \<forall>err msg. EvTerminate err msg \<notin> set evs \<Longrightarrow>
      fst pw = EnterNetwork \<longrightarrow> is_terminate (snd pw) = 0 \<Longrightarrow> at_most_one E pw'"
proof (induction evs arbitrary: pw)
  case (Cons ev evs)
  {
    case (1 pw)
    with Cons.IH(1) sess_step_inv(1) [OF assms, of "fst pw" "snd pw" ev] show ?case
      by (auto split: outcome.splits)
  next
    case (2 pw)
    with Cons.IH(2) sess_step_inv(1,2) [OF assms, of "fst pw" "snd pw" ev] show ?case
      by (auto split: outcome.splits)
  next
    case (3 pw)
    obtain ph w where pw: "pw = (ph, w)" by (rule prod.exhaust)
    from 3 obtain ph1 w1 where s: "sess_step E ev (ph, w) = Return (ph1, w1)" "sess_run E evs (ph1, w1) = Return pw'"
      by (auto simp: pw split: outcome.splits)
    from 3 have "at_most_one E (ph1, w1) \<and> (ph1 = EnterNetwork \<longrightarrow> is_terminate w1 = 0)"
      by (intro sess_step_inv(3) [OF assms _ s(1)]) (auto simp: pw)
    with 3 sess_step_inv(1) [OF assms _ s(1)] show ?case
      by (intro Cons.IH(3) [OF s(2)]) (auto simp: pw)
  }
qed simp_all

lemma sess_inv_init:
  "sess_inv E (sess_init magic node s [])" "at_most_one E (sess_init magic node s [])" "at_most_two E (sess_init magic node s [])"
  by (auto simp: sess_inv_def sess_init_def negotiate_start_def install_def NewSession_def at_most_one_def at_most_two_def terminates_def)

section \<open>Properties\<close>


text \<open>
  Terminate-Requests are not repeated: the session itself sends at most one in every history; with an owner
  that also calls \<^verbatim>\<open>Terminate\<close> there are never more than two.
\<close>

lemma terminate_requests_bounded:
  assumes "pe_chan E = log_channel f g" "codec_ok E"
    and "sess_run E evs (sess_init magic node s []) = Return (ph, w)"
  shows "terminates E (p_chan w) \<le> 2 \<and> ((\<forall>err msg. EvTerminate err msg \<notin> set evs) \<longrightarrow> terminates E (p_chan w) \<le> 1)"
proof -
  from assms(1,2) have "log_env E" by (auto simp: log_env_def)
  note inv = sess_run_inv(2,3) [OF this assms(3) sess_inv_init(1)] 
  have "at_most_two E (ph, w)" by (rule inv(1) [OF sess_inv_init(3)])
  moreover have "at_most_one E (ph, w)" if "\<forall>err msg. EvTerminate err msg \<notin> set evs"
    using that by (intro inv(2) [OF sess_inv_init(2)]) (simp_all add: sess_init_def)
  ultimately show ?thesis
    by (auto simp: at_most_one_def at_most_two_def is_terminate_def split: phase.splits if_splits)
qed

text \<open>A client that agrees to everything, on a link with a two-byte protocol field.\<close>

definition demo_link :: "(unit, bytes list) penv" where
  "demo_link = \<lparr>
     pe_net = \<lparr>NewNode = (\<lambda>_ s. Some (s, Inr 0)),
       ReadPacket = (\<lambda>_ _ s. Some (s, RPacket (demo_packet 1 2))),
       WritePacket = (\<lambda>_ _ _ s. (s, None)), Close = (\<lambda>_ s. (s, None)), GetProperty = (\<lambda>_ _ _. None)\<rparr>,
     pe_chan = log_channel (\<lambda>_. None) None,
     ppp_encode = (\<lambda>t p. [ucast (drop_bit 8 t), ucast t] @ p),
     ppp_decode = (\<lambda>b. case b of x # y # p \<Rightarrow> Some (push_bit 8 (ucast x) OR ucast y, p) | _ \<Rightarrow> None)\<rparr>"

definition demo_client :: "PPPType \<Rightarrow> lcp_option list \<Rightarrow> lcp_option list \<Rightarrow> sess_event list" where
  "demo_client t ack req =
     [EvStart t, EvTick t (\<lambda>_. 5 * second),
      EvMain demo_env 0 [] (Inr (ppp_encode demo_link t (LCP_MarshalBinary
        \<lparr>lcp_Type = ConfigureAck, Identifier = 1, lcp_Data = Some (ConfigureData ack)\<rparr>))),
      EvMain demo_env 0 [] (Inr (ppp_encode demo_link t (LCP_MarshalBinary
        \<lparr>lcp_Type = ConfigureRequest, Identifier = 1, lcp_Data = Some (ConfigureData req)\<rparr>)))]"

definition demo_setup :: "sess_event list" where
  "demo_setup =
     demo_client PPPTypeLCP [\<lparr>opt_Type = OptionMagicNumber, opt_Data = [1, 2, 3, 4]\<rparr>]
       [\<lparr>opt_Type = OptionMagicNumber, opt_Data = [9, 9, 9, 9]\<rparr>]
     @ [EvMain demo_env 0 [] (Inr [])]
     @ demo_client PPPTypeIPXCP [\<lparr>opt_Type = OptionIPXNetwork, opt_Data = [0, 0, 0, 0]\<rparr>,
           \<lparr>opt_Type = OptionIPXNode, opt_Data = [0, 0, 0, 0, 0, 0]\<rparr>]
       [\<lparr>opt_Type = OptionIPXNode, opt_Data = [0, 0, 0, 0, 0, 0]\<rparr>]
     @ [EvMain demo_env 0 [] (Inr [])]"

definition demo_session :: "sess_event list \<Rightarrow> (phase \<times> (unit, bytes list) pworld) outcome" where
  "demo_session evs = sess_run demo_link evs (sess_init [1, 2, 3, 4] 0 () [])"




text \<open>
  A termination is lost if it comes between the end of the negotiation and the call of \<^verbatim>\<open>setState\<close>: the session
  goes on in the network state although its Terminate-Request has been sent.
\<close>

lemma terminate_lost:
  "case demo_session (demo_setup @ [EvTerminate None [], EvMain demo_env 0 [] (Inr [])]) of
     Return (ph, w) \<Rightarrow> ph = InNetwork \<and> s_state (p_sess w) = stateNetwork \<and> terminates demo_link (p_chan w) = 1 | _ \<Rightarrow> False"
  by code_simp


end
