(* ===== verification/Gre.thy ===== *)
theory Gre
  imports Prelude "HOL-Library.AList"
begin

text \<open>
  PPP over GRE in package \<^verbatim>\<open>pptp\<close> (\<^verbatim>\<open>src/ppp/pptp/gre.go\<close>): a server that sorts the GRE packets that arrive to sessions, by
  the address of the peer and the call ID, and sessions that number what they send and drop what arrives out of
  order. Session objects live in the store \<open>gr_store\<close>; the map of the server points at them. Decoding and encoding of packets
  is done by the packet library: \<open>gre_layer\<close> has the fields that are used, and serializing is a parameter.
\<close>

section \<open>State\<close>

type_synonym ip = string

record gre =
  g_Protocol :: u16
  KeyPresent :: bool
  g_Key :: u32
  g_Version :: byte
  SeqPresent :: bool
  g_Seq :: u32
  AckPresent :: bool
  g_Ack :: u32
  g_payload :: bytes

datatype gre_layer = GIPv4 ip | GRE gre | GOther

type_synonym gre_packet = "gre_layer list"

definition EthernetTypePPP :: u16 where
  "EthernetTypePPP = 0x880b"

definition recvQueueSize :: nat where
  "recvQueueSize = 16"

definition wrongLayers :: error where
  "wrongLayers = OtherError ''layers not as expected: want IP->GRE''"

definition wrongGREFields :: error where
  "wrongGREFields = OtherError ''GRE fields wrong: want version=1, ethernet type PPP''"

definition unknownSession :: error where
  "unknownSession = OtherError ''packet for an unknown GRE session''"

definition outOfSequencePacket :: error where
  "outOfSequencePacket = OtherError ''out of sequence packet received''"

definition recvQueueOverflow :: error where
  "recvQueueOverflow = OtherError ''session receive queue is full''"

lemmas gre_errors = wrongLayers_def wrongGREFields_def unknownSession_def outOfSequencePacket_def recvQueueOverflow_def

text \<open>The receive queue is a channel; it is closed exactly when \<^verbatim>\<open>closed\<close> is set.\<close>

record gre_session =
  gs_closed :: bool
  recvQueue :: "gre_packet list"
  gs_addr :: ip
  sendCallID :: u16
  recvCallID :: u16
  sentSeq :: u32
  recvSeq :: u32
  recvAcked :: u32

record 'u gre_server =
  gr_conn :: 'u
  gr_sessions :: "((ip \<times> u16) \<times> nat) list"
  gr_store :: "nat \<Rightarrow> gre_session option"
  gr_next :: nat

text \<open>The raw IP connection and the packet library.\<close>

record 'u gre_env =
  g_serialize :: "gre \<Rightarrow> bytes \<Rightarrow> bytes"
  WriteToIP :: "bytes \<Rightarrow> ip \<Rightarrow> 'u \<Rightarrow> 'u \<times> error option"
  ipconn_Close :: "'u \<Rightarrow> 'u \<times> error option"

section \<open>Sessions\<close>

definition sessionKey :: "gre_session \<Rightarrow> ip \<times> u16" where
  "sessionKey s = (gs_addr s, recvCallID s)"

text \<open>
  What a read gives: a packet, an error, or nothing yet. The payload is copied to a buffer of \<open>buflen\<close> bytes: a slice of
  the buffer that is too long panics.
\<close>

datatype gre_recv = GData bytes | GErr error | GBlock | GPanic

definition recvPacket :: "nat \<Rightarrow> gre_session \<Rightarrow> gre_session \<times> gre_recv" where
  "recvPacket buflen s =
     (case recvQueue s of
        [] \<Rightarrow> (s, if gs_closed s then GErr EOF else GBlock)
      | ls # q \<Rightarrow>
          let s = s\<lparr>recvQueue := q\<rparr>
          in case ls of
               _ # GRE greHeader # _ \<Rightarrow>
                 if SeqPresent greHeader \<and> g_Seq greHeader < recvSeq s then (s, GErr outOfSequencePacket)
                 else
                   let s = (if SeqPresent greHeader then s\<lparr>recvSeq := g_Seq greHeader\<rparr> else s);
                       result = g_payload greHeader
                   in (s, if buflen < length result then GPanic else GData result)
             | _ \<Rightarrow> (s, GPanic))"

lemma recvPacket_queue: "recvQueue s = ls # q \<Longrightarrow> recvQueue (fst (recvPacket buflen s)) = q"
  by (auto simp: recvPacket_def Let_def split: list.splits gre_layer.splits)

function gre_Read :: "nat \<Rightarrow> gre_session \<Rightarrow> gre_session \<times> gre_recv" where
  "gre_Read buflen s =
     (if recvQueue s = [] then recvPacket buflen s
      else case recvPacket buflen s of
             (s', GData result) \<Rightarrow> if length result > 0 then (s', GData result) else gre_Read buflen s'
           | (s', GErr err) \<Rightarrow> if err = outOfSequencePacket then gre_Read buflen s' else (s', GErr err)
           | (s', r) \<Rightarrow> (s', r))"
  by pat_completeness auto

lemma gre_Read_decreases:
  "recvQueue s \<noteq> [] \<Longrightarrow> (s', r) = recvPacket buflen s \<Longrightarrow> length (recvQueue s') < length (recvQueue s)"
  by (cases "recvQueue s") (auto dest: recvPacket_queue [of s _ _ buflen] simp: prod_eq_iff)

termination gre_Read
  by (relation "measure (\<lambda>(buflen, s). length (recvQueue s))") (auto dest: gre_Read_decreases)

declare gre_Read.simps [simp del]

definition gre_header :: "bytes \<Rightarrow> gre_session \<Rightarrow> gre" where
  "gre_header frame s =
     \<lparr>g_Protocol = EthernetTypePPP, KeyPresent = True,
      g_Key = of_nat (length frame * 65536) OR ucast (sendCallID s), g_Version = 1,
      SeqPresent = length frame > 0, g_Seq = if length frame > 0 then sentSeq s else 0,
      AckPresent = recvAcked s < recvSeq s, g_Ack = if recvAcked s < recvSeq s then recvSeq s else 0, g_payload = []\<rparr>"

definition sendPacket :: "'u gre_env \<Rightarrow> bytes \<Rightarrow> gre_session \<Rightarrow> 'u \<Rightarrow> gre_session \<times> 'u \<times> error option" where
  "sendPacket E frame s u =
     (let greHeader = gre_header frame s;
          s = (if length frame > 0 then s\<lparr>sentSeq := sentSeq s + 1\<rparr> else s);
          s = (if recvAcked s < recvSeq s then s\<lparr>recvAcked := recvSeq s\<rparr> else s);
          (u, err) = WriteToIP E (g_serialize E greHeader frame) (gs_addr s) u
      in (s, u, err))"

definition gre_Write :: "'u gre_env \<Rightarrow> bytes \<Rightarrow> gre_session \<Rightarrow> 'u \<Rightarrow> gre_session \<times> 'u \<times> error option" where
  "gre_Write = sendPacket"

definition put_session :: "nat \<Rightarrow> gre_session \<Rightarrow> 'u gre_server \<Rightarrow> 'u gre_server" where
  "put_session i s sv = sv\<lparr>gr_store := (gr_store sv)(i \<mapsto> s)\<rparr>"

definition gre_Close :: "nat \<Rightarrow> 'u gre_server \<Rightarrow> 'u gre_server \<times> error option" where
  "gre_Close i sv =
     (case gr_store sv i of
        None \<Rightarrow> (sv, None)
      | Some s \<Rightarrow>
          (if \<not> gs_closed s
           then (put_session i (s\<lparr>gs_closed := True\<rparr>) sv)\<lparr>gr_sessions := AList.delete (sessionKey s) (gr_sessions sv)\<rparr>
           else sv, None))"

section \<open>The server\<close>

definition startGREServer :: "'u \<Rightarrow> 'u gre_server" where
  "startGREServer u = \<lparr>gr_conn = u, gr_sessions = [], gr_store = Map.empty, gr_next = 0\<rparr>"

definition new_session :: "ip \<Rightarrow> u16 \<Rightarrow> u16 \<Rightarrow> gre_session" where
  "new_session remoteAddr sendID recvID =
     \<lparr>gs_closed = False, recvQueue = [], gs_addr = remoteAddr, sendCallID = sendID, recvCallID = recvID,
      sentSeq = 0, recvSeq = 0, recvAcked = 0\<rparr>"

definition startSession :: "ip \<Rightarrow> u16 \<Rightarrow> u16 \<Rightarrow> 'u gre_server \<Rightarrow> 'u gre_server \<times> nat" where
  "startSession remoteAddr sendID recvID sv =
     (let session = new_session remoteAddr sendID recvID; i = gr_next sv
      in (sv\<lparr>gr_store := (gr_store sv)(i \<mapsto> session), gr_next := i + 1,
             gr_sessions := AList.update (sessionKey session) i (gr_sessions sv)\<rparr>, i))"

definition gre_processPacket :: "gre_packet \<Rightarrow> 'u gre_server \<Rightarrow> 'u gre_server \<times> error option" where
  "gre_processPacket ls sv =
     (case ls of
        GIPv4 srcIP # GRE greHeader # _ \<Rightarrow>
          if g_Version greHeader \<noteq> 1 \<or> g_Protocol greHeader \<noteq> EthernetTypePPP then (sv, Some wrongGREFields)
          else if \<not> KeyPresent greHeader then (sv, Some wrongGREFields)
          else
            (case map_of (gr_sessions sv) (srcIP, ucast (g_Key greHeader AND 0xffff)) of
               None \<Rightarrow> (sv, Some unknownSession)
             | Some i \<Rightarrow>
                 (case gr_store sv i of
                    None \<Rightarrow> (sv, Some unknownSession)
                  | Some session \<Rightarrow>
                      if gs_closed session then (sv, Some unknownSession)
                      else if length (recvQueue session) < recvQueueSize
                      then (put_session i (session\<lparr>recvQueue := recvQueue session @ [ls]\<rparr>) sv, None)
                      else (sv, Some recvQueueOverflow)))
      | _ \<Rightarrow> (sv, Some wrongLayers))"

text \<open>One iteration of \<^verbatim>\<open>Run\<close>: an error of the read ends the loop, an error of \<^verbatim>\<open>processPacket\<close> is dropped.\<close>

definition gre_Run_step :: "error + gre_packet \<Rightarrow> 'u gre_server \<Rightarrow> 'u gre_server \<times> error option" where
  "gre_Run_step rd sv =
     (case rd of Inl err \<Rightarrow> (sv, Some err) | Inr pkt \<Rightarrow> (fst (gre_processPacket pkt sv), None))"

text \<open>Closing a channel twice panics.\<close>

fun close_sessions :: "nat list \<Rightarrow> 'u gre_server \<Rightarrow> 'u gre_server outcome" where
  "close_sessions [] sv = Return sv"
| "close_sessions (i # is) sv =
     (case gr_store sv i of
        None \<Rightarrow> close_sessions is sv
      | Some s \<Rightarrow> if gs_closed s then Panic else close_sessions is (put_session i (s\<lparr>gs_closed := True\<rparr>) sv))"

definition gre_server_Close :: "'u gre_env \<Rightarrow> 'u gre_server \<Rightarrow> ('u gre_server \<times> error option) outcome" where
  "gre_server_Close E sv =
     (case close_sessions (map snd (gr_sessions sv)) sv of
        Return sv \<Rightarrow> (let (u, err) = ipconn_Close E (gr_conn sv) in Return (sv\<lparr>gr_conn := u\<rparr>, err))
      | Fail err \<Rightarrow> Fail err
      | Panic \<Rightarrow> Panic)"

section \<open>Histories\<close>

datatype gre_event =
    GreStart ip u16 u16 | GreArrive "error + gre_packet" | GreRead nat nat | GreWrite nat bytes | GreClose nat | GreShutdown

fun gre_step :: "'u gre_env \<Rightarrow> gre_event \<Rightarrow> 'u gre_server \<Rightarrow> 'u gre_server outcome" where
  "gre_step E (GreStart a sendID recvID) sv = Return (fst (startSession a sendID recvID sv))"
| "gre_step E (GreArrive rd) sv = Return (fst (gre_Run_step rd sv))"
| "gre_step E (GreRead i buflen) sv =
     (case gr_store sv i of
        None \<Rightarrow> Return sv
      | Some s \<Rightarrow> (case gre_Read buflen s of (s', r) \<Rightarrow> if r = GPanic then Panic else Return (put_session i s' sv)))"
| "gre_step E (GreWrite i frame) sv =
     (case gr_store sv i of
        None \<Rightarrow> Return sv
      | Some s \<Rightarrow> (case gre_Write E frame s (gr_conn sv) of (s', u, _) \<Rightarrow> Return (put_session i s' (sv\<lparr>gr_conn := u\<rparr>))))"
| "gre_step E (GreClose i) sv = Return (fst (gre_Close i sv))"
| "gre_step E GreShutdown sv = map_outcome fst (gre_server_Close E sv)"

fun gre_run :: "'u gre_env \<Rightarrow> gre_event list \<Rightarrow> 'u gre_server \<Rightarrow> 'u gre_server outcome" where
  "gre_run E [] sv = Return sv"
| "gre_run E (ev # evs) sv =
     (case gre_step E ev sv of Return sv' \<Rightarrow> gre_run E evs sv' | Fail err \<Rightarrow> Fail err | Panic \<Rightarrow> Panic)"

section \<open>Reading\<close>

text \<open>What a read does: it takes packets off the queue up to the first that is in sequence and not empty.\<close>

definition took :: "gre_session \<Rightarrow> gre_packet list \<Rightarrow> gre_session \<Rightarrow> bool" where
  "took s taken s' \<longleftrightarrow> recvQueue s = taken @ recvQueue s' \<and> recvSeq s \<le> recvSeq s'
     \<and> gs_closed s' = gs_closed s \<and> gs_addr s' = gs_addr s \<and> sendCallID s' = sendCallID s \<and> recvCallID s' = recvCallID s
     \<and> sentSeq s' = sentSeq s \<and> recvAcked s' = recvAcked s"

definition read_post :: "nat \<Rightarrow> gre_session \<Rightarrow> gre_packet list \<Rightarrow> gre_session \<Rightarrow> gre_recv \<Rightarrow> bool" where
  "read_post buflen s taken s' r =
     (case r of
        GData b \<Rightarrow> b \<noteq> [] \<and> length b \<le> buflen \<and> (\<exists>skipped l h rest. taken = skipped @ [l # GRE h # rest] \<and> g_payload h = b
          \<and> (SeqPresent h \<longrightarrow> recvSeq s \<le> g_Seq h \<and> g_Seq h = recvSeq s'))
      | GErr err \<Rightarrow> err = EOF \<and> gs_closed s \<and> recvQueue s' = []
      | GBlock \<Rightarrow> \<not> gs_closed s \<and> recvQueue s' = []
      | GPanic \<Rightarrow> \<exists>ls \<in> set taken. \<forall>l h rest. ls = l # GRE h # rest \<longrightarrow> buflen < length (g_payload h))"

lemma took_trans: "took s t s1 \<Longrightarrow> took s1 t' s2 \<Longrightarrow> took s (t @ t') s2"
  by (auto simp: took_def)

lemma read_post_later:
  assumes "took s t s1" "read_post buflen s1 t' s2 r"
  shows "read_post buflen s (t @ t') s2 r"
proof (cases r)
  case (GData b)
  with assms(2) obtain skipped l h rest where "b \<noteq> []" "length b \<le> buflen" "t' = skipped @ [l # GRE h # rest]" "g_payload h = b"
    "SeqPresent h \<longrightarrow> recvSeq s1 \<le> g_Seq h \<and> g_Seq h = recvSeq s2" by (auto simp: read_post_def)
  moreover from assms(1) have "recvSeq s \<le> recvSeq s1" by (simp add: took_def)
  ultimately show ?thesis
    using GData by (auto simp: read_post_def intro!: exI [of _ "t @ skipped"])
qed (use assms in \<open>auto simp: read_post_def took_def\<close>)

lemma recvPacket_cases:
  assumes "recvQueue s = ls # q" "recvPacket buflen s = (s1, r1)"
  obtains "r1 = GErr outOfSequencePacket" "took s [ls] s1"
  | b where "r1 = GData b" "took s [ls] s1" "b = [] \<or> read_post buflen s [ls] s1 (GData b)"
  | "r1 = GPanic" "took s [ls] s1" "read_post buflen s [ls] s1 GPanic"
  using assms
  by (auto simp: recvPacket_def Let_def took_def read_post_def not_less split: list.splits gre_layer.splits if_splits)

lemma gre_Read_spec:
  assumes "gre_Read buflen s = (s', r)"
  shows "\<exists>taken. took s taken s' \<and> read_post buflen s taken s' r"
  using assms
proof (induction buflen s arbitrary: s' r rule: gre_Read.induct)
  case (1 buflen s)
  show ?case
  proof (cases "recvQueue s")
    case Nil
    with "1.prems" show ?thesis
      by (auto simp: gre_Read.simps [of buflen s] recvPacket_def took_def read_post_def)
  next
    case (Cons ls q)
    obtain s1 r1 where p: "recvPacket buflen s = (s1, r1)" by (rule prod.exhaust)
    from Cons p show ?thesis
    proof (cases rule: recvPacket_cases)
      case 1
      with Cons p "1.prems" "1.IH" took_trans read_post_later show ?thesis
        by (simp add: gre_Read.simps [of buflen s]) (metis append_Cons append_Nil)
    next
      case (2 b)
      with Cons p "1.prems" "1.IH" took_trans read_post_later show ?thesis
        by (auto simp: gre_Read.simps [of buflen s] split: if_splits) (metis append_Cons append_Nil)
    next
      case 3
      with Cons p "1.prems" show ?thesis by (auto simp: gre_Read.simps [of buflen s])
    qed
  qed
qed

section \<open>Where queued packets come from\<close>

definition addressed :: "ip \<times> u16 \<Rightarrow> gre_packet \<Rightarrow> bool" where
  "addressed k ls \<longleftrightarrow> (\<exists>h rest. ls = GIPv4 (fst k) # GRE h # rest \<and> g_Version h = 1 \<and> g_Protocol h = EthernetTypePPP
     \<and> KeyPresent h \<and> ucast (g_Key h AND 0xffff) = snd k)"

definition session_ok :: "gre_packet set \<Rightarrow> gre_session \<Rightarrow> bool" where
  "session_ok R s \<longleftrightarrow> length (recvQueue s) \<le> recvQueueSize \<and> (\<forall>ls \<in> set (recvQueue s). ls \<in> R \<and> addressed (sessionKey s) ls)"

definition gre_inv :: "gre_packet set \<Rightarrow> 'u gre_server \<Rightarrow> bool" where
  "gre_inv R sv \<longleftrightarrow> (\<forall>i s. gr_store sv i = Some s \<longrightarrow> i < gr_next sv \<and> session_ok R s)
     \<and> (\<forall>k i. map_of (gr_sessions sv) k = Some i \<longrightarrow> (\<exists>s. gr_store sv i = Some s \<and> sessionKey s = k))"

lemma gre_invD:
  assumes "gre_inv R sv"
  shows "gr_store sv i = Some s \<Longrightarrow> i < gr_next sv \<and> session_ok R s"
    and "map_of (gr_sessions sv) k = Some i \<Longrightarrow> \<exists>s. gr_store sv i = Some s \<and> sessionKey s = k"
  using assms unfolding gre_inv_def by blast+

lemma gre_inv_conn [simp]: "gre_inv R (sv\<lparr>gr_conn := u\<rparr>) = gre_inv R sv"
  by (simp add: gre_inv_def)

lemma gre_inv_mono: "gre_inv R sv \<Longrightarrow> R \<subseteq> R' \<Longrightarrow> gre_inv R' sv"
  by (fastforce simp: gre_inv_def session_ok_def)

lemma put_session_simps [simp]:
  "gr_store (put_session i s sv) = (gr_store sv)(i \<mapsto> s)" "gr_sessions (put_session i s sv) = gr_sessions sv"
  "gr_next (put_session i s sv) = gr_next sv" "gr_conn (put_session i s sv) = gr_conn sv"
  by (simp_all add: put_session_def)

lemma gre_inv_put:
  assumes "gre_inv R sv" "gr_store sv i = Some s" "sessionKey s' = sessionKey s" "session_ok R s'"
  shows "gre_inv R (put_session i s' sv)"
  using assms by (fastforce simp: gre_inv_def)

lemma session_ok_taken:
  assumes "session_ok R s" "took s taken s'"
  shows "session_ok R s'" "sessionKey s' = sessionKey s"
  using assms by (auto simp: session_ok_def took_def sessionKey_def)

lemma gre_inv_process:
  assumes "gre_inv R sv"
  shows "gre_inv (insert pkt R) (fst (gre_processPacket pkt sv))"
proof -
  have R: "gre_inv (insert pkt R) sv" using assms by (rule gre_inv_mono) blast
  show ?thesis
  proof (cases "fst (gre_processPacket pkt sv) = sv")
    case False
    then obtain ip h rest i s where pkt: "pkt = GIPv4 ip # GRE h # rest" "g_Version h = 1" "g_Protocol h = EthernetTypePPP" "KeyPresent h"
      and i: "map_of (gr_sessions sv) (ip, ucast (g_Key h AND 0xffff)) = Some i" "gr_store sv i = Some s"
      and q: "length (recvQueue s) < recvQueueSize"
        "fst (gre_processPacket pkt sv) = put_session i (s\<lparr>recvQueue := recvQueue s @ [pkt]\<rparr>) sv"
      by (auto simp: gre_processPacket_def split: list.splits gre_layer.splits if_splits option.splits)
    from gre_invD(2) [OF R i(1)] i(2) have k: "sessionKey s = (ip, ucast (g_Key h AND 0xffff))" by simp
    with pkt have "addressed (sessionKey s) pkt" by (auto simp: addressed_def)
    with gre_invD(1) [OF R i(2)] q(1) have "session_ok (insert pkt R) (s\<lparr>recvQueue := recvQueue s @ [pkt]\<rparr>)"
      by (auto simp: session_ok_def sessionKey_def)
    with gre_inv_put [OF R i(2)] show ?thesis
      unfolding q(2) by (simp add: sessionKey_def)
  qed (simp add: R)
qed

lemma gre_inv_close:
  assumes "gre_inv R sv"
  shows "gre_inv R (fst (gre_Close i sv))"
proof (cases "gr_store sv i")
  case (Some s)
  have "gre_inv R (put_session i (s\<lparr>gs_closed := True\<rparr>) sv)"
    using gre_inv_put [OF assms Some] gre_invD(1) [OF assms Some] by (simp add: sessionKey_def session_ok_def)
  then show ?thesis
    using Some assms by (auto simp: gre_Close_def gre_inv_def delete_conv' split: if_splits)
qed (use assms in \<open>simp add: gre_Close_def\<close>)

lemma gre_inv_close_all:
  "gre_inv R sv \<Longrightarrow> close_sessions js sv = Return sv' \<Longrightarrow> gre_inv R sv'"
proof (induction js sv rule: close_sessions.induct)
  case (2 i js sv)
  show ?case
  proof (cases "gr_store sv i")
    case (Some s)
    with 2 show ?thesis
      using gre_inv_put [OF "2.prems"(1) Some] gre_invD(1) [OF "2.prems"(1) Some]
      by (auto simp: sessionKey_def session_ok_def split: if_splits)
  qed (use 2 in simp)
qed simp

fun arrived :: "gre_event list \<Rightarrow> gre_packet set" where
  "arrived [] = {}"
| "arrived (GreArrive (Inr pkt) # evs) = insert pkt (arrived evs)"
| "arrived (_ # evs) = arrived evs"

lemma gre_inv_step:
  assumes "gre_inv R sv" "gre_step E ev sv = Return sv'"
  shows "gre_inv (R \<union> arrived [ev]) sv'"
proof (cases ev)
  case (GreStart a sendID recvID)
  with assms show ?thesis
    by (auto simp: gre_inv_def startSession_def Let_def new_session_def session_ok_def update_conv' sessionKey_def
        split: if_splits dest: less_SucI) force+
next
  case (GreArrive rd)
  with assms gre_inv_process show ?thesis by (cases rd) (auto simp: gre_Run_step_def)
next
  case (GreRead i buflen)
  with assms show ?thesis
    by (auto split: option.splits prod.splits if_splits dest!: gre_Read_spec intro: gre_inv_put session_ok_taken dest: gre_invD(1))
next
  case (GreWrite i frame)
  with assms show ?thesis
    by (auto simp: gre_Write_def sendPacket_def Let_def sessionKey_def session_ok_def
        split: option.splits prod.splits intro!: gre_inv_put dest: gre_invD(1))
next
  case GreShutdown
  with assms gre_inv_close_all show ?thesis
    by (auto simp: gre_server_Close_def split: outcome.splits prod.splits)
qed (use assms gre_inv_close in auto)

lemma gre_inv_run:
  "gre_inv R sv \<Longrightarrow> gre_run E evs sv = Return sv' \<Longrightarrow> gre_inv (R \<union> arrived evs) sv'"
proof (induction evs arbitrary: R sv)
  case (Cons ev evs)
  from Cons.prems(2) obtain sv1 where "gre_step E ev sv = Return sv1" "gre_run E evs sv1 = Return sv'"
    by (auto split: outcome.splits)
  with Cons.IH [OF gre_inv_step [OF Cons.prems(1)]] have "gre_inv (R \<union> arrived [ev] \<union> arrived evs) sv'" by blast
  moreover have "arrived (ev # evs) = arrived [ev] \<union> arrived evs"
    by (cases "(ev # evs)" rule: arrived.cases) auto
  ultimately show ?case by (simp add: Un_assoc)
qed simp

text \<open>
  C13. GRE sessions are kept apart. Whatever has happened since the server was started, at most 16 packets wait in a
  session; what a read of a session returns is the payload of a packet that arrived from the address of its peer
  with the call ID of the session as key, and whose sequence number is not below that of the packet returned last; a
  read does not panic as long as no packet is longer than its buffer, and fails only after the session was closed.
\<close>

theorem gre_isolation:
  assumes "gre_run E evs (startGREServer u) = Return sv" "gr_store sv i = Some s" "gre_Read buflen s = (s', r)"
    and "\<forall>ip h rest. GIPv4 ip # GRE h # rest \<in> arrived evs \<longrightarrow> length (g_payload h) \<le> buflen"
  shows "length (recvQueue s) \<le> 16 \<and> r \<noteq> GPanic \<and> (\<forall>err. r = GErr err \<longrightarrow> err = EOF \<and> gs_closed s)
    \<and> (\<forall>b. r = GData b \<longrightarrow> (\<exists>h rest. GIPv4 (gs_addr s) # GRE h # rest \<in> arrived evs \<and> g_payload h = b
         \<and> ucast (g_Key h AND 0xffff) = recvCallID s \<and> (SeqPresent h \<longrightarrow> recvSeq s \<le> g_Seq h \<and> recvSeq s' = g_Seq h)))"
proof -
  have "gre_inv {} (startGREServer u)" by (simp add: gre_inv_def startGREServer_def)
  from gre_inv_run [OF this assms(1)] have "gre_inv (arrived evs) sv" by simp
  from gre_invD(1) [OF this assms(2)] have ok: "session_ok (arrived evs) s" by simp
  from gre_Read_spec [OF assms(3)] obtain taken where t: "took s taken s'" and p: "read_post buflen s taken s' r" by blast
  have from_queue: "ls \<in> arrived evs \<and> addressed (sessionKey s) ls" if "ls \<in> set taken" for ls
    using that ok t by (auto simp: session_ok_def took_def)
  have "r \<noteq> GPanic"
  proof
    assume "r = GPanic"
    with p obtain ls where "ls \<in> set taken" "\<forall>l h rest. ls = l # GRE h # rest \<longrightarrow> buflen < length (g_payload h)"
      by (auto simp: read_post_def)
    with from_queue [of ls] assms(4) show False by (fastforce simp: addressed_def)
  qed
  moreover have "\<exists>h rest. GIPv4 (gs_addr s) # GRE h # rest \<in> arrived evs \<and> g_payload h = b
      \<and> ucast (g_Key h AND 0xffff) = recvCallID s \<and> (SeqPresent h \<longrightarrow> recvSeq s \<le> g_Seq h \<and> recvSeq s' = g_Seq h)" if "r = GData b" for b
  proof -
    from p that obtain skipped l h rest where h: "taken = skipped @ [l # GRE h # rest]" "g_payload h = b"
      "SeqPresent h \<longrightarrow> recvSeq s \<le> g_Seq h \<and> g_Seq h = recvSeq s'" by (auto simp: read_post_def)
    with from_queue [of "l # GRE h # rest"] show ?thesis by (auto simp: addressed_def sessionKey_def)
  qed
  moreover have "err = EOF \<and> gs_closed s" if "r = GErr err" for err using p that by (simp add: read_post_def)
  ultimately show ?thesis using ok by (auto simp: session_ok_def recvQueueSize_def)
qed

section \<open>Sequence numbers\<close>

text \<open>What can happen to one session: the handling of its packets in the order of its channel.\<close>

datatype gs_op = GsSend bytes | GsRead nat | GsArrive gre_packet

fun gs_step :: "'u gre_env \<Rightarrow> gs_op \<Rightarrow> gre_session \<times> 'u \<Rightarrow> gre_session \<times> 'u" where
  "gs_step E (GsSend frame) (s, u) = (case gre_Write E frame s u of (s', u', _) \<Rightarrow> (s', u'))"
| "gs_step E (GsRead buflen) (s, u) = (fst (gre_Read buflen s), u)"
| "gs_step E (GsArrive pkt) (s, u) = (s\<lparr>recvQueue := recvQueue s @ [pkt]\<rparr>, u)"

fun frames_sent :: "gs_op list \<Rightarrow> bytes list" where
  "frames_sent [] = []"
| "frames_sent (GsSend frame # ops) = frame # frames_sent ops"
| "frames_sent (_ # ops) = frames_sent ops"

lemma frames_sent_append [simp]: "frames_sent (xs @ ys) = frames_sent xs @ frames_sent ys"
  by (induction xs rule: frames_sent.induct) simp_all

definition log_gre :: "(gre \<Rightarrow> bytes \<Rightarrow> bytes) \<Rightarrow> (ip \<times> bytes) list gre_env" where
  "log_gre ser = \<lparr>g_serialize = ser, WriteToIP = (\<lambda>b a u. (u @ [(a, b)], None)), ipconn_Close = (\<lambda>u. (u, None))\<rparr>"

abbreviation seqs :: "(gre \<times> bytes) list \<Rightarrow> u32 list" where
  "seqs hs \<equiv> map (g_Seq \<circ> fst) (filter (SeqPresent \<circ> fst) hs)"

abbreviation acks :: "(gre \<times> bytes) list \<Rightarrow> u32 list" where
  "acks hs \<equiv> map (g_Ack \<circ> fst) (filter (AckPresent \<circ> fst) hs)"

lemma gre_key:
  "ucast ((of_nat (n * 65536) OR ucast (c :: u16)) AND (0xffff :: u32)) = c"
  "n < 65536 \<Longrightarrow> unat (drop_bit 16 (of_nat (n * 65536) OR ucast (c :: u16) :: u32)) = n"
proof -
  have k: "(of_nat (n * 65536) :: u32) = push_bit 16 (of_nat n)" by (simp add: push_bit_eq_mult)
  have m: "(0xffff :: u32) = mask 16" by (simp add: mask_eq_exp_minus_1)
  show "ucast ((of_nat (n * 65536) OR ucast c) AND (0xffff :: u32)) = c"
    unfolding k m by (rule bit_word_eqI) (auto simp: bit_simps)
  assume n: "n < 65536"
  have "drop_bit 16 (push_bit 16 (of_nat n) OR ucast c :: u32) = of_nat n"
  proof (rule bit_word_eqI)
    fix b assume "b < LENGTH(32)"
    moreover have "b < 16" if "bit n b"
    proof (rule ccontr)
      assume "\<not> b < 16"
      then have "n < 2 ^ b" using n power_increasing [of 16 b "2 :: nat"] by simp
      with that show False by (simp add: bit_iff_odd)
    qed
    moreover have "\<not> bit c (16 + b)" by (auto dest: bit_imp_le_length)
    ultimately show "bit (drop_bit 16 (push_bit 16 (of_nat n) OR ucast c :: u32)) b = bit (of_nat n :: u32) b"
      by (auto simp: bit_simps)
  qed
  then show "unat (drop_bit 16 (of_nat (n * 65536) OR ucast c :: u32)) = n"
    unfolding k using n by (simp add: unat_of_nat)
qed

text \<open>What holds between a session and the headers and frames it has sent.\<close>

definition seq_inv :: "ip \<Rightarrow> u16 \<Rightarrow> gre_session \<Rightarrow> (gre \<times> bytes) list \<Rightarrow> bool" where
  "seq_inv a sendID s hs \<longleftrightarrow> gs_addr s = a \<and> sendCallID s = sendID
     \<and> seqs hs = map of_nat [0..<length (seqs hs)] \<and> sentSeq s = of_nat (length (seqs hs))
     \<and> sorted_wrt (<) (acks hs) \<and> (\<forall>k \<in> set (acks hs). k \<le> recvAcked s) \<and> recvAcked s \<le> recvSeq s
     \<and> list_all (\<lambda>(h, frame). (SeqPresent h \<longleftrightarrow> frame \<noteq> []) \<and> ucast (g_Key h AND 0xffff) = sendID
         \<and> (length frame < 65536 \<longrightarrow> unat (drop_bit 16 (g_Key h)) = length frame)) hs"

lemma seq_inv_send:
  assumes "seq_inv a sendID s hs" "sendPacket (log_gre ser) frame s u = (s', u', err)"
  shows "u' = u @ [(a, ser (gre_header frame s) frame)] \<and> seq_inv a sendID s' (hs @ [(gre_header frame s, frame)])"
proof -
  from assms(2) have s': "gs_addr s' = gs_addr s" "sendCallID s' = sendCallID s"
    "sentSeq s' = (if frame \<noteq> [] then sentSeq s + 1 else sentSeq s)"
    "recvSeq s' = recvSeq s" "recvAcked s' = (if recvAcked s < recvSeq s then recvSeq s else recvAcked s)"
    and u': "u' = u @ [(gs_addr s, ser (gre_header frame s) frame)]"
    by (auto simp: sendPacket_def Let_def log_gre_def split: if_splits)
  define g where "g = gre_header frame s"
  have h: "SeqPresent g \<longleftrightarrow> frame \<noteq> []" "frame \<noteq> [] \<Longrightarrow> g_Seq g = sentSeq s"
    "AckPresent g \<longleftrightarrow> recvAcked s < recvSeq s" "recvAcked s < recvSeq s \<Longrightarrow> g_Ack g = recvSeq s"
    "ucast (g_Key g AND 0xffff) = sendCallID s" "length frame < 65536 \<Longrightarrow> unat (drop_bit 16 (g_Key g)) = length frame"
    by (simp_all add: g_def gre_header_def gre_key del: of_nat_mult drop_bit_or)
  from assms(1) show ?thesis
    unfolding seq_inv_def g_def [symmetric] by (auto simp: s' u' h sorted_wrt_append g_def [symmetric])
qed

lemma seq_inv_step:
  assumes "seq_inv a sendID s hs" "gs_step (log_gre ser) op (s, u) = (s', u')"
  shows "\<exists>hs'. u' = u @ map (\<lambda>(h, frame). (a, ser h frame)) hs' \<and> map snd hs' = frames_sent [op] \<and> seq_inv a sendID s' (hs @ hs')"
proof (cases op)
  case (GsSend frame)
  with assms(2) obtain err where "sendPacket (log_gre ser) frame s u = (s', u', err)"
    by (auto simp: gre_Write_def split: prod.splits)
  from seq_inv_send [OF assms(1) this] GsSend show ?thesis
    by (intro exI [of _ "[(gre_header frame s, frame)]"]) simp
next
  case (GsRead buflen)
  obtain s1 r where r: "gre_Read buflen s = (s1, r)" by (rule prod.exhaust)
  from gre_Read_spec [OF r] obtain taken where "took s taken s1" by blast
  with assms r GsRead show ?thesis
    by (intro exI [of _ "[]"]) (auto simp: seq_inv_def took_def)
qed (use assms in \<open>auto simp: seq_inv_def\<close>)

lemma seq_inv_run:
  assumes "seq_inv a sendID s hs" "fold (gs_step (log_gre ser)) ops (s, u) = (s', u')"
  shows "\<exists>hs'. u' = u @ map (\<lambda>(h, frame). (a, ser h frame)) hs' \<and> map snd hs' = frames_sent ops \<and> seq_inv a sendID s' (hs @ hs')"
  using assms
proof (induction ops arbitrary: s u hs)
  case (Cons op ops)
  obtain s1 u1 where s1: "gs_step (log_gre ser) op (s, u) = (s1, u1)" by (rule prod.exhaust)
  from seq_inv_step [OF Cons.prems(1) s1] obtain hs1 where 1: "u1 = u @ map (\<lambda>(h, frame). (a, ser h frame)) hs1"
    "map snd hs1 = frames_sent [op]" "seq_inv a sendID s1 (hs @ hs1)" by blast
  from Cons.IH [OF 1(3)] Cons.prems(2) s1 obtain hs2 where 2: "u' = u1 @ map (\<lambda>(h, frame). (a, ser h frame)) hs2"
    "map snd hs2 = frames_sent ops" "seq_inv a sendID s' ((hs @ hs1) @ hs2)" by auto
  from 1 2 frames_sent_append [of "[op]" ops] show ?case
    by (intro exI [of _ "hs1 @ hs2"]) simp
qed (auto intro!: exI [of _ "[]"])

text \<open>
  C26. Numbering of a GRE session. Every frame that a session is given is sent once, in order, to its peer; the headers
  carry the call ID of the peer and the length of the frame in the key; frames that are not empty are numbered
  0, 1, 2 and so on, modulo \<open>2 ^ 32\<close>, and the empty ones not at all; acknowledgements are sent with strictly
  increasing numbers, none of them twice, and never for a packet that has not been received.
\<close>

theorem gre_sequence:
  assumes "fold (gs_step (log_gre ser)) ops (new_session a sendID recvID, []) = (s, out)"
  shows "\<exists>hs. out = map (\<lambda>(h, frame). (a, ser h frame)) hs \<and> map snd hs = frames_sent ops
    \<and> map (g_Seq \<circ> fst) (filter (SeqPresent \<circ> fst) hs) = map of_nat [0..<length (filter (SeqPresent \<circ> fst) hs)]
    \<and> sorted_wrt (<) (map (g_Ack \<circ> fst) (filter (AckPresent \<circ> fst) hs))
    \<and> list_all (\<lambda>(h, frame). (SeqPresent h \<longleftrightarrow> frame \<noteq> []) \<and> (AckPresent h \<longrightarrow> g_Ack h \<le> recvSeq s)
        \<and> ucast (g_Key h AND 0xffff) = sendID
        \<and> (length frame < 65536 \<longrightarrow> unat (drop_bit 16 (g_Key h)) = length frame)) hs"
proof -
  have "seq_inv a sendID (new_session a sendID recvID) []"
    by (simp add: seq_inv_def new_session_def)
  from seq_inv_run [OF this assms] obtain hs
    where hs: "out = map (\<lambda>(h, frame). (a, ser h frame)) hs" "map snd hs = frames_sent ops" and i: "seq_inv a sendID s hs" by auto
  have "AckPresent h \<longrightarrow> g_Ack h \<le> recvSeq s" if "(h, frame) \<in> set hs" for h frame
    using i that unfolding seq_inv_def by force
  with hs i show ?thesis
    by (intro exI [of _ hs]) (auto simp: seq_inv_def list_all_iff)
qed

section \<open>Two deviations\<close>

text \<open>A packet that arrives twice is delivered twice: only smaller sequence numbers are dropped.\<close>

lemma duplicate_delivered:
  assumes "g_Seq h = recvSeq s" "SeqPresent h" "g_payload h \<noteq> []" "length (g_payload h) \<le> buflen"
    "recvQueue s = [l # GRE h # rest, l # GRE h # rest]"
  shows "\<exists>s'. gre_Read buflen s = (s', GData (g_payload h)) \<and> snd (gre_Read buflen s') = GData (g_payload h)"
  using assms by (simp add: gre_Read.simps recvPacket_def Let_def)

text \<open>
  Closing a session whose place in the map was taken by a later session with the same key removes the later one, which
  gets no more packets although it is open.
\<close>

lemma replaced_close:
  assumes "startSession a sendID recvID sv = (sv1, i)" "startSession a sendID' recvID sv1 = (sv2, j)"
  shows "\<exists>sv3. gre_Close i sv2 = (sv3, None) \<and> map_of (gr_sessions sv2) (a, recvID) = Some j
    \<and> map_of (gr_sessions sv3) (a, recvID) = None
    \<and> (\<exists>s. gr_store sv3 j = Some s \<and> \<not> gs_closed s \<and> sessionKey s = (a, recvID))"
  using assms
  by (auto simp: startSession_def gre_Close_def Let_def new_session_def sessionKey_def put_session_def update_conv' delete_conv')

section \<open>A concrete session\<close>

definition demo_gre :: "u32 \<Rightarrow> bytes \<Rightarrow> gre_packet" where
  "demo_gre n b = [GIPv4 ''10.0.0.2'', GRE \<lparr>g_Protocol = EthernetTypePPP, KeyPresent = True, g_Key = 384, g_Version = 1,
     SeqPresent = True, g_Seq = n, AckPresent = False, g_Ack = 0, g_payload = b\<rparr>]"

definition demo_gre_events :: "gre_event list" where
  "demo_gre_events = [GreStart ''10.0.0.2'' 7 384, GreArrive (Inr (demo_gre 3 [1, 2])), GreArrive (Inr (demo_gre 2 [9])),
     GreRead 0 1500, GreArrive (Inr (demo_gre 4 [5]))]"

lemmas gre_eval = demo_gre_events_def demo_gre_def startGREServer_def startSession_def new_session_def gre_Run_step_def
  gre_processPacket_def recvPacket_def sessionKey_def EthernetTypePPP_def recvQueueSize_def put_session_def
  gre_Read.simps Let_def outOfSequencePacket_def

theorem gre_isolation_witness:
  "\<exists>sv s s'. gre_run (log_gre (\<lambda>h b. b)) demo_gre_events (startGREServer []) = Return sv
     \<and> gr_store sv 0 = Some s \<and> gre_Read 1500 s = (s', GData [5])
     \<and> (\<exists>h rest. GIPv4 ''10.0.0.2'' # GRE h # rest \<in> arrived demo_gre_events \<and> g_payload h = [5])"
proof -
  have a: "\<forall>ip h rest. GIPv4 ip # GRE h # rest \<in> arrived demo_gre_events \<longrightarrow> length (g_payload h) \<le> 1500"
    by (auto simp: demo_gre_events_def demo_gre_def)
  have r: "\<exists>sv s s'. gre_run (log_gre (\<lambda>h b. b)) demo_gre_events (startGREServer []) = Return sv
      \<and> gr_store sv 0 = Some s \<and> gre_Read 1500 s = (s', GData [5]) \<and> gs_addr s = ''10.0.0.2''"
    by (simp add: gre_eval)
  then obtain sv s s' where g: "gre_run (log_gre (\<lambda>h b. b)) demo_gre_events (startGREServer []) = Return sv"
    "gr_store sv 0 = Some s" "gre_Read 1500 s = (s', GData [5])" "gs_addr s = ''10.0.0.2''" by blast
  from gre_isolation [OF g(1-3) a] g show ?thesis by auto
qed

theorem gre_sequence_witness:
  "\<exists>s out hs. fold (gs_step (log_gre (\<lambda>h b. b))) [GsSend [1], GsArrive (demo_gre 5 [8]), GsRead 1500, GsSend [2, 3]]
       (new_session ''10.0.0.2'' 7 384, []) = (s, out)
     \<and> out = map (\<lambda>(h :: gre, frame). (''10.0.0.2'', frame)) hs \<and> map (g_Seq \<circ> fst) (filter (SeqPresent \<circ> fst) hs) = [0, 1]"
proof -
  obtain s out where g: "fold (gs_step (log_gre (\<lambda>h b. b))) [GsSend [1], GsArrive (demo_gre 5 [8]), GsRead 1500, GsSend [2, 3]]
       (new_session ''10.0.0.2'' 7 384, []) = (s, out)" by (rule prod.exhaust)
  from gre_sequence [OF g] obtain hs where hs: "out = map (\<lambda>(h :: gre, frame). (''10.0.0.2'', frame)) hs"
    "map snd hs = frames_sent [GsSend [1], GsArrive (demo_gre 5 [8]), GsRead 1500, GsSend [2, 3]]"
    "map (g_Seq \<circ> fst) (filter (SeqPresent \<circ> fst) hs) = map of_nat [0..<length (filter (SeqPresent \<circ> fst) hs)]"
    "list_all (\<lambda>(h, frame). (SeqPresent h \<longleftrightarrow> frame \<noteq> []) \<and> (AckPresent h \<longrightarrow> g_Ack h \<le> recvSeq s)
        \<and> ucast (g_Key h AND 0xffff) = (7 :: u16)
        \<and> (length frame < 65536 \<longrightarrow> unat (drop_bit 16 (g_Key h)) = length frame)) hs"
    by (elim exE conjE) (rule that; assumption)
  from hs(2) obtain h1 h2 where "hs = [(h1, [1]), (h2, [2, 3])]" by (auto simp: map_eq_Cons_conv)
  moreover from this hs(4) have "SeqPresent h1" "SeqPresent h2" by simp_all
  ultimately show ?thesis using hs(1,3) g by (intro exI [of _ s] exI [of _ out] exI [of _ hs]) simp
qed

end
