(* ===== verification/Pptp.thy ===== *)
theory Pptp
  imports Session Gre Stack
begin

text \<open>
  The PPTP server (\<^verbatim>\<open>src/ppp/pptp/server.go\<close>): a control connection over TCP answers start requests, echo requests and call
  requests; a call starts a GRE session and a PPP session of a new node over it. The model puts together the components \<open>Gre\<close>
  and \<open>Session\<close>: the PPP session of a connection uses the GRE session \<open>i\<close> as its channel (\<open>gre_channel i\<close>).
\<close>

section \<open>State\<close>

definition pptp_magicNumber :: u32 where
  "pptp_magicNumber = 0x1a2b3c4d"

definition msgStartControlConnectionRequest :: u16 where "msgStartControlConnectionRequest = 1"

definition msgEchoRequest :: u16 where "msgEchoRequest = 5"

definition msgOutgoingCallRequest :: u16 where "msgOutgoingCallRequest = 7"

definition msgCallClearRequest :: u16 where "msgCallClearRequest = 12"

lemmas msg_types = msgStartControlConnectionRequest_def msgEchoRequest_def msgOutgoingCallRequest_def msgCallClearRequest_def

text \<open>What a connection is connected to, with the address of the peer, and the connection with everything it acts on.\<close>

record ('s, 't, 'u) pptp_env =
  pp_net :: "'s network"
  pp_gre :: "'u gre_env"
  pp_encode :: "PPPType \<Rightarrow> bytes \<Rightarrow> bytes"
  pp_decode :: "bytes \<Rightarrow> (PPPType \<times> bytes) option"
  tcp_Write :: "bytes \<Rightarrow> 't \<Rightarrow> 't \<times> error option"
  tcp_Close :: "'t \<Rightarrow> 't \<times> error option"
  RemoteAddr :: ip

record ('s, 't, 'u) connection =
  callID :: u16
  c_ppp :: "(session \<times> nat) option"
  c_conn :: 't
  c_net :: 's
  c_gre :: "'u gre_server"

definition newConnection :: "'t \<Rightarrow> u16 \<Rightarrow> 's \<Rightarrow> 'u gre_server \<Rightarrow> ('s, 't, 'u) connection" where
  "newConnection conn i net gre = \<lparr>callID = i, c_ppp = None, c_conn = conn, c_net = net, c_gre = gre\<rparr>"

text \<open>The GRE session \<open>i\<close> as the channel of a PPP session.\<close>

definition gre_channel :: "'u gre_env \<Rightarrow> nat \<Rightarrow> 'u gre_server channel" where
  "gre_channel E i =
     \<lparr>cWrite = (\<lambda>frame sv.
        case gr_store sv i of
          None \<Rightarrow> (sv, None)
        | Some s \<Rightarrow>
            (case gre_Write E frame s (gr_conn sv) of (s', u, err) \<Rightarrow> (put_session i s' (sv\<lparr>gr_conn := u\<rparr>), err))),
      cClose = gre_Close i\<rparr>"

definition ppp_env :: "('s, 't, 'u) pptp_env \<Rightarrow> nat \<Rightarrow> ('s, 'u gre_server) penv" where
  "ppp_env E i = \<lparr>pe_net = pp_net E, pe_chan = gre_channel (pp_gre E) i, ppp_encode = pp_encode E, ppp_decode = pp_decode E\<rparr>"

text \<open>A call of a method of the PPP session, if there is one.\<close>

definition on_ppp ::
  "((session \<times> nat) \<Rightarrow> ('s, 'u gre_server) pworld \<Rightarrow> ('s, 'u gre_server) pworld \<times> error option)
     \<Rightarrow> ('s, 't, 'u) connection \<Rightarrow> ('s, 't, 'u) connection \<times> error option" where
  "on_ppp f c =
     (case c_ppp c of
        None \<Rightarrow> (c, None)
      | Some (s, i) \<Rightarrow>
          (case f (s, i) \<lparr>p_sess = s, p_net = c_net c, p_chan = c_gre c\<rparr> of
             (w, err) \<Rightarrow> (c\<lparr>c_ppp := Some (p_sess w, i), c_net := p_net w, c_gre := p_chan w\<rparr>, err)))"

section \<open>Messages\<close>

definition sendMessage :: "('s, 't, 'u) pptp_env \<Rightarrow> bytes \<Rightarrow> ('s, 't, 'u) connection \<Rightarrow> ('s, 't, 'u) connection" where
  "sendMessage E msg c =
     (let msg = put_be16 (of_nat (length msg + 2)) @ msg in c\<lparr>c_conn := fst (tcp_Write E msg (c_conn c))\<rparr>)"

definition start_reply :: bytes where
  "start_reply =
     [0x00, 0x01, 0x1a, 0x2b, 0x3c, 0x4d, 0x00, 0x02, 0x00, 0x00, 0x01, 0x00, 0x01, 0x00,
      0x00, 0x00, 0x00, 0x00, 0x00, 0x00, 0x00, 0x00, 0x00, 0x01, 0x00, 0x01]
     @ take 64 (map of_char ''server'' @ replicate 64 0) @ take 64 (map of_char ''ipxbox'' @ replicate 64 0)"

definition handleStartControl :: "('s, 't, 'u) pptp_env \<Rightarrow> bytes \<Rightarrow> ('s, 't, 'u) connection \<Rightarrow> ('s, 't, 'u) connection" where
  "handleStartControl E msg c = sendMessage E start_reply c"

definition echo_reply :: "bytes \<Rightarrow> bytes" where
  "echo_reply identifier =
     [0x00, 0x01, 0x1a, 0x2b, 0x3c, 0x4d, 0x00, 0x06, 0x00, 0x00] @ identifier @ [0x01, 0x00, 0x00, 0x00]"

definition handleEcho :: "('s, 't, 'u) pptp_env \<Rightarrow> bytes \<Rightarrow> ('s, 't, 'u) connection \<Rightarrow> ('s, 't, 'u) connection outcome" where
  "handleEcho E msg c =
     (if length msg < 14 then Panic else Return (sendMessage E (echo_reply (go_slice 10 14 msg)) c))"

definition pptp_Close :: "('s, 't, 'u) pptp_env \<Rightarrow> ('s, 't, 'u) connection \<Rightarrow> ('s, 't, 'u) connection \<times> error option" where
  "pptp_Close E c =
     (let (conn, err1) = tcp_Close E (c_conn c);
          (c, err2) = on_ppp (\<lambda>(s, i). session_Close (ppp_env E i)) (c\<lparr>c_conn := conn\<rparr>)
      in (c, if err1 \<noteq> None then err1 else if err2 \<noteq> None then err2 else None))"

text \<open>\<open>None\<close>: the call of \<^verbatim>\<open>NewNode\<close> does not return.\<close>

definition startPPPSession ::
  "('s, 't, 'u) pptp_env \<Rightarrow> env \<Rightarrow> u16 \<Rightarrow> ('s, 't, 'u) connection \<Rightarrow> ('s, 't, 'u) connection option" where
  "startPPPSession E e sendID c =
     (if c_ppp c \<noteq> None then Some c
      else
        let (sv, i) = startSession (RemoteAddr E) sendID (callID c) (c_gre c)
        in map_option (\<lambda>(net, r).
             case r of
               Inl err \<Rightarrow> c\<lparr>c_net := net, c_gre := fst (gre_Close i sv), c_conn := fst (tcp_Close E (c_conn c))\<rparr>
             | Inr node \<Rightarrow> c\<lparr>c_net := net, c_gre := sv, c_ppp := Some (NewSession node, i)\<rparr>)
             (NewNode (pp_net E) e (c_net c)))"

definition call_reply :: "u16 \<Rightarrow> bytes \<Rightarrow> bytes" where
  "call_reply i msg =
     [0x00, 0x01, 0x1a, 0x2b, 0x3c, 0x4d, 0x00, 0x08, 0x00, 0x00] @ put_be16 i @ go_slice 10 12 msg
     @ [0x01, 0x00, 0x00, 0x00] @ go_slice 18 22 msg @ put_be16 1024 @ [0x00, 0x00, 0x00, 0x00, 0x00, 0x00]"

definition handleOutgoingCall ::
  "('s, 't, 'u) pptp_env \<Rightarrow> env \<Rightarrow> bytes \<Rightarrow> ('s, 't, 'u) connection \<Rightarrow> ('s, 't, 'u) connection option" where
  "handleOutgoingCall E e msg c =
     (if length msg < 22 then Some c
      else map_option (sendMessage E (call_reply (callID c) msg)) (startPPPSession E e (be_u16 (msg ! 10) (msg ! 11)) c))"

section \<open>The control connection\<close>

text \<open>
  \<open>rd n\<close> is a read of at most \<open>n\<close> bytes on the connection, of which the source does not check how many it got:
  the rest of the buffer keeps its zeros.
\<close>

definition read_buffer :: "(nat \<Rightarrow> 'r \<Rightarrow> 'r \<times> (error + bytes)) \<Rightarrow> nat \<Rightarrow> 'r \<Rightarrow> 'r \<times> (error + bytes)" where
  "read_buffer rd n r =
     (case rd n r of (r, Inl err) \<Rightarrow> (r, Inl err) | (r, Inr b) \<Rightarrow> (r, Inr (take n (b @ replicate n 0))))"

definition readNextMessage :: "(nat \<Rightarrow> 'r \<Rightarrow> 'r \<times> (error + bytes)) \<Rightarrow> 'r \<Rightarrow> 'r \<times> (error + bytes)" where
  "readNextMessage rd r =
     (case read_buffer rd 2 r of
        (r, Inl err) \<Rightarrow> (r, Inl err)
      | (r, Inr lenField) \<Rightarrow>
          let msglen = be_u16 (lenField ! 0) (lenField ! 1)
          in if msglen < 16 then (r, Inl (Errorf ''message too short'' [uint msglen]))
             else if msglen > 256 then (r, Inl (Errorf ''message too long'' [uint msglen]))
             else
               (case read_buffer rd (unat (msglen - 2)) r of
                  (r, Inl err) \<Rightarrow> (r, Inl err)
                | (r, Inr result) \<Rightarrow>
                    let gotMsgType = be_u16 (result ! 0) (result ! 1);
                        gotMagicNumber = be_u32 (result ! 2) (result ! 3) (result ! 4) (result ! 5)
                    in if gotMsgType \<noteq> 1 then (r, Inl (Errorf ''wrong PPTP message type'' [1, uint gotMsgType]))
                       else if pptp_magicNumber \<noteq> gotMagicNumber
                       then (r, Inl (Errorf ''wrong magic number'' [uint pptp_magicNumber, uint gotMagicNumber]))
                       else (r, Inr result)))"

text \<open>One iteration of \<^verbatim>\<open>run\<close>; the flag says whether the loop goes on.\<close>

definition run_step ::
  "('s, 't, 'u) pptp_env \<Rightarrow> (nat \<Rightarrow> 'r \<Rightarrow> 'r \<times> (error + bytes)) \<Rightarrow> env \<Rightarrow> 'r \<times> ('s, 't, 'u) connection
     \<Rightarrow> ('r \<times> ('s, 't, 'u) connection \<times> bool) outcome option" where
  "run_step E rd e rc =
     (case rc of
        (r, c) \<Rightarrow>
          (case readNextMessage rd r of
             (r, Inl err) \<Rightarrow> Some (Return (r, c, False))
           | (r, Inr msg) \<Rightarrow>
               if length msg < 8 then Some Panic
               else
                 let msgtype = be_u16 (msg ! 6) (msg ! 7)
                 in if msgtype = msgStartControlConnectionRequest then Some (Return (r, handleStartControl E msg c, True))
                    else if msgtype = msgEchoRequest
                    then Some (case handleEcho E msg c of Return c \<Rightarrow> Return (r, c, True) | Fail err \<Rightarrow> Fail err | Panic \<Rightarrow> Panic)
                    else if msgtype = msgOutgoingCallRequest
                    then map_option (\<lambda>c. Return (r, c, True)) (handleOutgoingCall E e msg c)
                    else if msgtype = msgCallClearRequest then Some (Return (r, c, False))
                    else Some (Return (r, c, True))))"

text \<open>What \<^verbatim>\<open>run\<close> does after the loop.\<close>

definition run_end :: "('s, 't, 'u) pptp_env \<Rightarrow> ('s, 't, 'u) connection \<Rightarrow> ('s, 't, 'u) connection" where
  "run_end E c =
     (let msg = ''PPTP control connection closed by client'';
          (c, _) = on_ppp (\<lambda>(s, i) w. (Terminate (ppp_env E i) (Some (Errorf msg [])) (map of_char msg) w, None)) c
      in fst (pptp_Close E c))"

fun pptp_run ::
  "('s, 't, 'u) pptp_env \<Rightarrow> (nat \<Rightarrow> 'r \<Rightarrow> 'r \<times> (error + bytes)) \<Rightarrow> env list \<Rightarrow> 'r \<times> ('s, 't, 'u) connection
     \<Rightarrow> ('r \<times> ('s, 't, 'u) connection \<times> bool) outcome option" where
  "pptp_run E rd [] (r, c) = Some (Return (r, c, True))"
| "pptp_run E rd (e # es) (r, c) =
     (case run_step E rd e (r, c) of
        Some (Return (r, c, True)) \<Rightarrow> pptp_run E rd es (r, c)
      | Some (Return (r, c, False)) \<Rightarrow> Some (Return (r, run_end E c, False))
      | x \<Rightarrow> x)"

section \<open>The server\<close>

record ('s, 't, 'u) pptp_server =
  nextCallID :: u16
  ps_net :: 's
  ps_gre :: "'u gre_server"

definition NewServer :: "'s \<Rightarrow> 'u \<Rightarrow> ('s, 't, 'u) pptp_server" where
  "NewServer n u = \<lparr>nextCallID = 384, ps_net = n, ps_gre = startGREServer u\<rparr>"

text \<open>One iteration of \<^verbatim>\<open>Server.Run\<close>: a new connection with the next call ID.\<close>

definition pptp_Run_step :: "'t \<Rightarrow> ('s, 't, 'u) pptp_server \<Rightarrow> ('s, 't, 'u) pptp_server \<times> ('s, 't, 'u) connection" where
  "pptp_Run_step conn sv =
     (sv\<lparr>nextCallID := (nextCallID sv + 1) AND 0xffff\<rparr>, newConnection conn (nextCallID sv) (ps_net sv) (ps_gre sv))"

text \<open>\<open>lerr\<close> is what closing the listener returns.\<close>

definition pptp_server_Close ::
  "'u gre_env \<Rightarrow> error option \<Rightarrow> ('s, 't, 'u) pptp_server \<Rightarrow> (('s, 't, 'u) pptp_server \<times> error option) outcome" where
  "pptp_server_Close G lerr sv =
     (case gre_server_Close G (ps_gre sv) of
        Return (gre, _) \<Rightarrow> Return (sv\<lparr>ps_gre := gre\<rparr>, lerr)
      | Fail err \<Rightarrow> Fail err
      | Panic \<Rightarrow> Panic)"

section \<open>Every message sent is well-formed\<close>

text \<open>A control message of a type that a server sends, with the length that the type has.\<close>

definition control_message :: "bytes \<Rightarrow> bool" where
  "control_message m \<longleftrightarrow> (\<exists>(t, n) \<in> {(2, 156), (6, 20), (8, 32)}. length m = n \<and> be_u16 (m ! 0) (m ! 1) = of_nat n
     \<and> be_u16 (m ! 2) (m ! 3) = 1 \<and> be_u32 (m ! 4) (m ! 5) (m ! 6) (m ! 7) = pptp_magicNumber \<and> be_u16 (m ! 8) (m ! 9) = t)"

text \<open>A control connection that keeps what is written.\<close>

definition log_tcp :: "('s, bytes list, 'u) pptp_env \<Rightarrow> bool" where
  "log_tcp E \<longleftrightarrow> (\<forall>m t. fst (tcp_Write E m t) = t @ [m]) \<and> (\<forall>t. fst (tcp_Close E t) = t)"

definition framed :: "bytes \<Rightarrow> bytes" where
  "framed msg = put_be16 (of_nat (length msg + 2)) @ msg"

lemma be_u16_consts: "be_u16 0 1 = 1" "be_u16 0 2 = 2" "be_u16 0 6 = 6" "be_u16 0 8 = 8"
  by (simp_all add: be_u16_def)

lemma be_u32_magic: "be_u32 0x1a 0x2b 0x3c 0x4d = pptp_magicNumber"
  by (simp add: be_u32_def pptp_magicNumber_def)

lemma framed_control:
  assumes "r = [0x00, 0x01, 0x1a, 0x2b, 0x3c, 0x4d, 0x00, t] @ rest"
    and "(be_u16 0 t, length rest + 10) \<in> {(2, 156), (6, 20), (8, 32)}"
  shows "control_message (framed r)"
  using assms(2) unfolding control_message_def assms(1) framed_def
  by (auto simp: put_be16_def be_u16_consts be_u32_magic intro!: exI)

lemma replies_control:
  "control_message (framed start_reply)"
  "length identifier = 4 \<Longrightarrow> control_message (framed (echo_reply identifier))"
  "22 \<le> length msg \<Longrightarrow> control_message (framed (call_reply i msg))"
proof -
  show "control_message (framed start_reply)"
    by (rule framed_control [where t = 2]) (simp add: start_reply_def, simp add: be_u16_consts start_reply_def)
  show "length identifier = 4 \<Longrightarrow> control_message (framed (echo_reply identifier))"
    by (rule framed_control [where t = 6]) (simp add: echo_reply_def, simp add: be_u16_consts)
  show "22 \<le> length msg \<Longrightarrow> control_message (framed (call_reply i msg))"
    by (rule framed_control [where t = 8]) (simp add: call_reply_def, simp add: be_u16_consts)
qed

lemma sendMessage_log: "log_tcp E \<Longrightarrow> c_conn (sendMessage E msg c) = c_conn c @ [framed msg]"
  by (simp add: sendMessage_def log_tcp_def framed_def Let_def)

lemma on_ppp_conn [simp]: "c_conn (fst (on_ppp f c)) = c_conn c"
  by (auto simp: on_ppp_def split: option.split prod.split)

lemma run_end_log: "log_tcp E \<Longrightarrow> c_conn (run_end E c) = c_conn c"
  by (simp add: run_end_def pptp_Close_def log_tcp_def Let_def split_beta)

lemma startPPPSession_log:
  assumes "log_tcp E" "startPPPSession E e sendID c = Some c'"
  shows "c_conn c' = c_conn c"
proof (cases "c_ppp c")
  case None
  obtain sv i where s: "startSession (RemoteAddr E) sendID (callID c) (c_gre c) = (sv, i)" by (rule prod.exhaust)
  from assms(2) None s obtain net x where n: "NewNode (pp_net E) e (c_net c) = Some (net, x)"
    by (auto simp: startPPPSession_def)
  show ?thesis
    by (cases x) (use assms None s n in \<open>auto simp: startPPPSession_def log_tcp_def\<close>)
qed (use assms in \<open>simp add: startPPPSession_def\<close>)

lemma length_read_buffer: "read_buffer rd n r = (r', Inr b) \<Longrightarrow> length b = n"
  by (auto simp: read_buffer_def split: prod.splits sum.splits)

lemma unat_minus_2:
  assumes "16 \<le> (n :: u16)"
  shows "unat (n - 2) = unat n - 2 \<and> 16 \<le> unat n"
proof -
  have le: "16 \<le> unat n" using assms unfolding word_le_nat_alt by simp
  then have "(2 :: u16) \<le> n" unfolding word_le_nat_alt by simp
  from unat_sub [OF this] le show ?thesis by simp
qed

lemma if_Inl: "(if b then (r, Inl e) else y) = (r', Inr m) \<longleftrightarrow> \<not> b \<and> y = (r', Inr m)"
  by auto

lemma readNextMessage_length:
  assumes "readNextMessage rd r = (r', Inr msg)"
  shows "14 \<le> length msg"
proof -
  obtain r1 x1 where x1: "read_buffer rd 2 r = (r1, x1)" by (rule prod.exhaust)
  with assms obtain lenField where 1: "read_buffer rd 2 r = (r1, Inr lenField)"
    by (cases x1) (simp_all add: readNextMessage_def)
  define msglen where "msglen = be_u16 (lenField ! 0) (lenField ! 1)"
  obtain r2 x where 2: "read_buffer rd (unat (msglen - 2)) r1 = (r2, x)" by (rule prod.exhaust)
  note e = readNextMessage_def [of rd r, unfolded 1 prod.case sum.case Let_def, folded msglen_def, unfolded 2 prod.case]
  from assms have a: "\<not> msglen < 16" "\<not> 256 < msglen"
    unfolding e if_Inl by blast+
  from assms have "x = Inr msg"
    unfolding e if_Inl by (cases x) (simp_all add: if_Inl del: One_nat_def)
  have m: "16 \<le> msglen" using a(1) by (rule leI)
  have "length msg = unat (msglen - 2)" by (rule length_read_buffer [of rd _ r1 r2]) (simp add: 2 \<open>x = Inr msg\<close>)
  moreover have "unat (msglen - 2) = unat msglen - 2 \<and> 16 \<le> unat msglen" by (rule unat_minus_2 [OF m])
  ultimately show ?thesis by linarith
qed

lemma run_step_messages:
  assumes "log_tcp E" "run_step E rd e (r, c) = Some res" "list_all control_message (c_conn c)"
  shows "\<exists>r' c' b. res = Return (r', c', b) \<and> list_all control_message (c_conn c')"
proof -
  obtain r1 m where rm: "readNextMessage rd r = (r1, m)" by (rule prod.exhaust)
  show ?thesis
  proof (cases m)
    case (Inr msg)
    have len: "14 \<le> length msg" using rm Inr readNextMessage_length [of rd r r1 msg] by simp
    define t where "t = be_u16 (msg ! 6) (msg ! 7)"
    have out: "list_all control_message (c_conn c')" if "handleOutgoingCall E e msg c = Some c'" for c'
    proof (cases "length msg < 22")
      case False
      with that obtain c1 where "startPPPSession E e (be_u16 (msg ! 10) (msg ! 11)) c = Some c1"
        "c' = sendMessage E (call_reply (callID c) msg) c1" by (auto simp: handleOutgoingCall_def)
      with False assms(1,3) startPPPSession_log [OF assms(1)] show ?thesis
        by (simp add: sendMessage_log replies_control)
    qed (use that assms(3) in \<open>simp add: handleOutgoingCall_def\<close>)
    consider "t = 1" | "t = 5" | "t = 7" | "t \<notin> {1, 5, 7}" by blast
    then show ?thesis
    proof cases
      case 1
      with Inr rm len assms show ?thesis
        by (auto simp: run_step_def msg_types t_def [symmetric] handleStartControl_def sendMessage_log replies_control)
    next
      case 2
      with Inr rm len assms show ?thesis
        by (auto simp: run_step_def msg_types t_def [symmetric] handleEcho_def sendMessage_log replies_control)
    next
      case 3
      with Inr rm len assms out show ?thesis
        by (auto simp: run_step_def msg_types t_def [symmetric])
    next
      case 4
      with Inr rm len assms show ?thesis
        by (auto simp: run_step_def msg_types t_def [symmetric] split: if_splits)
    qed
  qed (use rm assms in \<open>auto simp: run_step_def\<close>)
qed

text \<open>
  C27. The control connection is well-typed. Whatever bytes a client sends on its control connection, in whatever
  pieces they arrive, \<^verbatim>\<open>run\<close> does not panic, and every message that is sent on the connection is a control message
  with the right length field, message type and magic cookie: a Start-Control-Connection-Reply of 156 bytes,
  an Echo-Reply of 20 or an Outgoing-Call-Reply of 32.
\<close>

theorem pptp_messages:
  assumes "log_tcp E" "pptp_run E rd es (r, newConnection [] i net gre) = Some res"
  shows "\<exists>r' c' b. res = Return (r', c', b) \<and> list_all control_message (c_conn c')"
proof -
  have "\<exists>r' c' b. res = Return (r', c', b) \<and> list_all control_message (c_conn c')"
    if "pptp_run E rd es (r, c) = Some res" "list_all control_message (c_conn c)" for es r c
    using that
  proof (induction es arbitrary: r c)
    case (Cons e es)
    then obtain res1 where r1: "run_step E rd e (r, c) = Some res1" by (auto split: option.splits)
    from run_step_messages [OF assms(1) r1 Cons.prems(2)] obtain r' c' b
      where "res1 = Return (r', c', b)" "list_all control_message (c_conn c')" by blast
    with Cons r1 assms(1) show ?case by (cases b) (auto simp: run_end_log)
  qed auto
  with assms(2) show ?thesis by (simp add: newConnection_def)
qed

section \<open>Calls\<close>


section \<open>A message in two pieces\<close>

text \<open>If only the first byte of a length field has arrived when it is read, the connection is given up.\<close>

lemma short_read:
  assumes "rd 2 r = (r', Inr [0])"
  shows "readNextMessage rd r = (r', Inl (Errorf ''message too short'' [0]))"
  using assms by (simp add: readNextMessage_def read_buffer_def be_u16_def)

section \<open>A concrete connection\<close>

definition demo_pptp :: "(switch tnet anet snet, bytes list, (ip \<times> bytes) list) pptp_env" where
  "demo_pptp = \<lparr>pp_net = make_net False False, pp_gre = log_gre (\<lambda>h b. b), pp_encode = (\<lambda>t b. b), pp_decode = (\<lambda>b. None),
     tcp_Write = (\<lambda>m t. (t @ [m], None)), tcp_Close = (\<lambda>t. (t, None)), RemoteAddr = ''10.0.0.2''\<rparr>"

definition demo_read :: "nat \<Rightarrow> bytes \<Rightarrow> bytes \<times> (error + bytes)" where
  "demo_read n r = (if r = [] then (r, Inl EOF) else (drop n r, Inr (take n r)))"

definition demo_echo :: bytes where
  "demo_echo = [0, 16, 0, 1, 0x1a, 0x2b, 0x3c, 0x4d, 0, 5, 0, 0, 1, 2, 3, 4]"



lemma demo_log_tcp: "log_tcp demo_pptp"
  by (simp add: log_tcp_def demo_pptp_def)

theorem pptp_messages_witness:
  "\<exists>r' c' b. pptp_run demo_pptp demo_read [demo_env] (demo_echo, newConnection [] 384 (box_net demo_box) (startGREServer []))
       = Some (Return (r', c', b)) \<and> list_all control_message (c_conn c')"
proof -
  have "pptp_run demo_pptp demo_read [demo_env] (demo_echo, newConnection [] 384 (box_net demo_box) (startGREServer [])) \<noteq> None"
    by (simp add: run_step_def readNextMessage_def read_buffer_def demo_read_def demo_echo_def be_u16_def be_u32_def
        pptp_magicNumber_def msg_types handleEcho_def)
  then obtain res where "pptp_run demo_pptp demo_read [demo_env] (demo_echo, newConnection [] 384 (box_net demo_box) (startGREServer []))
      = Some res" by blast
  with pptp_messages [OF demo_log_tcp this] show ?thesis by blast
qed


end
