(* ===== verification/Framing.thy ===== *)
theory Framing
  imports Pipe
begin

text \<open>
  Ethernet framings of IPX packets in package \<^verbatim>\<open>phys\<close> (\<^verbatim>\<open>src/phys/framing.go\<close>, and the choice of a framing by a
  flag in \<^verbatim>\<open>src/phys/flags.go\<close>): four framings and the automatic one, which takes over the framing of the first
  packet received from another machine. Layers are structures of the packet library with the fields the
  source reads or sets; the library's serializer and decoder are parameters of the lemmas, and \<open>gopacket_ok\<close>
  says what is used of them.
\<close>

section \<open>Layers\<close>

record ethernet =
  SrcMAC :: bytes
  DstMAC :: bytes
  EthernetType :: u16
  eth_Length :: u16
  eth_payload :: bytes

record llc =
  DSAP :: byte
  SSAP :: byte
  Control :: u16
  llc_contents :: bytes
  llc_payload :: bytes

record snap =
  OrganizationalCode :: bytes
  snap_Type :: u16
  snap_payload :: bytes

text \<open>A layer above IPv4: its header, its payload and the IPv4 header set for its checksum.\<close>

record transport =
  tr_contents :: bytes
  tr_payload :: bytes
  tr_network :: "bytes option"

datatype layer =
    Ethernet ethernet | LLC llc | SNAP snap | PayloadLayer bytes
  | IPv4 (ip_contents: bytes) (ip_payload: bytes) | UDP transport | TCP transport | OtherLayer bytes

definition EthernetTypeLLC :: u16 where
  "EthernetTypeLLC = 0"

definition etherTypeIPX :: u16 where
  "etherTypeIPX = 0x8137"

definition lsapNovell :: byte where
  "lsapNovell = 0xe0"

definition lsapSNAP :: byte where
  "lsapSNAP = 0xaa"

definition loopbackDetectValue :: byte where
  "loopbackDetectValue = 127"

section \<open>The four framings\<close>

definition framer802_2_Frame :: "bytes \<Rightarrow> Packet \<Rightarrow> layer list" where
  "framer802_2_Frame dest packet =
     (let payload = Packet_MarshalBinary packet
      in [Ethernet \<lparr>SrcMAC = addr_bytes (Addr (Src (Header packet))), DstMAC = dest, EthernetType = EthernetTypeLLC,
            eth_Length = of_nat (length payload + 3), eth_payload = []\<rparr>,
          LLC \<lparr>DSAP = lsapNovell, SSAP = lsapNovell, Control = 3, llc_contents = [], llc_payload = []\<rparr>,
          PayloadLayer payload])"

definition framer802_2_Unframe :: "ethernet \<Rightarrow> layer list \<Rightarrow> bytes option" where
  "framer802_2_Unframe eth nextLayers =
     (if EthernetType eth \<noteq> EthernetTypeLLC then None
      else case nextLayers of
             LLC llc # _ \<Rightarrow> if DSAP llc \<noteq> lsapNovell \<or> SSAP llc \<noteq> lsapNovell then None else Some (llc_payload llc)
           | _ \<Rightarrow> None)"

definition framer802_3Raw_Frame :: "bytes \<Rightarrow> Packet \<Rightarrow> layer list" where
  "framer802_3Raw_Frame dest packet =
     (let payload = Packet_MarshalBinary packet
      in [Ethernet \<lparr>SrcMAC = addr_bytes (Addr (Src (Header packet))), DstMAC = dest, EthernetType = 0,
            eth_Length = of_nat (length payload), eth_payload = []\<rparr>,
          PayloadLayer payload])"

definition framer802_3Raw_Unframe :: "ethernet \<Rightarrow> layer list \<Rightarrow> bytes option" where
  "framer802_3Raw_Unframe eth nextLayers =
     (if EthernetType eth \<noteq> EthernetTypeLLC then None
      else case nextLayers of
             LLC llc # _ \<Rightarrow>
               if DSAP llc \<noteq> lsapNovell \<or> SSAP llc \<noteq> lsapNovell then None
               else if llc_contents llc ! 0 \<noteq> 0xff \<or> llc_contents llc ! 1 \<noteq> 0xff then None
               else Some (eth_payload eth)
           | _ \<Rightarrow> None)"

definition framerSNAP_Frame :: "bytes \<Rightarrow> Packet \<Rightarrow> layer list" where
  "framerSNAP_Frame dest packet =
     (let payload = Packet_MarshalBinary packet
      in [Ethernet \<lparr>SrcMAC = addr_bytes (Addr (Src (Header packet))), DstMAC = dest, EthernetType = EthernetTypeLLC,
            eth_Length = of_nat (length payload + 8), eth_payload = []\<rparr>,
          LLC \<lparr>DSAP = lsapSNAP, SSAP = lsapSNAP, Control = 3, llc_contents = [], llc_payload = []\<rparr>,
          SNAP \<lparr>OrganizationalCode = [0, 0, 0], snap_Type = etherTypeIPX, snap_payload = []\<rparr>,
          PayloadLayer payload])"

definition framerSNAP_Unframe :: "ethernet \<Rightarrow> layer list \<Rightarrow> bytes option" where
  "framerSNAP_Unframe eth nextLayers =
     (if EthernetType eth \<noteq> EthernetTypeLLC then None
      else case nextLayers of
             LLC llc # SNAP snap # _ \<Rightarrow>
               if DSAP llc \<noteq> lsapSNAP \<or> SSAP llc \<noteq> lsapSNAP then None
               else if snap_Type snap \<noteq> etherTypeIPX then None
               else Some (snap_payload snap)
           | _ \<Rightarrow> None)"

definition framerEthernetII_Frame :: "bytes \<Rightarrow> Packet \<Rightarrow> layer list" where
  "framerEthernetII_Frame dest packet =
     [Ethernet \<lparr>SrcMAC = addr_bytes (Addr (Src (Header packet))), DstMAC = dest, EthernetType = etherTypeIPX,
        eth_Length = 0, eth_payload = []\<rparr>,
      PayloadLayer (Packet_MarshalBinary packet)]"

definition framerEthernetII_Unframe :: "ethernet \<Rightarrow> layer list \<Rightarrow> bytes option" where
  "framerEthernetII_Unframe eth nextLayers =
     (if EthernetType eth \<noteq> etherTypeIPX then None else Some (eth_payload eth))"

datatype framer = Framer802_2 | Framer802_3Raw | FramerSNAP | FramerEthernetII

fun framer_Frame :: "framer \<Rightarrow> bytes \<Rightarrow> Packet \<Rightarrow> layer list" where
  "framer_Frame Framer802_2 = framer802_2_Frame"
| "framer_Frame Framer802_3Raw = framer802_3Raw_Frame"
| "framer_Frame FramerSNAP = framerSNAP_Frame"
| "framer_Frame FramerEthernetII = framerEthernetII_Frame"

fun framer_Unframe :: "framer \<Rightarrow> ethernet \<Rightarrow> layer list \<Rightarrow> bytes option" where
  "framer_Unframe Framer802_2 = framer802_2_Unframe"
| "framer_Unframe Framer802_3Raw = framer802_3Raw_Unframe"
| "framer_Unframe FramerSNAP = framerSNAP_Unframe"
| "framer_Unframe FramerEthernetII = framerEthernetII_Unframe"

section \<open>The automatic framing\<close>

text \<open>The value of the interface type \<^verbatim>\<open>Framer\<close>. The state of \<^verbatim>\<open>FramerAutomatic\<close> is its field \<^verbatim>\<open>framer\<close>.\<close>

datatype any_framer = Fixed framer | FramerAutomatic

type_synonym detected = "framer option"

definition automatic_fallback :: framer where
  "automatic_fallback = Framer802_2"

definition allFramers :: "any_framer list" where
  "allFramers = [Fixed Framer802_2, Fixed Framer802_3Raw, Fixed FramerEthernetII, Fixed FramerSNAP, FramerAutomatic]"

definition automatic_Frame :: "detected \<Rightarrow> bytes \<Rightarrow> Packet \<Rightarrow> layer list" where
  "automatic_Frame f dest packet =
     framer_Frame (case f of None \<Rightarrow> automatic_fallback | Some framer \<Rightarrow> framer) dest packet"

definition detectedFramer :: "framer \<Rightarrow> bytes \<Rightarrow> detected \<Rightarrow> detected" where
  "detectedFramer new payload f =
     (case f of
        Some framer \<Rightarrow> f
      | None \<Rightarrow>
          (case Packet_UnmarshalBinary payload of
             Inl err \<Rightarrow> f
           | Inr ipxpkt \<Rightarrow> if TransControl (Header ipxpkt) \<noteq> loopbackDetectValue then Some new else f))"

fun automatic_try :: "any_framer list \<Rightarrow> ethernet \<Rightarrow> layer list \<Rightarrow> detected \<Rightarrow> detected \<times> bytes option" where
  "automatic_try [] eth nextLayers f = (f, None)"
| "automatic_try (FramerAutomatic # framers) eth nextLayers f = automatic_try framers eth nextLayers f"
| "automatic_try (Fixed framer # framers) eth nextLayers f =
     (case framer_Unframe framer eth nextLayers of
        Some result \<Rightarrow> (detectedFramer framer result f, Some result)
      | None \<Rightarrow> automatic_try framers eth nextLayers f)"

definition automatic_Unframe :: "ethernet \<Rightarrow> layer list \<Rightarrow> detected \<Rightarrow> detected \<times> bytes option" where
  "automatic_Unframe = automatic_try allFramers"

fun any_Frame :: "any_framer \<Rightarrow> detected \<Rightarrow> bytes \<Rightarrow> Packet \<Rightarrow> layer list" where
  "any_Frame (Fixed framer) f dest packet = framer_Frame framer dest packet"
| "any_Frame FramerAutomatic f dest packet = automatic_Frame f dest packet"

fun any_Unframe :: "any_framer \<Rightarrow> ethernet \<Rightarrow> layer list \<Rightarrow> detected \<Rightarrow> detected \<times> bytes option" where
  "any_Unframe (Fixed framer) eth nextLayers f = (f, framer_Unframe framer eth nextLayers)"
| "any_Unframe FramerAutomatic eth nextLayers f = automatic_Unframe eth nextLayers f"

text \<open>The function \<^verbatim>\<open>Unframe\<close>: the framer sees the first Ethernet layer and the layers after it.\<close>

fun Unframe :: "layer list \<Rightarrow> any_framer \<Rightarrow> detected \<Rightarrow> detected \<times> bytes option" where
  "Unframe [] framer f = (f, None)"
| "Unframe (Ethernet eth # nextLayers) framer f = any_Unframe framer eth nextLayers f"
| "Unframe (_ # ls) framer f = Unframe ls framer f"

fun framer_Name :: "any_framer \<Rightarrow> string" where
  "framer_Name (Fixed Framer802_2) = ''802.2''"
| "framer_Name (Fixed Framer802_3Raw) = ''802.3raw''"
| "framer_Name (Fixed FramerSNAP) = ''snap''"
| "framer_Name (Fixed FramerEthernetII) = ''eth-ii''"
| "framer_Name FramerAutomatic = ''auto''"

text \<open>\<^verbatim>\<open>setValue\<close> of \<^verbatim>\<open>FramingTypeFlag\<close>: the framing with the name given, if there is one.\<close>

definition framing_setValue :: "string \<Rightarrow> any_framer option" where
  "framing_setValue s = List.find (\<lambda>framer. s = framer_Name framer) allFramers"

section \<open>What is used of the packet library\<close>

text \<open>
  What the source relies on of \<open>S\<close>, which serializes layers, and \<open>D\<close>, which decodes a frame. An Ethernet frame
  may be padded to its minimal length. A length below 0x600 in the place of the type makes the decoder set
  \<^verbatim>\<open>EthernetTypeLLC\<close>, cut the payload to that length and decode an LLC header: \<^verbatim>\<open>DSAP\<close> is the first byte of that
  header without its lowest bit, which is a flag. The header of an LLC layer has at least 3 bytes.
\<close>

definition llc_header :: "llc \<Rightarrow> bool" where
  "llc_header l \<longleftrightarrow> 3 \<le> length (llc_contents l) \<and> DSAP l = llc_contents l ! 0 AND 0xfe"

definition decodes_EthernetII :: "(layer list \<Rightarrow> bytes) \<Rightarrow> (bytes \<Rightarrow> layer list) \<Rightarrow> bool" where
  "decodes_EthernetII S D \<longleftrightarrow> (\<forall>eth p. EthernetType eth = etherTypeIPX \<longrightarrow>
     (\<exists>eth' pad rest. D (S [Ethernet eth, PayloadLayer p]) = Ethernet eth' # rest
        \<and> EthernetType eth' = etherTypeIPX \<and> eth_payload eth' = p @ pad \<and> (46 \<le> length p \<longrightarrow> pad = [])))"

definition decodes_LLC :: "(layer list \<Rightarrow> bytes) \<Rightarrow> (bytes \<Rightarrow> layer list) \<Rightarrow> bool" where
  "decodes_LLC S D \<longleftrightarrow> (\<forall>eth l p. EthernetType eth = EthernetTypeLLC \<and> eth_Length eth = of_nat (length p + 3)
     \<and> length p + 3 < 0x600 \<and> Control l = 3 \<and> DSAP l AND 0xfe = DSAP l \<and> SSAP l AND 0xfe = SSAP l
     \<and> (DSAP l \<noteq> lsapSNAP \<or> SSAP l \<noteq> lsapSNAP) \<longrightarrow>
     (\<exists>eth' l' rest. D (S [Ethernet eth, LLC l, PayloadLayer p]) = Ethernet eth' # LLC l' # rest
        \<and> EthernetType eth' = EthernetTypeLLC \<and> DSAP l' = DSAP l \<and> SSAP l' = SSAP l \<and> llc_payload l' = p))"

definition decodes_SNAP :: "(layer list \<Rightarrow> bytes) \<Rightarrow> (bytes \<Rightarrow> layer list) \<Rightarrow> bool" where
  "decodes_SNAP S D \<longleftrightarrow> (\<forall>eth l n p. EthernetType eth = EthernetTypeLLC \<and> eth_Length eth = of_nat (length p + 8)
     \<and> length p + 8 < 0x600 \<and> Control l = 3 \<and> DSAP l = lsapSNAP \<and> SSAP l = lsapSNAP \<and> length (OrganizationalCode n) = 3 \<longrightarrow>
     (\<exists>eth' l' n' rest. D (S [Ethernet eth, LLC l, SNAP n, PayloadLayer p]) = Ethernet eth' # LLC l' # SNAP n' # rest
        \<and> EthernetType eth' = EthernetTypeLLC \<and> DSAP l' = lsapSNAP \<and> SSAP l' = lsapSNAP
        \<and> snap_Type n' = snap_Type n \<and> snap_payload n' = p))"

definition decodes_raw :: "(layer list \<Rightarrow> bytes) \<Rightarrow> (bytes \<Rightarrow> layer list) \<Rightarrow> bool" where
  "decodes_raw S D \<longleftrightarrow> (\<forall>eth p. EthernetType eth = EthernetTypeLLC \<and> eth_Length eth = of_nat (length p)
     \<and> 4 \<le> length p \<and> length p < 0x600 \<longrightarrow>
     (\<exists>eth' l' rest. D (S [Ethernet eth, PayloadLayer p]) = Ethernet eth' # LLC l' # rest
        \<and> EthernetType eth' = EthernetTypeLLC \<and> eth_payload eth' = p \<and> DSAP l' = p ! 0 AND 0xfe))"

definition gopacket_ok :: "(layer list \<Rightarrow> bytes) \<Rightarrow> (bytes \<Rightarrow> layer list) \<Rightarrow> bool" where
  "gopacket_ok S D \<longleftrightarrow> (\<forall>data l. LLC l \<in> set (D data) \<longrightarrow> llc_header l)
     \<and> decodes_EthernetII S D \<and> decodes_LLC S D \<and> decodes_SNAP S D \<and> decodes_raw S D"

section \<open>Framing\<close>

lemmas unframe_defs = framer802_2_Unframe_def framerSNAP_Unframe_def framerEthernetII_Unframe_def

lemmas framing_consts = EthernetTypeLLC_def etherTypeIPX_def lsapNovell_def lsapSNAP_def

lemma length_Packet_MarshalBinary [simp]: "length (Packet_MarshalBinary p) = 30 + length (Payload p)"
  by (simp add: Packet_MarshalBinary_def)

lemma all_framer: "(\<forall>G. P G) \<longleftrightarrow> P Framer802_2 \<and> P Framer802_3Raw \<and> P FramerSNAP \<and> P FramerEthernetII"
  by (metis framer.exhaust)

lemma gopacket_okD:
  assumes "gopacket_ok S D"
  shows "D data = Ethernet eth # LLC l # rest \<Longrightarrow> llc_header l"
    and "decodes_EthernetII S D" "decodes_LLC S D" "decodes_SNAP S D" "decodes_raw S D"
  using assms unfolding gopacket_ok_def by (metis list.set_intros)+

text \<open>The check of \<^verbatim>\<open>framer802_3Raw\<close> asks for two different first bytes of the LLC header.\<close>

lemma raw_accepts_nothing: "llc_header l \<Longrightarrow> framer802_3Raw_Unframe eth (LLC l # rest) = None"
  by (auto simp: framer802_3Raw_Unframe_def llc_header_def lsapNovell_def)

lemma raw_unframes_nothing:
  assumes "gopacket_ok S D"
  shows "snd (Unframe (D data) (Fixed Framer802_3Raw) f) = None"
proof -
  have "\<forall>l. LLC l \<in> set (D data) \<longrightarrow> llc_header l" using assms by (simp add: gopacket_ok_def)
  then have "snd (Unframe ls (Fixed Framer802_3Raw) f) = None" if "set ls \<subseteq> set (D data)" for ls
    using that
  proof (induction ls "Fixed Framer802_3Raw" f rule: Unframe.induct)
    case (2 eth nextLayers f)
    then show ?case
      by (auto simp: framer802_3Raw_Unframe_def llc_header_def lsapNovell_def split: list.splits layer.splits)
  qed simp_all
  then show ?thesis by blast
qed

lemma decoded_802_2:
  assumes "gopacket_ok S D" "length (Payload p) + 38 < 0x600"
  obtains eth l rest where "D (S (framer802_2_Frame dest p)) = Ethernet eth # LLC l # rest"
    "EthernetType eth = EthernetTypeLLC" "DSAP l = lsapNovell" "SSAP l = lsapNovell" "llc_payload l = Packet_MarshalBinary p"
  using gopacket_okD(3) [OF assms(1), unfolded decodes_LLC_def, rule_format,
      of "\<lparr>SrcMAC = addr_bytes (Addr (Src (Header p))), DstMAC = dest, EthernetType = EthernetTypeLLC,
            eth_Length = of_nat (length (Packet_MarshalBinary p) + 3), eth_payload = []\<rparr>" "Packet_MarshalBinary p"
         "\<lparr>DSAP = lsapNovell, SSAP = lsapNovell, Control = 3, llc_contents = [], llc_payload = []\<rparr>"] assms(2)
  by (auto simp: framer802_2_Frame_def Let_def framing_consts simp del: of_nat_add of_nat_numeral)

lemma decoded_raw:
  assumes "gopacket_ok S D" "length (Payload p) + 38 < 0x600"
  obtains eth l rest where "D (S (framer802_3Raw_Frame dest p)) = Ethernet eth # LLC l # rest"
    "EthernetType eth = EthernetTypeLLC" "DSAP l = Packet_MarshalBinary p ! 0 AND 0xfe"
  using gopacket_okD(5) [OF assms(1), unfolded decodes_raw_def, rule_format,
      of "\<lparr>SrcMAC = addr_bytes (Addr (Src (Header p))), DstMAC = dest, EthernetType = EthernetTypeLLC,
            eth_Length = of_nat (length (Packet_MarshalBinary p)), eth_payload = []\<rparr>" "Packet_MarshalBinary p"] assms(2)
  by (auto simp: framer802_3Raw_Frame_def Let_def framing_consts simp del: of_nat_add of_nat_numeral)

lemma decoded_SNAP:
  assumes "gopacket_ok S D" "length (Payload p) + 38 < 0x600"
  obtains eth l n rest where "D (S (framerSNAP_Frame dest p)) = Ethernet eth # LLC l # SNAP n # rest"
    "EthernetType eth = EthernetTypeLLC" "DSAP l = lsapSNAP" "SSAP l = lsapSNAP"
    "snap_Type n = etherTypeIPX" "snap_payload n = Packet_MarshalBinary p"
  using gopacket_okD(4) [OF assms(1), unfolded decodes_SNAP_def, rule_format,
      of "\<lparr>SrcMAC = addr_bytes (Addr (Src (Header p))), DstMAC = dest, EthernetType = EthernetTypeLLC,
            eth_Length = of_nat (length (Packet_MarshalBinary p) + 8), eth_payload = []\<rparr>" "Packet_MarshalBinary p"
         "\<lparr>DSAP = lsapSNAP, SSAP = lsapSNAP, Control = 3, llc_contents = [], llc_payload = []\<rparr>"
         "\<lparr>OrganizationalCode = [0, 0, 0], snap_Type = etherTypeIPX, snap_payload = []\<rparr>"] assms(2)
  by (auto simp: framerSNAP_Frame_def Let_def framing_consts simp del: of_nat_add of_nat_numeral)

lemma decoded_EthernetII:
  assumes "gopacket_ok S D"
  obtains eth pad rest where "D (S (framerEthernetII_Frame dest p)) = Ethernet eth # rest"
    "EthernetType eth = etherTypeIPX" "eth_payload eth = Packet_MarshalBinary p @ pad"
    "16 \<le> length (Payload p) \<longrightarrow> pad = []"
  using gopacket_okD(2) [OF assms(1), unfolded decodes_EthernetII_def, rule_format,
      of "\<lparr>SrcMAC = addr_bytes (Addr (Src (Header p))), DstMAC = dest, EthernetType = etherTypeIPX,
            eth_Length = 0, eth_payload = []\<rparr>" "Packet_MarshalBinary p"]
  by (auto simp: framerEthernetII_Frame_def)

text \<open>
  What each framer makes of a frame that the library decodes. A raw frame starts with the checksum of the
  packet, which is 0 in the packets that are sent and 0xffff in those of other implementations.
\<close>

lemma unframe_framed:
  assumes "gopacket_ok S D" "length (Payload p) + 38 < 0x600" "F = Framer802_3Raw \<longrightarrow> Checksum (Header p) \<in> {0, 0xffff}"
  shows "\<exists>eth rest pad. D (S (framer_Frame F dest p)) = Ethernet eth # rest
    \<and> (\<forall>G. framer_Unframe G eth rest = (if G = F \<and> F \<noteq> Framer802_3Raw then Some (Packet_MarshalBinary p @ pad) else None))
    \<and> (pad = [] \<or> F = FramerEthernetII \<and> length (Payload p) < 16)"
proof (cases F)
  case Framer802_2
  obtain eth l rest where d: "D (S (framer802_2_Frame dest p)) = Ethernet eth # LLC l # rest"
    "EthernetType eth = EthernetTypeLLC" "DSAP l = lsapNovell" "SSAP l = lsapNovell" "llc_payload l = Packet_MarshalBinary p"
    by (rule decoded_802_2 [OF assms(1,2)])
  with Framer802_2 raw_accepts_nothing [OF gopacket_okD(1) [OF assms(1) d(1)]] show ?thesis
    by (intro exI [of _ eth] exI [of _ "LLC l # rest"] exI [of _ "[]"])
      (auto simp: unframe_defs framing_consts all_framer split: list.splits layer.splits)
next
  case FramerSNAP
  obtain eth l n rest where d: "D (S (framerSNAP_Frame dest p)) = Ethernet eth # LLC l # SNAP n # rest"
    "EthernetType eth = EthernetTypeLLC" "DSAP l = lsapSNAP" "SSAP l = lsapSNAP"
    "snap_Type n = etherTypeIPX" "snap_payload n = Packet_MarshalBinary p"
    by (rule decoded_SNAP [OF assms(1,2)])
  with FramerSNAP raw_accepts_nothing [OF gopacket_okD(1) [OF assms(1) d(1)]] show ?thesis
    by (intro exI [of _ eth] exI [of _ "LLC l # SNAP n # rest"] exI [of _ "[]"])
      (auto simp: unframe_defs framing_consts all_framer)
next
  case FramerEthernetII
  obtain eth pad rest where d: "D (S (framerEthernetII_Frame dest p)) = Ethernet eth # rest"
    "EthernetType eth = etherTypeIPX" "eth_payload eth = Packet_MarshalBinary p @ pad" "16 \<le> length (Payload p) \<longrightarrow> pad = []"
    by (rule decoded_EthernetII [OF assms(1)])
  with FramerEthernetII show ?thesis
    by (intro exI [of _ eth] exI [of _ rest] exI [of _ pad])
      (auto simp: unframe_defs framer802_3Raw_Unframe_def framing_consts all_framer)
next
  case Framer802_3Raw
  obtain eth l rest where d: "D (S (framer802_3Raw_Frame dest p)) = Ethernet eth # LLC l # rest"
    "EthernetType eth = EthernetTypeLLC" "DSAP l = Packet_MarshalBinary p ! 0 AND 0xfe"
    by (rule decoded_raw [OF assms(1,2)])
  moreover from assms(3) Framer802_3Raw have "Packet_MarshalBinary p ! 0 \<in> {0, 0xff}"
    by (auto simp: Packet_MarshalBinary_def Header_MarshalBinary_def put_defs)
  ultimately show ?thesis
    using Framer802_3Raw raw_accepts_nothing [OF gopacket_okD(1) [OF assms(1) d(1)]]
    by (intro exI [of _ eth] exI [of _ "LLC l # rest"] exI [of _ "[]"])
      (auto simp: unframe_defs framing_consts all_framer split: list.splits layer.splits)
qed

lemma Packet_roundtrip_pad:
  "Packet_UnmarshalBinary (Packet_MarshalBinary p @ pad) = Inr (p\<lparr>Payload := Payload p @ pad\<rparr>)"
  by (simp add: Packet_UnmarshalBinary_def Packet_MarshalBinary_def HeaderLength_def)

lemma automatic_Unframe_framed:
  assumes "\<forall>G. framer_Unframe G eth rest = (if G = F \<and> b then Some payload else None)"
  shows "automatic_Unframe eth rest f = (if b then (detectedFramer F payload f, Some payload) else (f, None))"
  using assms by (cases F) (simp_all add: automatic_Unframe_def allFramers_def all_framer)

text \<open>
  Framing round trip. A packet framed as 802.2, SNAP or Ethernet II and serialized is unframed, by the framer
  of the same kind and by the automatic framer, to the bytes of the packet, up to the padding of a short Ethernet II
  frame, which only extends the payload of the packet; every framer of another kind rejects the frame.
\<close>

lemma framing_roundtrip:
  assumes "gopacket_ok S D" "length (Payload p) + 38 < 0x600" "F \<noteq> Framer802_3Raw"
  shows "\<exists>pad. (\<forall>G f. Unframe (D (S (framer_Frame F dest p))) (Fixed G) f
        = (f, if G = F then Some (Packet_MarshalBinary p @ pad) else None))
    \<and> (\<forall>f. Unframe (D (S (framer_Frame F dest p))) FramerAutomatic f
        = (detectedFramer F (Packet_MarshalBinary p @ pad) f, Some (Packet_MarshalBinary p @ pad)))
    \<and> Packet_UnmarshalBinary (Packet_MarshalBinary p @ pad) = Inr (p\<lparr>Payload := Payload p @ pad\<rparr>)
    \<and> (pad = [] \<or> F = FramerEthernetII \<and> length (Payload p) < 16)"
proof -
  from unframe_framed [OF assms(1,2)] assms(3) obtain eth rest pad
    where "D (S (framer_Frame F dest p)) = Ethernet eth # rest"
      and G: "\<forall>G. framer_Unframe G eth rest = (if G = F then Some (Packet_MarshalBinary p @ pad) else None)"
      and "pad = [] \<or> F = FramerEthernetII \<and> length (Payload p) < 16"
    by (metis (mono_tags))
  with automatic_Unframe_framed [where b = True] show ?thesis
    by (intro exI [of _ pad]) (simp add: Packet_roundtrip_pad)
qed

section \<open>A concrete packet library\<close>

fun demo_layer :: "layer \<Rightarrow> bytes" where
  "demo_layer (Ethernet e) = take 6 (DstMAC e @ replicate 6 0) @ take 6 (SrcMAC e @ replicate 6 0)
     @ put_be16 (if EthernetType e = EthernetTypeLLC then eth_Length e else EthernetType e)"
| "demo_layer (LLC l) = [DSAP l, SSAP l, ucast (Control l)]"
| "demo_layer (SNAP n) = take 3 (OrganizationalCode n @ replicate 3 0) @ put_be16 (snap_Type n)"
| "demo_layer (PayloadLayer p) = p"
| "demo_layer _ = []"

definition demo_serialize :: "layer list \<Rightarrow> bytes" where
  "demo_serialize ls = concat (map demo_layer ls)"

definition demo_llc :: "bytes \<Rightarrow> layer list" where
  "demo_llc body = (if length body < 3 then []
     else let l = \<lparr>DSAP = body ! 0 AND 0xfe, SSAP = body ! 1 AND 0xfe, Control = ucast (body ! 2),
                  llc_contents = take 3 body, llc_payload = drop 3 body\<rparr>
          in if DSAP l = lsapSNAP \<and> SSAP l = lsapSNAP \<and> 8 \<le> length body
             then [LLC l, SNAP \<lparr>OrganizationalCode = go_slice 3 6 body, snap_Type = be_u16 (body ! 6) (body ! 7),
                               snap_payload = drop 8 body\<rparr>]
             else [LLC l])"

definition demo_decode :: "bytes \<Rightarrow> layer list" where
  "demo_decode data =
     (if length data < 14 then []
      else let t = be_u16 (data ! 12) (data ! 13);
               body = (if t < 0x600 then take (unat t) (drop 14 data) else drop 14 data)
           in Ethernet \<lparr>SrcMAC = go_slice 6 12 data, DstMAC = go_slice 0 6 data,
                EthernetType = if t < 0x600 then EthernetTypeLLC else t, eth_Length = if t < 0x600 then t else 0,
                eth_payload = body\<rparr> # (if t < 0x600 then demo_llc body else []))"

lemma demo_decode_serialize:
  "demo_decode (demo_serialize (Ethernet e # ls)) =
     (let t = (if EthernetType e = EthernetTypeLLC then eth_Length e else EthernetType e);
          bs = demo_serialize ls; body = (if t < 0x600 then take (unat t) bs else bs)
      in Ethernet \<lparr>SrcMAC = take 6 (SrcMAC e @ replicate 6 0), DstMAC = take 6 (DstMAC e @ replicate 6 0),
           EthernetType = if t < 0x600 then EthernetTypeLLC else t, eth_Length = if t < 0x600 then t else 0,
           eth_payload = body\<rparr> # (if t < 0x600 then demo_llc body else []))"
proof -
  define t where "t = (if EthernetType e = EthernetTypeLLC then eth_Length e else EthernetType e)"
  define d where "d = take 6 (DstMAC e @ replicate 6 0)"
  define s where "s = take 6 (SrcMAC e @ replicate 6 0)"
  have ser: "demo_serialize (Ethernet e # ls) = d @ s @ put_be16 t @ demo_serialize ls"
    by (simp only: demo_serialize_def list.map concat.simps demo_layer.simps append_assoc d_def s_def t_def)
  have len: "length d = 6" "length s = 6" by (simp_all add: d_def s_def)
  have "be_u16 ((d @ s @ put_be16 t @ bs) ! 12) ((d @ s @ put_be16 t @ bs) ! 13) = t"
    "go_slice 0 6 (d @ s @ put_be16 t @ bs) = d" "go_slice 6 12 (d @ s @ put_be16 t @ bs) = s"
    "drop 14 (d @ s @ put_be16 t @ bs) = bs" "\<not> length (d @ s @ put_be16 t @ bs) < 14" for bs
    by (simp_all add: nth_append len put_be16_def go_slice_def)
  then show ?thesis
    unfolding demo_decode_def ser Let_def t_def [symmetric] d_def [symmetric] s_def [symmetric] by presburger
qed

lemma small_length: "n < 0x600 \<Longrightarrow> (of_nat n :: u16) < 0x600 \<and> unat (of_nat n :: u16) = n"
  by (simp add: word_less_nat_alt unat_of_nat)

lemma demo_LLC:
  assumes "EthernetType eth = EthernetTypeLLC" "eth_Length eth = of_nat (length body)" "length body < 0x600"
    "demo_serialize ls = body"
  shows "demo_decode (demo_serialize (Ethernet eth # ls)) =
    Ethernet \<lparr>SrcMAC = take 6 (SrcMAC eth @ replicate 6 0), DstMAC = take 6 (DstMAC eth @ replicate 6 0),
      EthernetType = EthernetTypeLLC, eth_Length = of_nat (length body), eth_payload = body\<rparr> # demo_llc body"
  using assms small_length [OF assms(3)] by (simp add: demo_decode_serialize Let_def)

lemma demo_decodes_LLC: "decodes_LLC demo_serialize demo_decode"
  unfolding decodes_LLC_def
proof (intro allI impI, elim conjE)
  fix eth :: ethernet and l :: llc and p :: bytes
  assume a: "EthernetType eth = EthernetTypeLLC" "eth_Length eth = of_nat (length p + 3)" "length p + 3 < 0x600"
    "Control l = 3" "DSAP l AND 0xfe = DSAP l" "SSAP l AND 0xfe = SSAP l" "DSAP l \<noteq> lsapSNAP \<or> SSAP l \<noteq> lsapSNAP"
  have "demo_decode (demo_serialize [Ethernet eth, LLC l, PayloadLayer p]) = Ethernet
      \<lparr>SrcMAC = take 6 (SrcMAC eth @ replicate 6 0), DstMAC = take 6 (DstMAC eth @ replicate 6 0),
       EthernetType = EthernetTypeLLC, eth_Length = of_nat (length ([DSAP l, SSAP l, 3] @ p)),
       eth_payload = [DSAP l, SSAP l, 3] @ p\<rparr> # demo_llc ([DSAP l, SSAP l, 3] @ p)"
    by (rule demo_LLC) (use a in \<open>simp_all add: demo_serialize_def\<close>)
  with a show "\<exists>eth' l' rest. demo_decode (demo_serialize [Ethernet eth, LLC l, PayloadLayer p]) = Ethernet eth' # LLC l' # rest
      \<and> EthernetType eth' = EthernetTypeLLC \<and> DSAP l' = DSAP l \<and> SSAP l' = SSAP l \<and> llc_payload l' = p"
    by (auto simp: demo_llc_def Let_def)
qed

lemma demo_decodes_SNAP: "decodes_SNAP demo_serialize demo_decode"
  unfolding decodes_SNAP_def
proof (intro allI impI, elim conjE)
  fix eth :: ethernet and l :: llc and n :: snap and p :: bytes
  let ?body = "[0xaa, 0xaa, 3] @ OrganizationalCode n @ put_be16 (snap_Type n) @ p"
  assume a: "EthernetType eth = EthernetTypeLLC" "eth_Length eth = of_nat (length p + 8)" "length p + 8 < 0x600"
    "Control l = 3" "DSAP l = lsapSNAP" "SSAP l = lsapSNAP" "length (OrganizationalCode n) = 3"
  have "demo_decode (demo_serialize [Ethernet eth, LLC l, SNAP n, PayloadLayer p]) = Ethernet
      \<lparr>SrcMAC = take 6 (SrcMAC eth @ replicate 6 0), DstMAC = take 6 (DstMAC eth @ replicate 6 0),
       EthernetType = EthernetTypeLLC, eth_Length = of_nat (length ?body), eth_payload = ?body\<rparr> # demo_llc ?body"
    by (rule demo_LLC) (use a in \<open>simp_all add: demo_serialize_def lsapSNAP_def\<close>)
  with a(7) show "\<exists>eth' l' n' rest. demo_decode (demo_serialize [Ethernet eth, LLC l, SNAP n, PayloadLayer p])
        = Ethernet eth' # LLC l' # SNAP n' # rest
      \<and> EthernetType eth' = EthernetTypeLLC \<and> DSAP l' = lsapSNAP \<and> SSAP l' = lsapSNAP
      \<and> snap_Type n' = snap_Type n \<and> snap_payload n' = p"
    by (simp add: demo_llc_def lsapSNAP_def Let_def nth_append put_be16_def)
qed

lemma demo_decodes_raw: "decodes_raw demo_serialize demo_decode"
  unfolding decodes_raw_def
proof (intro allI impI, elim conjE)
  fix eth :: ethernet and p :: bytes
  assume a: "EthernetType eth = EthernetTypeLLC" "eth_Length eth = of_nat (length p)" "4 \<le> length p" "length p < 0x600"
  have "demo_decode (demo_serialize [Ethernet eth, PayloadLayer p]) = Ethernet
      \<lparr>SrcMAC = take 6 (SrcMAC eth @ replicate 6 0), DstMAC = take 6 (DstMAC eth @ replicate 6 0),
       EthernetType = EthernetTypeLLC, eth_Length = of_nat (length p), eth_payload = p\<rparr> # demo_llc p"
    by (rule demo_LLC) (use a in \<open>simp_all add: demo_serialize_def\<close>)
  with a(3) show "\<exists>eth' l' rest. demo_decode (demo_serialize [Ethernet eth, PayloadLayer p]) = Ethernet eth' # LLC l' # rest
      \<and> EthernetType eth' = EthernetTypeLLC \<and> eth_payload eth' = p \<and> DSAP l' = p ! 0 AND 0xfe"
    by (auto simp: demo_llc_def Let_def)
qed

lemma demo_decodes_EthernetII: "decodes_EthernetII demo_serialize demo_decode"
  unfolding decodes_EthernetII_def
  by (intro allI impI) (simp add: demo_decode_serialize Let_def framing_consts demo_serialize_def [of "[_]"])

lemma demo_llc_header: "LLC l \<in> set (demo_decode data) \<Longrightarrow> llc_header l"
  by (auto simp: demo_decode_def demo_llc_def llc_header_def Let_def split: if_splits)

lemma demo_gopacket: "gopacket_ok demo_serialize demo_decode"
  unfolding gopacket_ok_def
  using demo_llc_header demo_decodes_LLC demo_decodes_SNAP demo_decodes_raw demo_decodes_EthernetII by blast

end
