(* ===== verification/Phys.thy ===== *)
theory Phys
  imports Framing
begin

text \<open>
  Package \<^verbatim>\<open>phys\<close> (\<^verbatim>\<open>src/phys/phys.go\<close>): IPX packets on a physical network interface, the copying of frames
  between two interfaces, and the repair of TCP/IP checksums. What is written to an interface carries a mark in
  the \<^verbatim>\<open>TransControl\<close> field, by which it is recognised and discarded if the interface captures it again.
\<close>

section \<open>Sinks\<close>

record 'i frame_sink =
  WritePacketData :: "bytes \<Rightarrow> 'i \<Rightarrow> 'i \<times> error option"
  sink_Close :: "'i \<Rightarrow> 'i"

record capture_info =
  Timestamp :: time
  CaptureLength :: int
  ci_Length :: int

definition pcapgoSinkShim_WritePacketData ::
  "(capture_info \<Rightarrow> bytes \<Rightarrow> 'i \<Rightarrow> 'i \<times> error option) \<Rightarrow> time \<Rightarrow> bytes \<Rightarrow> 'i \<Rightarrow> 'i \<times> error option" where
  "pcapgoSinkShim_WritePacketData pds_WritePacket now data i =
     pds_WritePacket \<lparr>Timestamp = now, CaptureLength = int (length data), ci_Length = int (length data)\<rparr> data i"

text \<open>\<open>S\<close> is the serializer of the packet library, \<open>f\<close> the state of the automatic framer.\<close>

definition modifiedHeader :: "Header \<Rightarrow> Header" where
  "modifiedHeader h = h\<lparr>Checksum := 0, TransControl := loopbackDetectValue\<rparr>"

definition Sink_WritePacket ::
  "(layer list \<Rightarrow> bytes) \<Rightarrow> 'i frame_sink \<Rightarrow> any_framer \<Rightarrow> detected \<Rightarrow> Packet \<Rightarrow> 'i \<Rightarrow> 'i \<times> error option" where
  "Sink_WritePacket S pds framer f packet i =
     (let dest = addr_bytes (Addr (Dest (Header packet)));
          layers = any_Frame framer f dest \<lparr>Header = modifiedHeader (Header packet), Payload = Payload packet\<rparr>
      in WritePacketData pds (S layers) i)"

definition Sink_Close :: "'i frame_sink \<Rightarrow> 'i \<Rightarrow> 'i \<times> error option" where
  "Sink_Close pds i = (sink_Close pds i, None)"

section \<open>The physical interface\<close>

record phys =
  ph_framer :: any_framer
  ph_detected :: detected
  ph_rxpipe :: pipe

definition NewPhys :: "any_framer \<Rightarrow> detected \<Rightarrow> phys" where
  "NewPhys framer f = \<lparr>ph_framer = framer, ph_detected = f, ph_rxpipe = pipe_New\<rparr>"

definition Phys_Close :: "'i frame_sink \<Rightarrow> phys \<Rightarrow> 'i \<Rightarrow> phys \<times> 'i \<times> error option" where
  "Phys_Close pds p i = (p\<lparr>ph_rxpipe := fst (pipe_Close (ph_rxpipe p))\<rparr>, fst (Sink_Close pds i), None)"

text \<open>One iteration of \<^verbatim>\<open>Run\<close>, with the decoded frame; an error is what \<^verbatim>\<open>Run\<close> returns.\<close>

definition Phys_Run_step :: "error + layer list \<Rightarrow> phys \<Rightarrow> phys \<times> error option" where
  "Phys_Run_step next p =
     (case next of
        Inl err \<Rightarrow> (p, Some err)
      | Inr pkt \<Rightarrow>
          (case Unframe pkt (ph_framer p) (ph_detected p) of
             (f, None) \<Rightarrow> (p\<lparr>ph_detected := f\<rparr>, None)
           | (f, Some payload) \<Rightarrow>
               (case Packet_UnmarshalBinary payload of
                  Inl err \<Rightarrow> (p\<lparr>ph_detected := f\<rparr>, Some err)
                | Inr ipxpkt \<Rightarrow>
                    if TransControl (Header ipxpkt) \<noteq> loopbackDetectValue
                    then (p\<lparr>ph_detected := f, ph_rxpipe := fst (pipe_WritePacket ipxpkt (ph_rxpipe p))\<rparr>, None)
                    else (p\<lparr>ph_detected := f\<rparr>, None))))"

definition Phys_ReadPacket :: "ctx \<Rightarrow> phys \<Rightarrow> phys \<times> read" where
  "Phys_ReadPacket ctx p = (let (q, r) = pipe_ReadPacket ctx (ph_rxpipe p) in (p\<lparr>ph_rxpipe := q\<rparr>, r))"

section \<open>Copying frames\<close>

text \<open>\<open>rds\<close> are the results of the reads on the source; \<open>None\<close> is a loop that is waiting for the next.\<close>

fun copyLoop :: "'b frame_sink \<Rightarrow> (error + bytes) list \<Rightarrow> 'b \<Rightarrow> 'b \<times> error option option" where
  "copyLoop B [] b = (b, None)"
| "copyLoop B (Inl err # rds) b = (b, Some (if err = EOF then None else Some err))"
| "copyLoop B (Inr frame # rds) b =
     (case WritePacketData B frame b of
        (b, Some err) \<Rightarrow> (b, Some (Some err))
      | (b, None) \<Rightarrow> copyLoop B rds b)"

definition CopyFrames ::
  "'a frame_sink \<Rightarrow> 'b frame_sink \<Rightarrow> (error + bytes) list \<Rightarrow> (error + bytes) list \<Rightarrow> 'a \<Rightarrow> 'b
     \<Rightarrow> 'a \<times> 'b \<times> error option option" where
  "CopyFrames A B rds_a rds_b a b =
     (let (b, r1) = copyLoop B rds_a b; (a, r2) = copyLoop A rds_b a
      in (a, b, case (r1, r2) of
                  (Some err1, Some err2) \<Rightarrow> Some (if err1 \<noteq> None then err1 else if err2 \<noteq> None then err2 else None)
                | _ \<Rightarrow> None))"

section \<open>Repairing checksums\<close>

text \<open>\<open>C\<close> serializes layers with the checksums computed. An index out of range panics.\<close>

definition serializePacket :: "(layer list \<Rightarrow> error + bytes) \<Rightarrow> layer list \<Rightarrow> bytes outcome" where
  "serializePacket C ls =
     (let serialize = (\<lambda>newLayers payload.
            case C (newLayers @ [PayloadLayer payload]) of Inl err \<Rightarrow> Fail err | Inr b \<Rightarrow> Return b)
      in case ls of
           [] \<Rightarrow> Panic
         | Ethernet eth # ls1 \<Rightarrow>
             (case ls1 of
                [] \<Rightarrow> Panic
              | IPv4 ip payload # ls2 \<Rightarrow>
                  (case ls2 of
                     [] \<Rightarrow> Panic
                   | UDP udp # _ \<Rightarrow>
                       serialize [Ethernet eth, IPv4 ip payload, UDP (udp\<lparr>tr_network := Some ip\<rparr>)] (tr_payload udp)
                   | TCP tcp # _ \<Rightarrow>
                       serialize [Ethernet eth, IPv4 ip payload, TCP (tcp\<lparr>tr_network := Some ip\<rparr>)] (tr_payload tcp)
                   | _ # _ \<Rightarrow> serialize [Ethernet eth, IPv4 ip payload] payload)
              | _ # _ \<Rightarrow> serialize [Ethernet eth] (eth_payload eth))
         | _ # _ \<Rightarrow> Fail (Errorf ''non-ethernet frame (this should not happen'' []))"

definition ChecksumFixer_ReadPacketData ::
  "(layer list \<Rightarrow> error + bytes) \<Rightarrow> error + layer list \<times> capture_info \<Rightarrow> (bytes \<times> capture_info) outcome" where
  "ChecksumFixer_ReadPacketData C next =
     (case next of
        Inl err \<Rightarrow> Fail err
      | Inr (pkt, ci) \<Rightarrow>
          (case serializePacket C pkt of Return result \<Rightarrow> Return (result, ci) | Fail err \<Rightarrow> Fail err | Panic \<Rightarrow> Panic))"

definition ChecksumFixer_WritePacketData :: "'i frame_sink \<Rightarrow> bytes \<Rightarrow> 'i \<Rightarrow> 'i \<times> error option" where
  "ChecksumFixer_WritePacketData sink frame i = WritePacketData sink frame i"

definition ChecksumFixer_Close :: "'i frame_sink \<Rightarrow> 'i \<Rightarrow> 'i" where
  "ChecksumFixer_Close sink i = sink_Close sink i"

text \<open>A frame without a second layer, or an IPv4 packet without a third, makes \<^verbatim>\<open>serializePacket\<close> panic.\<close>

lemma serializePacket_panics:
  "serializePacket C ls = Panic \<longleftrightarrow> ls = [] \<or> (\<exists>eth. ls = [Ethernet eth]) \<or> (\<exists>eth ip p. ls = [Ethernet eth, IPv4 ip p])"
proof (cases ls)
  case (Cons l ls1)
  show ?thesis
  proof (cases "\<exists>eth ip p ls2. l = Ethernet eth \<and> ls1 = IPv4 ip p # ls2")
    case True
    then obtain eth ip p ls2 where "l = Ethernet eth" "ls1 = IPv4 ip p # ls2" by blast
    with Cons show ?thesis
      by (simp add: serializePacket_def Let_def split: list.split layer.split sum.split)
  next
    case False
    with Cons show ?thesis
      by (cases l; cases ls1; cases "hd ls1") (simp_all add: serializePacket_def Let_def split: sum.split)
  qed
qed (simp add: serializePacket_def)

text \<open>An end of file ends the copying without an error, and then everything read has been written, in order.\<close>

lemma copyLoop_copies:
  assumes "\<And>frame b. snd (WritePacketData B frame b) = None"
  shows "copyLoop B (map Inr frames @ Inl EOF # rds) b = (fold (\<lambda>x b. fst (WritePacketData B x b)) frames b, Some None)"
proof (induction frames arbitrary: b)
  case (Cons x frames)
  obtain b' where "WritePacketData B x b = (b', None)"
    using assms [of x b] by (cases "WritePacketData B x b") auto
  with Cons show ?case by simp
qed simp

section \<open>Flags\<close>

text \<open>
  \<^verbatim>\<open>setValue\<close> of \<^verbatim>\<open>SpecFlag\<close> (\<^verbatim>\<open>src/phys/flags.go\<close>): a kind of interface and, after a colon, its argument. The table of
  kinds depends on what the program is built with. \<open>SplitN2\<close> is \<^verbatim>\<open>strings.SplitN(s, ":", 2)\<close>.
\<close>

definition SplitN2 :: "string \<Rightarrow> string list" where
  "SplitN2 s =
     (let pre = takeWhile (\<lambda>x. x \<noteq> CHR 0x3A) s
      in if length pre = length s then [pre] else [pre, drop (length pre + 1) s])"

definition spec_setValue :: "(string \<Rightarrow> 'ty option) \<Rightarrow> string \<Rightarrow> error + 'ty \<times> string" where
  "spec_setValue types s =
     (let parts = SplitN2 s; parts = (if length parts = 1 then [parts ! 0, ''''] else parts)
      in case types (parts ! 0) of
           None \<Rightarrow> Inl (Errorf ''unknown capture type'' [])
         | Some t \<Rightarrow> Inr (t, parts ! 1))"

lemma spec_setValue_arg:
  assumes "CHR 0x3A \<notin> set kind"
  shows "spec_setValue types (kind @ CHR 0x3A # arg) =
      (case types kind of None \<Rightarrow> Inl (Errorf ''unknown capture type'' []) | Some t \<Rightarrow> Inr (t, arg))"
    and "spec_setValue types kind =
      (case types kind of None \<Rightarrow> Inl (Errorf ''unknown capture type'' []) | Some t \<Rightarrow> Inr (t, ''''))"
proof -
  have tw: "takeWhile (\<lambda>x. x \<noteq> CHR 0x3A) (kind @ CHR 0x3A # arg) = kind" "takeWhile (\<lambda>x. x \<noteq> CHR 0x3A) kind = kind"
    using assms by (auto simp: takeWhile_append takeWhile_eq_all_conv)
  show "spec_setValue types (kind @ CHR 0x3A # arg) =
      (case types kind of None \<Rightarrow> Inl (Errorf ''unknown capture type'' []) | Some t \<Rightarrow> Inr (t, arg))"
    and "spec_setValue types kind =
      (case types kind of None \<Rightarrow> Inl (Errorf ''unknown capture type'' []) | Some t \<Rightarrow> Inr (t, ''''))"
    by (simp_all add: spec_setValue_def SplitN2_def Let_def tw del: takeWhile_eq_all_conv split: option.split)
qed

section \<open>Own frames and frames of other machines\<close>

text \<open>A sink that keeps the frames written.\<close>

definition log_sink :: "bytes list frame_sink" where
  "log_sink = \<lparr>WritePacketData = (\<lambda>frame i. (i @ [frame], None)), sink_Close = (\<lambda>i. i)\<rparr>"

text \<open>The framer that a sink frames with.\<close>

definition used_framer :: "any_framer \<Rightarrow> detected \<Rightarrow> framer" where
  "used_framer framer f = (case framer of Fixed F \<Rightarrow> F | FramerAutomatic \<Rightarrow> (case f of None \<Rightarrow> automatic_fallback | Some F \<Rightarrow> F))"

lemma any_Frame_used: "any_Frame framer f = framer_Frame (used_framer framer f)"
  by (cases framer) (auto simp: fun_eq_iff used_framer_def automatic_Frame_def)

text \<open>What one iteration of \<^verbatim>\<open>Run\<close> does with a frame, given what the framers make of it.\<close>

lemma Run_step_marked:
  assumes "\<forall>G. framer_Unframe G eth rest = (if G = F \<and> b then Some (Packet_MarshalBinary p @ pad) else None)"
    and "TransControl (Header p) = loopbackDetectValue"
  shows "Phys_Run_step (Inr (Ethernet eth # rest)) ph = (ph, None)"
proof (cases "ph_framer ph")
  case FramerAutomatic
  with assms(2) automatic_Unframe_framed [OF assms(1)] show ?thesis
    by (simp add: Phys_Run_step_def Packet_roundtrip_pad detectedFramer_def split: option.split)
qed (use assms in \<open>simp add: Phys_Run_step_def Packet_roundtrip_pad\<close>)

lemma Run_step_genuine:
  assumes "\<forall>G. framer_Unframe G eth rest = (if G = F then Some (Packet_MarshalBinary p @ pad) else None)"
    and "TransControl (Header p) \<noteq> loopbackDetectValue" "ph_framer ph = FramerAutomatic"
  shows "Phys_Run_step (Inr (Ethernet eth # rest)) ph =
    (ph\<lparr>ph_detected := Some (case ph_detected ph of None \<Rightarrow> F | Some G \<Rightarrow> G),
        ph_rxpipe := fst (pipe_WritePacket (p\<lparr>Payload := Payload p @ pad\<rparr>) (ph_rxpipe ph))\<rparr>, None)"
  using assms(2,3) automatic_Unframe_framed [where b = True, simplified, OF assms(1)]
  by (simp add: Phys_Run_step_def Packet_roundtrip_pad detectedFramer_def split: option.split)

lemma detected_stays:
  assumes "ph_detected ph = Some F"
  shows "ph_detected (fst (Phys_Run_step next ph)) = Some F"
proof -
  have "fst (automatic_try fs eth rest (Some F)) = Some F" for fs eth rest
    by (induction fs eth rest "Some F" rule: automatic_try.induct) (auto simp: detectedFramer_def split: option.splits)
  then have u: "fst (Unframe ls framer (Some F)) = Some F" for ls framer
    by (induction ls framer "Some F" rule: Unframe.induct) (case_tac framer; simp add: automatic_Unframe_def)+
  show ?thesis
    using assms u by (auto simp: Phys_Run_step_def split: sum.splits prod.splits option.splits, metis fst_conv)+
qed

definition own_packet :: "Packet \<Rightarrow> Packet" where
  "own_packet p = \<lparr>Header = modifiedHeader (Header p), Payload = Payload p\<rparr>"

lemma Sink_WritePacket_eq:
  "Sink_WritePacket S pds framer f p i =
     WritePacketData pds (S (framer_Frame (used_framer framer f) (addr_bytes (Addr (Dest (Header p)))) (own_packet p))) i"
  by (simp add: Sink_WritePacket_def any_Frame_used own_packet_def)

lemma own_frame_discarded:
  assumes "gopacket_ok S D" "length (Payload p) + 38 < 0x600"
  shows "Phys_Run_step (Inr (D (S (framer_Frame F dest (own_packet p))))) ph = (ph, None)"
proof -
  have q: "length (Payload (own_packet p)) + 38 < 0x600" "Checksum (Header (own_packet p)) \<in> {0, 0xffff}"
    "TransControl (Header (own_packet p)) = loopbackDetectValue"
    using assms(2) by (simp_all add: own_packet_def modifiedHeader_def)
  from unframe_framed [OF assms(1) q(1), of F dest] q(2) obtain eth rest pad
    where "D (S (framer_Frame F dest (own_packet p))) = Ethernet eth # rest"
      and G: "\<forall>G. framer_Unframe G eth rest
        = (if G = F \<and> F \<noteq> Framer802_3Raw then Some (Packet_MarshalBinary (own_packet p) @ pad) else None)"
    by blast
  with Run_step_marked [OF G q(3)] show ?thesis by simp
qed

lemma own_frames_discarded:
  assumes "gopacket_ok S D" "list_all (\<lambda>p. length (Payload p) + 38 < 0x600) own"
  shows "\<exists>frames. fold (\<lambda>p i. fst (Sink_WritePacket S log_sink framer f p i)) own i = i @ frames
    \<and> fold (\<lambda>frame ph. fst (Phys_Run_step (Inr (D frame)) ph)) frames ph = ph"
  using assms(2)
proof (induction own arbitrary: i)
  case (Cons p own)
  let ?frame = "S (framer_Frame (used_framer framer f) (addr_bytes (Addr (Dest (Header p)))) (own_packet p))"
  from Cons.IH [of "i @ [?frame]"] Cons.prems obtain frames
    where "fold (\<lambda>p i. fst (Sink_WritePacket S log_sink framer f p i)) own (i @ [?frame]) = (i @ [?frame]) @ frames"
      and "fold (\<lambda>frame ph. fst (Phys_Run_step (Inr (D frame)) ph)) frames ph = ph" by auto
  with Cons.prems show ?case
    by (intro exI [of _ "?frame # frames"]) (simp add: Sink_WritePacket_eq log_sink_def own_frame_discarded [OF assms(1)])
qed simp

text \<open>
  C16. No loops through the physical network. Whatever packet is written to an interface in whatever framing, if
  any interface, also one of another server, captures the frame, it leaves no trace: no packet is queued, the
  framing is not taken for that of another machine, and the receive loop goes on.
\<close>

theorem loopback_discarded:
  assumes "gopacket_ok S D" "length (Payload p) + 38 < 0x600"
  shows "\<exists>frame. Sink_WritePacket S log_sink framer f p i = (i @ [frame], None)
    \<and> (\<forall>ph. Phys_Run_step (Inr (D frame)) ph = (ph, None))"
  by (simp add: Sink_WritePacket_eq log_sink_def own_frame_discarded [OF assms])

text \<open>
  C28. The automatic framing finds the framing of the network. An interface that has only captured its own frames,
  which it sends in the fallback framing, and then receives a packet of another machine in 802.2, SNAP or Ethernet II
  framing queues exactly that packet, and from then on sends every packet in that framing, whatever else it
  receives.
\<close>

theorem automatic_framing:
  assumes "gopacket_ok S D" "ph_framer ph = FramerAutomatic" "ph_detected ph = None"
    and "\<not> closed (ph_rxpipe ph)" "length (ch (ph_rxpipe ph)) < maxBufferedPackets"
    and "list_all (\<lambda>p. length (Payload p) + 38 < 0x600) (q # own)"
    and "TransControl (Header q) \<noteq> loopbackDetectValue" "F \<noteq> Framer802_3Raw"
  shows "\<exists>frames pad ph'. fold (\<lambda>p i. fst (Sink_WritePacket S log_sink FramerAutomatic None p i)) own [] = frames
    \<and> fold (\<lambda>frame ph. fst (Phys_Run_step (Inr (D frame)) ph)) (frames @ [S (framer_Frame F dest q)]) ph = ph'
    \<and> ch (ph_rxpipe ph') = ch (ph_rxpipe ph) @ [q\<lparr>Payload := Payload q @ pad\<rparr>]
    \<and> (pad = [] \<or> F = FramerEthernetII \<and> length (Payload q) < 16)
    \<and> (\<forall>rs p i. Sink_WritePacket S pds FramerAutomatic (ph_detected (fold (\<lambda>r ph. fst (Phys_Run_step r ph)) rs ph')) p i
        = Sink_WritePacket S pds (Fixed F) None p i)"
proof -
  from own_frames_discarded [OF assms(1), of own FramerAutomatic None "[]" ph] assms(6) obtain frames
    where fr: "fold (\<lambda>p i. fst (Sink_WritePacket S log_sink FramerAutomatic None p i)) own [] = frames"
      "fold (\<lambda>frame ph. fst (Phys_Run_step (Inr (D frame)) ph)) frames ph = ph" by auto
  from unframe_framed [OF assms(1), of q F dest] assms(6,8) obtain eth rest pad
    where d: "D (S (framer_Frame F dest q)) = Ethernet eth # rest"
      and G: "\<forall>G. framer_Unframe G eth rest = (if G = F then Some (Packet_MarshalBinary q @ pad) else None)"
      and pad: "pad = [] \<or> F = FramerEthernetII \<and> length (Payload q) < 16"
    by auto
  let ?ph = "fst (Phys_Run_step (Inr (Ethernet eth # rest)) ph)"
  note step = Run_step_genuine [OF G assms(7,2)]
  have "ph_detected (fold (\<lambda>r ph. fst (Phys_Run_step r ph)) rs ph'') = Some F" if "ph_detected ph'' = Some F" for rs ph''
    using that by (induction rs arbitrary: ph'') (simp_all add: detected_stays)
  moreover from step assms(3) have "ph_detected ?ph = Some F" by simp
  ultimately have det: "ph_detected (fold (\<lambda>r ph. fst (Phys_Run_step r ph)) rs ?ph) = Some F" for rs by blast
  from step assms(4,5) have "ch (ph_rxpipe ?ph) = ch (ph_rxpipe ph) @ [q\<lparr>Payload := Payload q @ pad\<rparr>]"
    by (simp add: pipe_WritePacket_def)
  with fr pad show ?thesis
    by (intro exI [of _ frames] exI [of _ pad] exI [of _ ?ph]) (simp add: d Sink_WritePacket_eq det used_framer_def)
qed

theorem loopback_discarded_witness:
  "Phys_Run_step (Inr (demo_decode (demo_serialize (framer_Frame Framer802_2 (addr_bytes (MkAddr 2 0 0 0 0 1))
     \<lparr>Header = modifiedHeader (Header (demo_packet 0 1)), Payload = [1, 2, 3]\<rparr>)))) (NewPhys FramerAutomatic None)
   = (NewPhys FramerAutomatic None, None)"
  using loopback_discarded [OF demo_gopacket, of "demo_packet 0 1" FramerAutomatic None "[]"]
  by (auto simp: Sink_WritePacket_def log_sink_def automatic_Frame_def automatic_fallback_def demo_packet_def)

theorem automatic_framing_witness:
  "\<exists>ph. fold (\<lambda>frame ph. fst (Phys_Run_step (Inr (demo_decode frame)) ph))
       [demo_serialize (framer_Frame FramerSNAP [] (demo_packet 0 1))] (NewPhys FramerAutomatic None) = ph
     \<and> ch (ph_rxpipe ph) = [demo_packet 0 1]
     \<and> Sink_WritePacket demo_serialize log_sink FramerAutomatic (ph_detected ph) (demo_packet 1 0) []
       = Sink_WritePacket demo_serialize log_sink (Fixed FramerSNAP) None (demo_packet 1 0) []"
proof -
  have "ph_framer (NewPhys FramerAutomatic None) = FramerAutomatic" "ph_detected (NewPhys FramerAutomatic None) = None"
    "\<not> closed (ph_rxpipe (NewPhys FramerAutomatic None))" "length (ch (ph_rxpipe (NewPhys FramerAutomatic None))) < maxBufferedPackets"
    "ch (ph_rxpipe (NewPhys FramerAutomatic None)) = []"
    "list_all (\<lambda>p. length (Payload p) + 38 < 0x600) [demo_packet 0 1]"
    "TransControl (Header (demo_packet 0 1)) \<noteq> loopbackDetectValue"
    by (simp_all add: NewPhys_def pipe_New_def maxBufferedPackets_def demo_packet_def zeroHeader_def loopbackDetectValue_def)
  then show ?thesis
    using automatic_framing [OF demo_gopacket, of "NewPhys FramerAutomatic None" "demo_packet 0 1" "[]" FramerSNAP "[]" log_sink]
    by (force dest: spec [of _ "[]"] simp del: framer_Frame.simps)
qed

end
