(* ===== verification/Bridge.thy ===== *)
theory Bridge
  imports Stack Phys
begin

text \<open>
  The bridge module (\<^verbatim>\<open>src/module/bridge/module.go\<close>) puts \<^verbatim>\<open>phys.Phys\<close> and a node of the uplinkable view of the assembled network
  together: packets are copied between them in both directions. This theory has the two directions of that copying and what
  holds end to end, from a frame on the physical network to the read of a client.
\<close>

section \<open>Copying\<close>

text \<open>
  One iteration of \<^verbatim>\<open>CopyPackets\<close> in each direction of \<^verbatim>\<open>DuplexCopyPackets\<close>, for the node \<open>j\<close> of the bridge. The error
  of the write is dropped; the second component is \<open>None\<close> when the loop goes on to the next read, and how the loop stands
  otherwise. The outer \<open>None\<close> is a read that does not return.
\<close>

definition bridge_in :: "bool \<Rightarrow> bool \<Rightarrow> ctx \<Rightarrow> env \<Rightarrow> int \<Rightarrow> phys \<times> box \<Rightarrow> ((phys \<times> box) \<times> loop_status option) option" where
  "bridge_in d a c e j st =
     (case st of
        (ph, b) \<Rightarrow>
          (case Phys_ReadPacket c ph of
             (ph, RPacket packet) \<Rightarrow> map_option (\<lambda>b. ((ph, b), None)) (box_step d a (UplinkWrite e j packet) b)
           | (ph, r) \<Rightarrow> Some ((ph, b), Some (copy_status r))))"

definition bridge_out ::
  "bool \<Rightarrow> bool \<Rightarrow> (layer list \<Rightarrow> bytes) \<Rightarrow> 'i frame_sink \<Rightarrow> ctx \<Rightarrow> int \<Rightarrow> phys \<times> box \<times> 'i
     \<Rightarrow> ((phys \<times> box \<times> 'i) \<times> loop_status option) option" where
  "bridge_out d a S pds c j st =
     (case st of
        (ph, b, i) \<Rightarrow>
          map_option (\<lambda>(u, r).
            case r of
              RPacket packet \<Rightarrow>
                ((ph, put_up u b, fst (Sink_WritePacket S pds (ph_framer ph) (ph_detected ph) packet i)), None)
            | _ \<Rightarrow> ((ph, put_up u b, i), Some (copy_status r)))
            (ReadPacket (make_uplinkable d a) c j (get_up b)))"

section \<open>From the physical network to a client\<close>

text \<open>The switch node that a node of the uplinkable view is attached to.\<close>

definition uplink_node :: "int \<Rightarrow> box \<Rightarrow> int" where
  "uplink_node j b = sn_inner (s_nodes (box_up b) j)"

lemma uplink_write:
  assumes "a \<or> \<not> shouldFilter (Header p)" "box_step d a (UplinkWrite e j p) b = Some b'"
  shows "switch_of (box_net b') = fst (node_WritePacket e (uplink_node j b) p (switch_of (box_net b)))
    \<and> switch_node k (box_net b') = switch_node k (box_net b)
    \<and> NodeAddress (make_net d a) k (box_net b') = NodeAddress (make_net d a) k (box_net b)"
  using assms(2) base_write [OF assms(1)]
  unfolding make_net_NodeAddress
  by (auto simp: make_uplinkable_def stats_WritePacket_def get_up_def put_up_def box_base_def Let_def split_beta
      switch_of_def switch_node_def uplink_node_def split: option.splits)

lemma Run_step_receives:
  assumes "gopacket_ok S D" "length (Payload q) + 38 < 0x600" "F \<noteq> Framer802_3Raw"
    and "TransControl (Header q) \<noteq> loopbackDetectValue" "ph_framer ph \<in> {Fixed F, FramerAutomatic}"
    and "ch (ph_rxpipe ph) = []" "\<not> closed (ph_rxpipe ph)"
  shows "\<exists>pad ph1 ph2. Phys_Run_step (Inr (D (S (framer_Frame F dest q)))) ph = (ph1, None)
    \<and> Phys_ReadPacket Background ph1 = (ph2, RPacket (q\<lparr>Payload := Payload q @ pad\<rparr>))
    \<and> (pad = [] \<or> F = FramerEthernetII \<and> length (Payload q) < 16)"
proof -
  from unframe_framed [OF assms(1,2), of F dest] assms(3) obtain eth rest pad
    where d: "D (S (framer_Frame F dest q)) = Ethernet eth # rest"
      and G: "\<forall>G. framer_Unframe G eth rest = (if G = F then Some (Packet_MarshalBinary q @ pad) else None)"
      and pad: "pad = [] \<or> F = FramerEthernetII \<and> length (Payload q) < 16"
    by auto
  let ?q = "q\<lparr>Payload := Payload q @ pad\<rparr>"
  obtain ph1 where 1: "Phys_Run_step (Inr (Ethernet eth # rest)) ph = (ph1, None)"
    "ph_rxpipe ph1 = fst (pipe_WritePacket ?q (ph_rxpipe ph))"
  proof (cases "ph_framer ph")
    case (Fixed G)
    with assms(4,5) G that show ?thesis by (simp add: Phys_Run_step_def Packet_roundtrip_pad)
  next
    case FramerAutomatic
    with Run_step_genuine [OF G assms(4)] that show ?thesis by simp
  qed
  with assms(6,7) have "ch (ph_rxpipe ph1) = [?q]" "\<not> closed (ph_rxpipe ph1)"
    by (simp_all add: pipe_WritePacket_def maxBufferedPackets_def)
  then have "\<exists>ph2. Phys_ReadPacket Background ph1 = (ph2, RPacket ?q)"
    by (simp add: Phys_ReadPacket_def pipe_defs Background_def)
  with 1(1) pad show ?thesis unfolding d by blast
qed

text \<open>
  C15. From the physical network to a client. A packet of another machine that arrives on the physical interface of a
  bridge, in 802.2, SNAP or Ethernet II framing, is copied by the bridge to the assembled network; if it is addressed
  to the client \<open>k\<close>, or to everybody, is not filtered, and the switch has not learnt the destination at some other node, then the next
  read of the client returns this packet, up to the padding of a short Ethernet II frame.
\<close>

theorem bridge_delivers:
  assumes "gopacket_ok S D" "length (Payload q) + 38 < 0x600" "F \<noteq> Framer802_3Raw"
    and "TransControl (Header q) \<noteq> loopbackDetectValue" "ph_framer ph \<in> {Fixed F, FramerAutomatic}"
    and "ch (ph_rxpipe ph) = []" "\<not> closed (ph_rxpipe ph)"
    and "box_run d a ops (makeNetwork d) = Some b"
    and "switch_node k (box_net b) \<in> set (nodesByID (switch_of (box_net b)))" "switch_node k (box_net b) \<noteq> uplink_node j b"
    and "ch (rxpipe (switch_of (box_net b)) (switch_node k (box_net b))) = []"
    and "a \<or> \<not> shouldFilter (Header q)" "Network (Dest (Header q)) = ZeroNetwork"
    and "Addr (Dest (Header q)) \<in> {NodeAddress (make_net d a) k (box_net b), AddrBroadcast}"
    and "LookupDest (Dest (Header q)) (Record (env_clock e) (uplink_node j b) (Src (Header q))
           (table (switch_of (box_net b)))) \<in> {broadcastDest, switch_node k (box_net b)}"
  shows "\<exists>pad ph1 ph2 b' s'. Phys_Run_step (Inr (D (S (framer_Frame F dest q)))) ph = (ph1, None)
    \<and> bridge_in d a Background e j (ph1, b) = Some ((ph2, b'), None)
    \<and> ReadPacket (make_net d a) Background k (box_net b') = Some (s', RPacket (q\<lparr>Payload := Payload q @ pad\<rparr>))
    \<and> (pad = [] \<or> F = FramerEthernetII \<and> length (Payload q) < 16)"
proof -
  from Run_step_receives [OF assms(1-7), of dest] obtain pad ph1 ph2
    where 1: "Phys_Run_step (Inr (D (S (framer_Frame F dest q)))) ph = (ph1, None)"
      and 2: "Phys_ReadPacket Background ph1 = (ph2, RPacket (q\<lparr>Payload := Payload q @ pad\<rparr>))"
      and pad: "pad = [] \<or> F = FramerEthernetII \<and> length (Payload q) < 16" by blast
  define p where "p = q\<lparr>Payload := Payload q @ pad\<rparr>"
  have p: "Header p = Header q" by (simp add: p_def)
  obtain b' where b': "box_step d a (UplinkWrite e j p) b = Some b'" by simp
  from uplink_write [OF _ b', of k] assms(12) p have s':
    "switch_of (box_net b') = fst (node_WritePacket e (uplink_node j b) p (switch_of (box_net b)))"
    "switch_node k (box_net b') = switch_node k (box_net b)"
    "NodeAddress (make_net d a) k (box_net b') = NodeAddress (make_net d a) k (box_net b)" by simp_all
  have "switch_inv (switch_of (box_net b))"
    using box_inv_run [OF box_inv_init assms(8)]
    by (simp add: box_inv_def snet_inv_def anet_inv_def tnet_inv_def switch_of_def)
  from switch_delivers [OF this assms(9,10,11), of p e] assms(15) p
  have "ch (rxpipe (switch_of (box_net b')) (switch_node k (box_net b'))) = [p]"
    "\<not> closed (rxpipe (switch_of (box_net b')) (switch_node k (box_net b')))"
    by (simp_all add: s' Let_def)
  then have "\<exists>s'. ReadPacket (make_net d a) Background k (box_net b') = Some (s', RPacket p)"
    by (rule make_net_read [rotated 2]) (use assms(12-14) p in \<open>auto simp: destined_for_def s' Let_def\<close>)
  with 1 2 b' pad show ?thesis
    by (intro exI [of _ pad] exI [of _ ph1] exI [of _ ph2] exI [of _ b']) (auto simp: bridge_in_def p_def [symmetric])
qed

section \<open>From a client to the physical network\<close>

lemma uplink_read:
  assumes "a \<or> \<not> shouldFilter (Header p)"
    and "ch (rxpipe (switch_of (box_net b)) (uplink_node j b)) = [p]"
    and "\<not> closed (rxpipe (switch_of (box_net b)) (uplink_node j b))"
  shows "\<exists>u. ReadPacket (make_uplinkable d a) Background j (get_up b) = Some (u, RPacket p)"
proof -
  from base_read [OF assms(1), of "box_base b" "uplink_node j b"] assms(2,3)
  obtain t where "ReadPacket (make_base d a) Background (uplink_node j b) (box_base b) = Some (t, RPacket p)"
    unfolding switch_of_def box_base_def by blast
  then show ?thesis by (simp add: make_uplinkable_def stats_ReadPacket_def get_up_def uplink_node_def)
qed

text \<open>
  What a client writes, and the switch does not send to some other node only, the bridge puts on the physical network as
  one frame, which no interface that captures it takes for a packet of another machine.
\<close>

lemma bridge_sends:
  assumes "gopacket_ok S D" "length (Payload p) + 38 < 0x600"
    and "box_run d a ops (makeNetwork d) = Some b"
    and "uplink_node j b \<in> set (nodesByID (switch_of (box_net b)))" "uplink_node j b \<noteq> switch_node h (box_net b)"
    and "ch (rxpipe (switch_of (box_net b)) (uplink_node j b)) = []"
    and "a \<or> \<not> shouldFilter (Header p)"
    and "Network (Src (Header p)) = ZeroNetwork" "Addr (Src (Header p)) = NodeAddress (make_net d a) h (box_net b)"
    and "LookupDest (Dest (Header p)) (Record (env_clock e) (switch_node h (box_net b)) (Src (Header p))
           (table (switch_of (box_net b)))) \<in> {broadcastDest, uplink_node j b}"
    and "box_step d a (ClientWrite e h p) b = Some b'"
  shows "\<exists>b'' frame. bridge_out d a S log_sink Background j (ph, b', i) = Some ((ph, b'', i @ [frame]), None)
    \<and> (\<forall>ph'. Phys_Run_step (Inr (D frame)) ph' = (ph', None))"
proof -
  obtain s' err where w: "WritePacket (make_net d a) e h p (box_net b) = (s', err)" by fastforce
  with assms(11) have b': "b' = b\<lparr>box_net := s'\<rparr>" by (simp add: on_net_def)
  then have j: "uplink_node j b' = uplink_node j b" by (simp add: uplink_node_def)
  from make_net_write [OF assms(7-9) w, of h] b'
  have s': "switch_of (box_net b') = fst (node_WritePacket e (switch_node h (box_net b)) p (switch_of (box_net b)))" by simp
  have "switch_inv (switch_of (box_net b))"
    using box_inv_run [OF box_inv_init assms(3)]
    by (simp add: box_inv_def snet_inv_def anet_inv_def tnet_inv_def switch_of_def)
  from switch_delivers [OF this assms(4-6,10)]
  obtain u where u: "ReadPacket (make_uplinkable d a) Background j (get_up b') = Some (u, RPacket p)"
    using uplink_read [OF assms(7), of b' j] by (auto simp: s' j Let_def)
  show ?thesis
    by (simp add: bridge_out_def u Sink_WritePacket_eq log_sink_def own_frame_discarded [OF assms(1,2)])
qed

section \<open>A concrete bridge\<close>

definition bridge_box :: box where
  "bridge_box = the (box_run False False [ClientNew demo_env, UplinkNew demo_env] (makeNetwork False))"

lemma bridge_box_run: "box_run False False [ClientNew demo_env, UplinkNew demo_env] (makeNetwork False) = Some bridge_box"
  by (simp add: bridge_box_def stack_eval make_uplinkable_def get_up_def put_up_def box_base_def)

lemma bridge_box_facts:
  "switch_node 0 (box_net bridge_box) = 0" "uplink_node 0 bridge_box = 1"
  "nodesByID (switch_of (box_net bridge_box)) = [0, 1]"
  "ch (rxpipe (switch_of (box_net bridge_box)) n) = []"
  "NodeAddress (make_net False False) 0 (box_net bridge_box) = MkAddr 2 0 0 0 0 0"
  "addrs (table (switch_of (box_net bridge_box))) = Map.empty"
  by (simp_all add: bridge_box_def stack_eval make_uplinkable_def get_up_def put_up_def box_base_def uplink_node_def
      switch_of_def switch_node_def NodeAddress_def stats_GetProperty_def addressable_GetProperty_def
      pipe_New_def AddPort_def makeRoutingTable_def)

theorem bridge_delivers_witness:
  "\<exists>ph1 ph2 b' s'. Phys_Run_step (Inr (demo_decode (demo_serialize (framer_Frame FramerSNAP [] (demo_packet 7 0)))))
       (NewPhys FramerAutomatic None) = (ph1, None)
     \<and> bridge_in False False Background demo_env 0 (ph1, bridge_box) = Some ((ph2, b'), None)
     \<and> ReadPacket (make_net False False) Background 0 (box_net b') = Some (s', RPacket (demo_packet 7 0))"
proof -
  have l: "LookupDest (demo_addr 0) (Record (env_clock demo_env) 1 (demo_addr 7)
      (table (switch_of (box_net bridge_box)))) = broadcastDest"
    by (simp add: bridge_box_def switch_of_def stack_eval make_uplinkable_def get_up_def put_up_def box_base_def
        AddPort_def makeRoutingTable_def LookupDest_def Record_def checkDestPort_def makeKey_def demo_addr_def
        AddrBroadcast_def AddrNull_def upd_port_def)
  have h: "TransControl (Header (demo_packet 7 0)) \<noteq> loopbackDetectValue" "length (Payload (demo_packet 7 0)) + 38 < 0x600"
    "ch (ph_rxpipe (NewPhys FramerAutomatic None)) = []" "\<not> closed (ph_rxpipe (NewPhys FramerAutomatic None))"
    "ph_framer (NewPhys FramerAutomatic None) \<in> {Fixed FramerSNAP, FramerAutomatic}"
    by (simp_all add: demo_packet_def zeroHeader_def loopbackDetectValue_def NewPhys_def pipe_New_def)
  obtain pad ph1 ph2 b' s' where
    "Phys_Run_step (Inr (demo_decode (demo_serialize (framer_Frame FramerSNAP [] (demo_packet 7 0)))))
       (NewPhys FramerAutomatic None) = (ph1, None)"
    "bridge_in False False Background demo_env 0 (ph1, bridge_box) = Some ((ph2, b'), None)"
    "ReadPacket (make_net False False) Background 0 (box_net b')
       = Some (s', RPacket ((demo_packet 7 0)\<lparr>Payload := Payload (demo_packet 7 0) @ pad\<rparr>))" "pad = []"
    using bridge_delivers [OF demo_gopacket h(2) _ h(1,5,3,4) bridge_box_run, of 0 0 demo_env "[]"]
    by (auto simp: bridge_box_facts shouldFilter_def netbiosPorts_def l simp del: framer_Frame.simps)
  then show ?thesis by auto
qed

end
