(* ===== verification/UdpServer.thy ===== *)
theory UdpServer
  imports Pipe
begin

text \<open>
  Package \<^verbatim>\<open>server\<close> (\<^verbatim>\<open>src/server/server.go\<close>): a server that exchanges IPX packets with clients over UDP. Each client
  is known by its UDP address and has a queue for the packets it sent.

  A client object is shared by the server and by the goroutine that runs the protocol for it, so clients live in a
  store with numbered entries; \<open>sv_clients\<close> maps \<^verbatim>\<open>addr.String()\<close> to an entry. The socket is an operation on a
  state \<open>'u\<close>. A protocol is given by its \<^verbatim>\<open>IsRegistrationPacket\<close>; that its \<^verbatim>\<open>StartClient\<close> was started for a client is
  recorded in \<open>sv_started\<close>, and its return is an event of its own.
\<close>

section \<open>State\<close>

type_synonym udp_addr = string

record sclient =
  sc_closed :: bool
  sc_rxpipe :: pipe
  sc_addr :: udp_addr
  lastReceiveTime :: time

record server_config =
  Protocols :: "(Packet \<Rightarrow> bool) list"
  ClientTimeout :: duration

record server =
  sv_clients :: "(udp_addr \<times> nat) list"
  sv_store :: "nat \<Rightarrow> sclient option"
  sv_next :: nat
  sv_started :: "(nat \<times> nat) list"
  timeoutCheckTime :: time

type_synonym 'u socket = "bytes \<Rightarrow> udp_addr \<Rightarrow> 'u \<Rightarrow> 'u \<times> error option"

definition server_New :: "time \<Rightarrow> server" where
  "server_New now = \<lparr>sv_clients = [], sv_store = Map.empty, sv_next = 0, sv_started = [], timeoutCheckTime = now + 10 * second\<rparr>"

definition put_client :: "nat \<Rightarrow> sclient \<Rightarrow> server \<Rightarrow> server" where
  "put_client cid c sv = sv\<lparr>sv_store := (sv_store sv)(cid \<mapsto> c)\<rparr>"

section \<open>Clients\<close>

definition client_ReadPacket :: "ctx \<Rightarrow> sclient \<Rightarrow> sclient \<times> read" where
  "client_ReadPacket ctx c = (let (p, r) = pipe_ReadPacket ctx (sc_rxpipe c) in (c\<lparr>sc_rxpipe := p\<rparr>, r))"

definition client_WritePacket :: "'u socket \<Rightarrow> Packet \<Rightarrow> sclient \<Rightarrow> 'u \<Rightarrow> 'u \<times> error option" where
  "client_WritePacket sock packet c u = sock (Packet_MarshalBinary packet) (sc_addr c) u"

definition client_Close :: "nat \<Rightarrow> server \<Rightarrow> server \<times> error option" where
  "client_Close cid sv =
     (case sv_store sv cid of
        None \<Rightarrow> (sv, None)
      | Some c \<Rightarrow>
          let (sv, c) = (if \<not> sc_closed c
                         then (sv\<lparr>sv_clients := AList.delete (sc_addr c) (sv_clients sv)\<rparr>, c\<lparr>sc_closed := True\<rparr>)
                         else (sv, c));
              (p, err) = pipe_Close (sc_rxpipe c)
          in (put_client cid (c\<lparr>sc_rxpipe := p\<rparr>) sv, err))"

section \<open>The server\<close>

fun find_index :: "('a \<Rightarrow> bool) list \<Rightarrow> 'a \<Rightarrow> nat \<Rightarrow> nat option" where
  "find_index [] x i = None"
| "find_index (P # Ps) x i = (if P x then Some i else find_index Ps x (i + 1))"

definition findProtocol :: "server_config \<Rightarrow> Packet \<Rightarrow> nat option" where
  "findProtocol cfg packet = find_index (Protocols cfg) packet 0"

definition newClient :: "time \<Rightarrow> nat \<Rightarrow> udp_addr \<Rightarrow> server \<Rightarrow> server \<times> nat" where
  "newClient now protocol addr sv =
     (let c = \<lparr>sc_closed = False, sc_rxpipe = pipe_New, sc_addr = addr, lastReceiveTime = now\<rparr>;
          cid = sv_next sv
      in ((put_client cid c sv)\<lparr>sv_clients := AList.update addr cid (sv_clients sv), sv_next := cid + 1,
            sv_started := sv_started sv @ [(cid, protocol)]\<rparr>, cid))"

definition receive_packet :: "time \<Rightarrow> Packet \<Rightarrow> nat \<Rightarrow> server \<Rightarrow> server" where
  "receive_packet now packet cid sv =
     (case sv_store sv cid of
        None \<Rightarrow> sv
      | Some c \<Rightarrow> put_client cid (c\<lparr>lastReceiveTime := now, sc_rxpipe := fst (pipe_WritePacket packet (sc_rxpipe c))\<rparr>) sv)"

definition processPacket :: "server_config \<Rightarrow> (nat \<Rightarrow> time) \<Rightarrow> bytes \<Rightarrow> udp_addr \<Rightarrow> server \<Rightarrow> server" where
  "processPacket cfg clock packetBytes addr sv =
     (case Packet_UnmarshalBinary packetBytes of
        Inl err \<Rightarrow> sv
      | Inr packet \<Rightarrow>
          (case map_of (sv_clients sv) addr of
             Some cid \<Rightarrow> receive_packet (clock 1) packet cid sv
           | None \<Rightarrow>
               (case findProtocol cfg packet of
                  None \<Rightarrow> sv
                | Some protocol \<Rightarrow>
                    (let (sv, cid) = newClient (clock 0) protocol addr sv in receive_packet (clock 1) packet cid sv))))"

definition allClients :: "server \<Rightarrow> nat list" where
  "allClients sv = map snd (sv_clients sv)"

text \<open>The loop over the clients; \<open>next_check\<close> is the time of the next check so far.\<close>

fun check_timeouts :: "server_config \<Rightarrow> time \<Rightarrow> nat list \<Rightarrow> time \<Rightarrow> server \<Rightarrow> server \<times> time" where
  "check_timeouts cfg now [] next_check sv = (sv, next_check)"
| "check_timeouts cfg now (cid # cids) next_check sv =
     (case sv_store sv cid of
        None \<Rightarrow> check_timeouts cfg now cids next_check sv
      | Some c \<Rightarrow>
          (let timeoutTime = lastReceiveTime c + ClientTimeout cfg;
               sv = (if now > timeoutTime then fst (client_Close cid sv) else sv);
               next_check = (if timeoutTime < next_check then timeoutTime else next_check)
           in check_timeouts cfg now cids next_check sv))"

definition checkClientTimeouts :: "server_config \<Rightarrow> time \<Rightarrow> server \<Rightarrow> server \<times> time" where
  "checkClientTimeouts cfg now sv = check_timeouts cfg now (allClients sv) (now + 10 * second) sv"

text \<open>What a read on the socket returns: a datagram, or an error, which may be a timeout or another \<^verbatim>\<open>net.Error\<close>.\<close>

datatype udp_read = UPacket bytes udp_addr | UTimeout | UNetError error | UOtherError error

definition poll :: "server_config \<Rightarrow> (nat \<Rightarrow> time) \<Rightarrow> udp_read \<Rightarrow> server \<Rightarrow> server \<times> error option" where
  "poll cfg clock rd sv =
     (case rd of
        UNetError err \<Rightarrow> (sv, Some err)
      | _ \<Rightarrow>
          let sv = (case rd of UPacket b addr \<Rightarrow> processPacket cfg clock b addr sv | _ \<Rightarrow> sv)
          in if clock 2 > timeoutCheckTime sv then
               (let (sv, t) = checkClientTimeouts cfg (clock 3) sv in (sv\<lparr>timeoutCheckTime := t\<rparr>, None))
             else (sv, None))"

definition server_Close :: "server \<Rightarrow> server" where
  "server_Close sv = fold (\<lambda>cid sv. fst (client_Close cid sv)) (allClients sv) sv"

section \<open>Histories\<close>

datatype server_event =
    SvPoll "nat \<Rightarrow> time" udp_read
  | SvRead nat ctx
  | SvDone nat
  | SvClose

fun server_step :: "server_config \<Rightarrow> server_event \<Rightarrow> server \<Rightarrow> server" where
  "server_step cfg (SvPoll clock rd) sv = fst (poll cfg clock rd sv)"
| "server_step cfg (SvRead cid ctx) sv =
     (case sv_store sv cid of None \<Rightarrow> sv | Some c \<Rightarrow> put_client cid (fst (client_ReadPacket ctx c)) sv)"
| "server_step cfg (SvDone cid) sv = fst (client_Close cid sv)"
| "server_step cfg SvClose sv = server_Close sv"

definition server_run :: "server_config \<Rightarrow> server_event list \<Rightarrow> server \<Rightarrow> server" where
  "server_run cfg evs sv = fold (server_step cfg) evs sv"

section \<open>The invariant\<close>

definition server_inv :: "server \<Rightarrow> bool" where
  "server_inv sv \<longleftrightarrow> distinct (map fst (sv_clients sv))
     \<and> (\<forall>addr cid. map_of (sv_clients sv) addr = Some cid \<longleftrightarrow> (\<exists>c. sv_store sv cid = Some c \<and> sc_addr c = addr \<and> \<not> sc_closed c))
     \<and> (\<forall>cid c. sv_store sv cid = Some c \<longrightarrow> cid < sv_next sv \<and> pipe_inv (sc_rxpipe c))"

lemma server_invD:
  assumes "server_inv sv"
  shows "map_of (sv_clients sv) addr = Some cid \<Longrightarrow> \<exists>c. sv_store sv cid = Some c \<and> sc_addr c = addr \<and> \<not> sc_closed c"
    and "sv_store sv cid = Some c \<Longrightarrow> \<not> sc_closed c \<Longrightarrow> map_of (sv_clients sv) (sc_addr c) = Some cid"
    and "sv_store sv cid = Some c \<Longrightarrow> cid < sv_next sv \<and> pipe_inv (sc_rxpipe c)"
    and "sv_store sv (sv_next sv) = None"
proof -
  show "map_of (sv_clients sv) addr = Some cid \<Longrightarrow> \<exists>c. sv_store sv cid = Some c \<and> sc_addr c = addr \<and> \<not> sc_closed c"
    and "sv_store sv cid = Some c \<Longrightarrow> \<not> sc_closed c \<Longrightarrow> map_of (sv_clients sv) (sc_addr c) = Some cid"
    and "sv_store sv cid = Some c \<Longrightarrow> cid < sv_next sv \<and> pipe_inv (sc_rxpipe c)"
    using assms unfolding server_inv_def by (elim conjE, simp)+
  show "sv_store sv (sv_next sv) = None"
    using assms unfolding server_inv_def by (cases "sv_store sv (sv_next sv)") auto
qed

lemma server_invI:
  assumes "distinct (map fst (sv_clients sv))"
    and "\<And>addr cid. map_of (sv_clients sv) addr = Some cid \<longleftrightarrow> (\<exists>c. sv_store sv cid = Some c \<and> sc_addr c = addr \<and> \<not> sc_closed c)"
    and "\<And>cid c. sv_store sv cid = Some c \<Longrightarrow> cid < sv_next sv \<and> pipe_inv (sc_rxpipe c)"
  shows "server_inv sv"
  using assms unfolding server_inv_def by blast

lemma put_client_simps [simp]:
  "sv_store (put_client cid c sv) = (sv_store sv)(cid \<mapsto> c)" "sv_clients (put_client cid c sv) = sv_clients sv"
  "sv_next (put_client cid c sv) = sv_next sv" "timeoutCheckTime (put_client cid c sv) = timeoutCheckTime sv"
  by (simp_all add: put_client_def)

lemma server_inv_put:
  assumes "server_inv sv" "sv_store sv cid = Some c" "sc_addr c' = sc_addr c" "sc_closed c' = sc_closed c" "pipe_inv (sc_rxpipe c')"
  shows "server_inv (put_client cid c' sv)"
proof (rule server_invI, unfold put_client_simps)
  show "distinct (map fst (sv_clients sv))" using assms(1) by (simp add: server_inv_def)
  show "(map_of (sv_clients sv) addr = Some x) \<longleftrightarrow> (\<exists>c. ((sv_store sv)(cid \<mapsto> c')) x = Some c \<and> sc_addr c = addr \<and> \<not> sc_closed c)" for addr x
  proof (cases "x = cid")
    case True
    with server_invD(1,2) [OF assms(1), where cid = cid] assms(2-4) show ?thesis by auto
  next
    case False
    with server_invD(1,2) [OF assms(1), where cid = x] show ?thesis by auto
  qed
  show "x < sv_next sv \<and> pipe_inv (sc_rxpipe c)" if "((sv_store sv)(cid \<mapsto> c')) x = Some c" for x c
    using that server_invD(3) [OF assms(1)] assms(2,5) by (auto split: if_splits)
qed

lemma server_inv_receive:
  assumes "server_inv sv"
  shows "server_inv (receive_packet now packet cid sv)"
  using assms
  by (auto simp: receive_packet_def pipe_inv_ops dest: server_invD(3) intro!: server_inv_put split: option.split)

lemma server_inv_read: "server_inv sv \<Longrightarrow> server_inv (server_step cfg (SvRead cid ctx) sv)"
  by (auto simp: client_ReadPacket_def split_beta pipe_inv_ops dest: server_invD(3) intro!: server_inv_put split: option.split)

lemma server_inv_close:
  assumes "server_inv sv"
  shows "server_inv (fst (client_Close cid sv))"
proof (cases "sv_store sv cid")
  case (Some c)
  show ?thesis
  proof (cases "sc_closed c")
    case True
    with Some assms show ?thesis
      by (auto simp: client_Close_def split_beta pipe_inv_ops dest: server_invD(3) intro!: server_inv_put)
  next
    case False
    let ?sv = "(put_client cid (c\<lparr>sc_closed := True, sc_rxpipe := fst (pipe_Close (sc_rxpipe c))\<rparr>) sv)\<lparr>sv_clients := AList.delete (sc_addr c) (sv_clients sv)\<rparr>"
    have sv: "fst (client_Close cid sv) = ?sv"
      using Some False by (simp add: client_Close_def split_beta put_client_def)
    let ?c = "c\<lparr>sc_closed := True, sc_rxpipe := fst (pipe_Close (sc_rxpipe c))\<rparr>"
    have e: "sv_store ?sv = (sv_store sv)(cid \<mapsto> ?c)" "sv_clients ?sv = AList.delete (sc_addr c) (sv_clients sv)"
      "sv_next ?sv = sv_next sv" by simp_all
    have m1: "map_of (sv_clients sv) addr = Some cid' \<and> addr \<noteq> sc_addr c \<longleftrightarrow>
        (\<exists>c'. ((sv_store sv)(cid \<mapsto> ?c)) cid' = Some c' \<and> sc_addr c' = addr \<and> \<not> sc_closed c')" for addr cid'
      using server_invD(1,2) [OF assms] Some False by (auto split: if_splits) (metis option.inject)+
    have m: "map_of (AList.delete (sc_addr c) (sv_clients sv)) addr = Some cid' \<longleftrightarrow>
        (\<exists>c'. ((sv_store sv)(cid \<mapsto> ?c)) cid' = Some c' \<and> sc_addr c' = addr \<and> \<not> sc_closed c')" for addr cid'
      by (subst m1 [symmetric]) (simp add: delete_conv')
    have s: "cid' < sv_next sv \<and> pipe_inv (sc_rxpipe c')" if "((sv_store sv)(cid \<mapsto> ?c)) cid' = Some c'" for cid' c'
      using that server_invD(3) [OF assms] Some by (auto simp: pipe_inv_ops split: if_splits)
    have d: "distinct (map fst (AList.delete (sc_addr c) (sv_clients sv)))"
      using assms by (simp add: server_inv_def distinct_delete)
    from server_invI [of ?sv, unfolded e, OF d m s] sv show ?thesis by simp
  qed
qed (use assms in \<open>simp add: client_Close_def\<close>)

lemma server_inv_new:
  assumes "server_inv sv" "map_of (sv_clients sv) addr = None"
  shows "server_inv (fst (newClient now protocol addr sv))"
proof -
  let ?c = "\<lparr>sc_closed = False, sc_rxpipe = pipe_New, sc_addr = addr, lastReceiveTime = now\<rparr>"
  let ?sv = "fst (newClient now protocol addr sv)"
  have e: "sv_store ?sv = (sv_store sv)(sv_next sv \<mapsto> ?c)" "sv_clients ?sv = AList.update addr (sv_next sv) (sv_clients sv)"
    "sv_next ?sv = sv_next sv + 1" by (simp_all add: newClient_def Let_def)
  have m1: "(if a = addr then cid = sv_next sv else map_of (sv_clients sv) a = Some cid) \<longleftrightarrow>
      (\<exists>c. ((sv_store sv)(sv_next sv \<mapsto> ?c)) cid = Some c \<and> sc_addr c = a \<and> \<not> sc_closed c)" for a cid
    using server_invD [OF assms(1)] assms(2) by (cases "cid = sv_next sv") (force split: if_splits)+
  have m: "map_of (AList.update addr (sv_next sv) (sv_clients sv)) a = Some cid \<longleftrightarrow>
      (\<exists>c. ((sv_store sv)(sv_next sv \<mapsto> ?c)) cid = Some c \<and> sc_addr c = a \<and> \<not> sc_closed c)" for a cid
    by (subst m1 [symmetric]) (auto simp: update_conv')
  have s: "cid < sv_next sv + 1 \<and> pipe_inv (sc_rxpipe c)" if "((sv_store sv)(sv_next sv \<mapsto> ?c)) cid = Some c" for cid c
    using that server_invD(3) [OF assms(1)] by (fastforce simp: pipe_inv_ops split: if_splits)
  have d: "distinct (map fst (AList.update addr (sv_next sv) (sv_clients sv)))"
    using assms(1) by (simp add: server_inv_def distinct_update)
  show ?thesis by (rule server_invI [of ?sv, unfolded e, OF d m s])
qed

lemma server_inv_process: "server_inv sv \<Longrightarrow> server_inv (processPacket cfg clock b addr sv)"
  using server_inv_new [of sv addr]
  by (auto simp: processPacket_def split_beta intro!: server_inv_receive split: sum.split option.split)

lemma server_inv_check: "server_inv sv \<Longrightarrow> server_inv (fst (check_timeouts cfg now cids t sv))"
  by (induction cids arbitrary: t sv) (auto simp: Let_def server_inv_close split: option.split)

lemma server_inv_step:
  assumes "server_inv sv"
  shows "server_inv (server_step cfg ev sv)"
proof (cases ev)
  case (SvPoll clock rd)
  have "server_inv (sv\<lparr>timeoutCheckTime := t\<rparr>) = server_inv sv" for sv t by (simp add: server_inv_def)
  with SvPoll assms server_inv_process server_inv_check show ?thesis
    by (auto simp: poll_def checkClientTimeouts_def Let_def split_beta split: udp_read.split)
next
  case SvClose
  have "server_inv (fold (\<lambda>cid sv. fst (client_Close cid sv)) cids sv)" for cids
    using assms by (induction cids arbitrary: sv) (simp_all add: server_inv_close)
  with SvClose show ?thesis by (simp add: server_Close_def)
qed (use assms in \<open>simp_all add: server_inv_close server_inv_read del: server_step.simps(2)\<close>)

lemma server_inv_run: "server_inv sv \<Longrightarrow> server_inv (server_run cfg evs sv)"
  unfolding server_run_def by (induction evs arbitrary: sv) (simp_all add: server_inv_step)

lemma server_inv_New: "server_inv (server_New now)"
  by (simp add: server_inv_def server_New_def)

section \<open>Where queued packets come from\<close>

text \<open>The packets that arrived from an address in a history.\<close>

definition received_from :: "server_event list \<Rightarrow> udp_addr \<Rightarrow> Packet set" where
  "received_from evs a = {p. \<exists>clock b. SvPoll clock (UPacket b a) \<in> set evs \<and> Packet_UnmarshalBinary b = Inr p}"

definition origin_inv :: "server_config \<Rightarrow> (udp_addr \<Rightarrow> Packet set) \<Rightarrow> server \<Rightarrow> bool" where
  "origin_inv cfg R sv \<longleftrightarrow>
     (\<forall>cid c. sv_store sv cid = Some c \<longrightarrow> set (ch (sc_rxpipe c)) \<subseteq> R (sc_addr c))
     \<and> (\<forall>cid i. (cid, i) \<in> set (sv_started sv) \<longrightarrow>
          (\<exists>c p. sv_store sv cid = Some c \<and> p \<in> R (sc_addr c) \<and> findProtocol cfg p = Some i))"

lemma origin_invD:
  assumes "origin_inv cfg R sv"
  shows "sv_store sv cid = Some c \<Longrightarrow> set (ch (sc_rxpipe c)) \<subseteq> R (sc_addr c)"
    and "(cid, i) \<in> set (sv_started sv) \<Longrightarrow> \<exists>c p. sv_store sv cid = Some c \<and> p \<in> R (sc_addr c) \<and> findProtocol cfg p = Some i"
  using assms by (simp_all add: origin_inv_def)

lemma origin_inv_put:
  assumes "origin_inv cfg R sv" "sv_store sv cid = Some c" "sc_addr c' = sc_addr c" "set (ch (sc_rxpipe c')) \<subseteq> R (sc_addr c)"
    "sv_store sv' = (sv_store sv)(cid \<mapsto> c')" "sv_started sv' = sv_started sv"
  shows "origin_inv cfg R sv'"
proof -
  have "\<exists>c p. sv_store sv' x = Some c \<and> p \<in> R (sc_addr c) \<and> findProtocol cfg p = Some i" if i: "(x, i) \<in> set (sv_started sv')" for x i
  proof -
    from i assms(6) have "(x, i) \<in> set (sv_started sv)" by simp
    from origin_invD(2) [OF assms(1) this]
    obtain d p where d: "sv_store sv x = Some d" "p \<in> R (sc_addr d)" "findProtocol cfg p = Some i" by blast
    with assms(2,3,5) show ?thesis by (cases "x = cid") auto
  qed
  moreover have "set (ch (sc_rxpipe d)) \<subseteq> R (sc_addr d)" if "sv_store sv' x = Some d" for x d
    using that assms by (auto simp: origin_inv_def split: if_splits)
  ultimately show ?thesis unfolding origin_inv_def by blast
qed

lemma pipe_write_set: "set (ch (fst (pipe_WritePacket p q))) \<subseteq> insert p (set (ch q))"
  by (auto simp: pipe_WritePacket_def)

lemma pipe_read_set: "set (ch (fst (pipe_ReadPacket c q))) \<subseteq> set (ch q)"
  by (auto simp: pipe_defs split: option.splits list.splits)

lemma pipe_close_ch: "ch (fst (pipe_Close q)) = ch q"
  by (simp add: pipe_Close_def)

lemma origin_inv_receive:
  assumes "origin_inv cfg R sv" "\<And>c. sv_store sv cid = Some c \<Longrightarrow> p \<in> R (sc_addr c)"
  shows "origin_inv cfg R (receive_packet now p cid sv)"
proof (cases "sv_store sv cid")
  case (Some c)
  then have "set (ch (sc_rxpipe c)) \<subseteq> R (sc_addr c)" using assms(1) by (auto simp: origin_inv_def)
  with assms(2) [OF Some] pipe_write_set have "set (ch (fst (pipe_WritePacket p (sc_rxpipe c)))) \<subseteq> R (sc_addr c)" by blast
  with Some show ?thesis
    by (intro origin_inv_put [OF assms(1) Some, of "c\<lparr>lastReceiveTime := now, sc_rxpipe := fst (pipe_WritePacket p (sc_rxpipe c))\<rparr>"])
      (simp_all add: receive_packet_def put_client_def)
qed (use assms(1) in \<open>simp add: receive_packet_def\<close>)

lemma origin_inv_close:
  assumes "origin_inv cfg R sv"
  shows "origin_inv cfg R (fst (client_Close cid sv))"
proof (cases "sv_store sv cid")
  case (Some c)
  with assms have "set (ch (sc_rxpipe c)) \<subseteq> R (sc_addr c)" by (auto simp: origin_inv_def)
  with Some show ?thesis
    by (intro origin_inv_put [OF assms Some, of "c\<lparr>sc_closed := True, sc_rxpipe := fst (pipe_Close (sc_rxpipe c))\<rparr>"])
      (auto simp: client_Close_def split_beta put_client_def pipe_close_ch)
qed (use assms in \<open>simp add: client_Close_def\<close>)

lemma origin_inv_process:
  assumes "origin_inv cfg R sv" "server_inv sv" "\<And>p. Packet_UnmarshalBinary b = Inr p \<Longrightarrow> p \<in> R addr"
  shows "origin_inv cfg R (processPacket cfg clock b addr sv)"
proof (cases "Packet_UnmarshalBinary b")
  case (Inr p)
  note p = assms(3) [OF Inr]
  show ?thesis
  proof (cases "map_of (sv_clients sv) addr")
    case (Some cid)
    with server_invD(1) [OF assms(2)] p have "origin_inv cfg R (receive_packet (clock 1) p cid sv)"
      by (intro origin_inv_receive [OF assms(1)]) fastforce
    with Inr Some show ?thesis by (simp add: processPacket_def)
  next
    case None
    show ?thesis
    proof (cases "findProtocol cfg p")
      case (Some i)
      let ?sv = "fst (newClient (clock 0) i addr sv)"
      let ?c = "\<lparr>sc_closed = False, sc_rxpipe = pipe_New, sc_addr = addr, lastReceiveTime = clock 0\<rparr>"
      have e: "sv_store ?sv = (sv_store sv)(sv_next sv \<mapsto> ?c)" "sv_started ?sv = sv_started sv @ [(sv_next sv, i)]"
        "snd (newClient (clock 0) i addr sv) = sv_next sv"
        by (simp_all add: newClient_def Let_def put_client_def)
      have "origin_inv cfg R ?sv"
      proof -
        have "\<exists>c p. ((sv_store sv)(sv_next sv \<mapsto> ?c)) cid = Some c \<and> p \<in> R (sc_addr c) \<and> findProtocol cfg p = Some j"
          if "(cid, j) \<in> set (sv_started sv @ [(sv_next sv, i)])" for cid j
        proof (cases "(cid, j) = (sv_next sv, i)")
          case True
          with p Some show ?thesis by auto
        next
          case False
          with that have "(cid, j) \<in> set (sv_started sv)" by auto
          from origin_invD(2) [OF assms(1) this] server_invD(4) [OF assms(2)] show ?thesis
            by (cases "cid = sv_next sv") auto
        qed
        moreover have "set (ch (sc_rxpipe c)) \<subseteq> R (sc_addr c)" if "((sv_store sv)(sv_next sv \<mapsto> ?c)) cid = Some c" for cid c
          using that origin_invD(1) [OF assms(1)] by (auto simp: pipe_New_def split: if_splits)
        ultimately show ?thesis unfolding origin_inv_def e by blast
      qed
      then have "origin_inv cfg R (receive_packet (clock 1) p (sv_next sv) ?sv)"
        by (rule origin_inv_receive) (use p e in auto)
      with Inr None Some e show ?thesis by (simp add: processPacket_def split_beta)
    qed (use Inr None assms(1) in \<open>simp add: processPacket_def\<close>)
  qed
qed (use assms in \<open>simp add: processPacket_def\<close>)

lemma origin_inv_check: "origin_inv cfg R sv \<Longrightarrow> origin_inv cfg R (fst (check_timeouts cfg' now cids t sv))"
  by (induction cids arbitrary: t sv) (auto simp: Let_def origin_inv_close split: option.split)

lemma origin_inv_step:
  assumes "origin_inv cfg R sv" "server_inv sv"
    and "\<And>clock b a p. ev = SvPoll clock (UPacket b a) \<Longrightarrow> Packet_UnmarshalBinary b = Inr p \<Longrightarrow> p \<in> R a"
  shows "origin_inv cfg R (server_step cfg ev sv)"
proof (cases ev)
  case (SvPoll clock rd)
  have t: "origin_inv cfg R (sv\<lparr>timeoutCheckTime := t\<rparr>) = origin_inv cfg R sv" for sv t by (simp add: origin_inv_def)
  have "origin_inv cfg R (case rd of UPacket b addr \<Rightarrow> processPacket cfg clock b addr sv | _ \<Rightarrow> sv)"
    using assms SvPoll by (auto intro!: origin_inv_process split: udp_read.split)
  with SvPoll origin_inv_check assms(1) show ?thesis
    by (auto simp: poll_def checkClientTimeouts_def Let_def split_beta t split: udp_read.split)
next
  case (SvRead cid ctx)
  show ?thesis
  proof (cases "sv_store sv cid")
    case (Some c)
    with assms(1) have "set (ch (sc_rxpipe c)) \<subseteq> R (sc_addr c)" by (auto simp: origin_inv_def)
    with pipe_read_set [of ctx "sc_rxpipe c"] Some SvRead show ?thesis
      by (intro origin_inv_put [OF assms(1) Some, of "fst (client_ReadPacket ctx c)"])
        (auto simp: client_ReadPacket_def split_beta put_client_def)
  qed (use assms(1) SvRead in simp)
next
  case SvClose
  have "origin_inv cfg R (fold (\<lambda>cid sv. fst (client_Close cid sv)) cids sv)" for cids
    using assms(1) by (induction cids arbitrary: sv) (simp_all add: origin_inv_close)
  with SvClose show ?thesis by (simp add: server_Close_def)
qed (use assms(1) in \<open>simp add: origin_inv_close\<close>)

lemma origin_inv_run:
  assumes "origin_inv cfg R sv" "server_inv sv" "\<And>a. received_from evs a \<subseteq> R a"
  shows "origin_inv cfg R (server_run cfg evs sv)"
  using assms
proof (induction evs arbitrary: sv)
  case (Cons ev evs)
  have "origin_inv cfg R (server_step cfg ev sv)"
    using Cons.prems(3) by (intro origin_inv_step Cons.prems) (force simp: received_from_def)
  moreover have "received_from evs a \<subseteq> R a" for a
    using Cons.prems(3) [of a] by (auto simp: received_from_def)
  ultimately have "origin_inv cfg R (server_run cfg evs (server_step cfg ev sv))"
    using server_inv_step [OF Cons.prems(2)] by (intro Cons.IH)
  then show ?case by (simp add: server_run_def)
qed (simp add: server_run_def)

section \<open>Timeouts\<close>

definition idle :: "server_config \<Rightarrow> time \<Rightarrow> server \<Rightarrow> nat \<Rightarrow> bool" where
  "idle cfg now sv cid \<longleftrightarrow> (case sv_store sv cid of Some c \<Rightarrow> now > lastReceiveTime c + ClientTimeout cfg | None \<Rightarrow> False)"

lemma close_clients:
  assumes "server_inv sv"
  shows "map_of (sv_clients (fst (client_Close cid sv))) a = (if map_of (sv_clients sv) a = Some cid then None else map_of (sv_clients sv) a)"
proof (cases "sv_store sv cid")
  case None
  then have "map_of (sv_clients sv) a \<noteq> Some cid" using server_invD(1) [OF assms] by fastforce
  with None show ?thesis by (simp add: client_Close_def)
next
  case (Some c)
  show ?thesis
  proof (cases "sc_closed c")
    case True
    then have "map_of (sv_clients sv) a \<noteq> Some cid" using server_invD(1) [OF assms] Some by fastforce
    with Some True show ?thesis by (simp add: client_Close_def split_beta)
  next
    case False
    then have "map_of (sv_clients sv) a = Some cid \<longleftrightarrow> a = sc_addr c"
      using server_invD(1,2) [OF assms] Some by fastforce
    with Some False show ?thesis by (simp add: client_Close_def split_beta delete_conv')
  qed
qed

lemma close_times: "map_option lastReceiveTime (sv_store (fst (client_Close cid sv)) x) = map_option lastReceiveTime (sv_store sv x)"
  by (auto simp: client_Close_def split_beta split: option.split)

lemma idle_cong: "map_option lastReceiveTime (sv_store sv' x) = map_option lastReceiveTime (sv_store sv x) \<Longrightarrow> idle cfg now sv' x = idle cfg now sv x"
  by (auto simp: idle_def split: option.splits)

lemma idle_close [simp]: "idle cfg now (fst (client_Close cid sv)) x = idle cfg now sv x"
  by (rule idle_cong) (rule close_times)

lemma check_clients:
  assumes "server_inv sv"
  shows "map_of (sv_clients (fst (check_timeouts cfg now cids t sv))) a =
      (case map_of (sv_clients sv) a of None \<Rightarrow> None | Some cid \<Rightarrow> if cid \<in> set cids \<and> idle cfg now sv cid then None else Some cid)"
  using assms
proof (induction cids arbitrary: t sv)
  case (Cons cid cids)
  show ?case
  proof (cases "sv_store sv cid")
    case None
    with Cons.IH [OF Cons.prems, of t] show ?thesis by (auto simp: idle_def split: option.split)
  next
    case (Some c)
    let ?sv = "if now > lastReceiveTime c + ClientTimeout cfg then fst (client_Close cid sv) else sv"
    have "server_inv ?sv" using Cons.prems server_inv_close by simp
    note IH = Cons.IH [OF this]
    have i: "idle cfg now ?sv x = idle cfg now sv x" for x by simp
    have m: "map_of (sv_clients ?sv) a = (if map_of (sv_clients sv) a = Some cid \<and> idle cfg now sv cid then None else map_of (sv_clients sv) a)"
      using Some by (simp add: close_clients [OF Cons.prems] idle_def)
    let ?t = "if lastReceiveTime c + ClientTimeout cfg < t then lastReceiveTime c + ClientTimeout cfg else t"
    have r: "check_timeouts cfg now (cid # cids) t sv = check_timeouts cfg now cids ?t ?sv" using Some by (simp add: Let_def)
    show ?thesis
      unfolding r IH [of ?t] m i by (auto split: option.split)
  qed
qed (simp split: option.split)

lemma check_next:
  "snd (check_timeouts cfg now cids t sv) \<le> t"
  "cid \<in> set cids \<Longrightarrow> map_option lastReceiveTime (sv_store sv cid) = Some l \<Longrightarrow> snd (check_timeouts cfg now cids t sv) \<le> l + ClientTimeout cfg"
proof -
  show le: "snd (check_timeouts cfg now cids t sv) \<le> t" for cids t sv
  proof (induction cids arbitrary: t sv)
    case (Cons x cids)
    show ?case
    proof (cases "sv_store sv x")
      case None
      with Cons.IH show ?thesis by simp
    next
      case (Some c)
      let ?t = "if lastReceiveTime c + ClientTimeout cfg < t then lastReceiveTime c + ClientTimeout cfg else t"
      have "?t \<le> t" by simp
      with Some show ?thesis
        using order_trans [OF Cons.IH \<open>?t \<le> t\<close>] by (auto simp: Let_def)
    qed
  qed simp
  show "cid \<in> set cids \<Longrightarrow> map_option lastReceiveTime (sv_store sv cid) = Some l \<Longrightarrow> snd (check_timeouts cfg now cids t sv) \<le> l + ClientTimeout cfg"
  proof (induction cids arbitrary: t sv)
    case (Cons x cids)
    show ?case
    proof (cases "sv_store sv x")
      case None
      with Cons show ?thesis by auto
    next
      case (Some c)
      let ?sv = "if now > lastReceiveTime c + ClientTimeout cfg then fst (client_Close x sv) else sv"
      let ?t = "if lastReceiveTime c + ClientTimeout cfg < t then lastReceiveTime c + ClientTimeout cfg else t"
      have r: "check_timeouts cfg now (x # cids) t sv = check_timeouts cfg now cids ?t ?sv" using Some by (simp add: Let_def)
      have "map_option lastReceiveTime (sv_store ?sv cid) = Some l" using Cons.prems(2) by (simp only: close_times split: if_split) simp
      with Cons.IH [of ?sv ?t] le [of cids ?t ?sv] Cons.prems Some show ?thesis
        unfolding r by (cases "cid \<in> set cids") (auto intro: order_trans)
    qed
  qed simp
qed

section \<open>Properties\<close>

text \<open>
  C8. Clients are kept apart by their UDP address: in every history of the server a client's queue only holds packets
  that arrived from the client's own address, a protocol is only started for a client whose address has sent a packet
  that the protocol recognises (and no protocol listed before it does), and there is at most one open client per
  address, the one the server files under it.
\<close>

theorem server_isolation:
  assumes "sv = server_run cfg evs (server_New now)"
  shows "(sv_store sv cid = Some c \<longrightarrow> set (ch (sc_rxpipe c)) \<subseteq> received_from evs (sc_addr c) \<and> length (ch (sc_rxpipe c)) \<le> 16)
    \<and> ((cid, i) \<in> set (sv_started sv) \<longrightarrow>
        (\<exists>c p. sv_store sv cid = Some c \<and> p \<in> received_from evs (sc_addr c) \<and> findProtocol cfg p = Some i))
    \<and> (map_of (sv_clients sv) a = Some cid \<longleftrightarrow> (\<exists>c. sv_store sv cid = Some c \<and> sc_addr c = a \<and> \<not> sc_closed c))"
proof -
  have i: "server_inv sv" unfolding assms by (rule server_inv_run [OF server_inv_New])
  have "origin_inv cfg (received_from evs) (server_New now)" by (simp add: origin_inv_def server_New_def)
  then have o: "origin_inv cfg (received_from evs) sv" unfolding assms by (rule origin_inv_run [OF _ server_inv_New]) simp
  show ?thesis
    using origin_invD [OF o] server_invD(1,3) [OF i] server_invD(2) [OF i, of cid]
    by (intro conjI impI) (fastforce simp: pipe_inv_def maxBufferedPackets_def)+
qed

text \<open>
  C36. Idle clients are dropped, and only those: a timeout check removes exactly the clients from which nothing was
  received for longer than the configured time, and schedules the next check not later than ten seconds from now and
  not later than the earliest time at which one of the clients can become idle.
\<close>

theorem server_timeouts:
  assumes "server_inv sv" "checkClientTimeouts cfg now sv = (sv', t)"
  shows "map_of (sv_clients sv') a =
      (case map_of (sv_clients sv) a of None \<Rightarrow> None | Some cid \<Rightarrow> if idle cfg now sv cid then None else Some cid)
    \<and> t \<le> now + 10 * second
    \<and> (map_of (sv_clients sv) a = Some cid \<and> sv_store sv cid = Some c \<longrightarrow> t \<le> lastReceiveTime c + ClientTimeout cfg)"
proof -
  from assms(2) have sv': "sv' = fst (check_timeouts cfg now (allClients sv) (now + 10 * second) sv)"
    and t: "t = snd (check_timeouts cfg now (allClients sv) (now + 10 * second) sv)"
    by (simp_all add: checkClientTimeouts_def)
  have all: "x \<in> set (allClients sv)" if "map_of (sv_clients sv) a = Some x" for a x
    using map_of_SomeD [OF that] by (force simp: allClients_def)
  show ?thesis
    using check_clients [OF assms(1)] check_next(1) check_next(2) [OF all] all
    unfolding sv' t by (intro conjI) (auto split: option.split)
qed

section \<open>Examples\<close>

definition demo_config :: server_config where
  "demo_config = \<lparr>Protocols = [\<lambda>p. PacketType (Header p) = 9, \<lambda>p. Socket (Dest (Header p)) = Socket (Dest (Header (demo_packet 1 2)))], ClientTimeout = 5\<rparr>"

definition demo_clients :: "server_event list" where
  "demo_clients = [SvPoll (\<lambda>_. 1) (UPacket (Packet_MarshalBinary (demo_packet 1 2)) ''alice''),
     SvPoll (\<lambda>_. 8) (UPacket (Packet_MarshalBinary (demo_packet 1 3)) ''bob'')]"

lemma demo_clients_run:
  "let sv = server_run demo_config demo_clients (server_New 0) in
     sv_clients sv = [(''alice'', 0), (''bob'', 1)] \<and> sv_started sv = [(0, 1), (1, 1)]
     \<and> map_option (\<lambda>c. (ch (sc_rxpipe c), lastReceiveTime c)) (sv_store sv 1) = Some ([demo_packet 1 3], 8)
     \<and> map_option lastReceiveTime (sv_store sv 0) = Some 1"
  by code_simp

theorem server_isolation_witness:
  "\<exists>c p. sv_store (server_run demo_config demo_clients (server_New 0)) 1 = Some c
    \<and> p \<in> received_from demo_clients (sc_addr c) \<and> findProtocol demo_config p = Some 1"
  using server_isolation [OF refl, of demo_config demo_clients 0 1 _ 1] demo_clients_run by (simp add: Let_def)

theorem server_timeouts_witness:
  "\<exists>sv t. checkClientTimeouts demo_config 10 (server_run demo_config demo_clients (server_New 0)) = (sv, t)
    \<and> map_of (sv_clients sv) ''alice'' = None \<and> map_of (sv_clients sv) ''bob'' = Some 1 \<and> t \<le> 10 + 10 * second"
proof -
  let ?sv = "server_run demo_config demo_clients (server_New 0)"
  obtain sv t where r: "checkClientTimeouts demo_config 10 ?sv = (sv, t)" by (rule prod.exhaust)
  have "idle demo_config 10 ?sv 0" "\<not> idle demo_config 10 ?sv 1"
    using demo_clients_run by (auto simp: idle_def demo_config_def Let_def split: option.splits)
  with server_timeouts [OF server_inv_run [OF server_inv_New] r, of "''alice''"]
    server_timeouts [OF server_inv_run [OF server_inv_New] r, of "''bob''"] r demo_clients_run show ?thesis
    by (simp add: Let_def)
qed

end
