(* ===== verification/UdpClient.thy ===== *)
theory UdpClient
  imports NetIface
begin

text \<open>
  Package \<^verbatim>\<open>client\<close> (\<^verbatim>\<open>src/client/client.go\<close>): a connection to a server that carries IPX packets over UDP, and the
  interface \<^verbatim>\<open>ipx.ReadWriteCloser\<close> as the protocols above it use it: their reads are loops over packets that
  arrive, so that \<open>rwc\<close> has the methods that act on the connection.
\<close>

record 'i rwc =
  rw_Write :: "Packet \<Rightarrow> 'i \<Rightarrow> 'i \<times> error option"
  rw_Close :: "'i \<Rightarrow> 'i \<times> error option"

text \<open>The rounds of a loop that reads with a deadline: the clock reading and the result of the read.\<close>

type_synonym rounds = "(time \<times> read) list"

text \<open>A connection that records what is written.\<close>

definition log_rwc :: "Packet list rwc" where
  "log_rwc = \<lparr>rw_Write = (\<lambda>p i. (i @ [p], None)), rw_Close = (\<lambda>i. (i, None))\<rparr>"

lemma log_rwc_simps [simp]: "rw_Write log_rwc p i = (i @ [p], None)" "rw_Close log_rwc i = (i, None)"
  by (simp_all add: log_rwc_def)

section \<open>The UDP client\<close>

record 'u udpconn =
  conn_Write :: "bytes \<Rightarrow> 'u \<Rightarrow> 'u \<times> error option"
  conn_Close :: "'u \<Rightarrow> 'u \<times> error option"

record 'u udp_client =
  cl_conn :: 'u
  cl_rxpipe :: pipe

definition Client_init :: "'u \<Rightarrow> 'u udp_client" where
  "Client_init u = \<lparr>cl_conn = u, cl_rxpipe = pipe_New\<rparr>"

text \<open>What a read on the socket returns.\<close>

datatype conn_read = CData bytes | CClosed | CError error

text \<open>One iteration of \<^verbatim>\<open>recvLoop\<close>; the flag says whether the loop goes on.\<close>

definition Client_recvLoop_step :: "conn_read \<Rightarrow> 'u udp_client \<Rightarrow> 'u udp_client \<times> bool" where
  "Client_recvLoop_step rd c =
     (case rd of
        CClosed \<Rightarrow> (c\<lparr>cl_rxpipe := fst (pipe_Close (cl_rxpipe c))\<rparr>, False)
      | CError err \<Rightarrow> (c, True)
      | CData buf \<Rightarrow>
          (case Packet_UnmarshalBinary buf of
             Inl err \<Rightarrow> (c, True)
           | Inr p \<Rightarrow> (c\<lparr>cl_rxpipe := fst (pipe_WritePacket p (cl_rxpipe c))\<rparr>, True)))"

definition Client_ReadPacket :: "ctx \<Rightarrow> 'u udp_client \<Rightarrow> 'u udp_client \<times> read" where
  "Client_ReadPacket ctx c = (let (p, r) = pipe_ReadPacket ctx (cl_rxpipe c) in (c\<lparr>cl_rxpipe := p\<rparr>, r))"

definition Client_WritePacket :: "'u udpconn \<Rightarrow> Packet \<Rightarrow> 'u udp_client \<Rightarrow> 'u udp_client \<times> error option" where
  "Client_WritePacket C packet c =
     (let (u, err) = conn_Write C (Packet_MarshalBinary packet) (cl_conn c) in (c\<lparr>cl_conn := u\<rparr>, err))"

definition Client_Close :: "'u udpconn \<Rightarrow> 'u udp_client \<Rightarrow> 'u udp_client \<times> error option" where
  "Client_Close C c =
     (let (p, _) = pipe_Close (cl_rxpipe c); (u, err) = conn_Close C (cl_conn c)
      in (c\<lparr>cl_rxpipe := p, cl_conn := u\<rparr>, err))"

definition udp_rwc :: "'u udpconn \<Rightarrow> 'u udp_client rwc" where
  "udp_rwc C = \<lparr>rw_Write = Client_WritePacket C, rw_Close = Client_Close C\<rparr>"

text \<open>
  What a client reads is what arrived: the packets of the datagrams received, in order, as long as the queue has room.
\<close>

lemma Client_delivers:
  assumes "\<not> closed (cl_rxpipe c)" "length (ch (cl_rxpipe c)) + length ps \<le> maxBufferedPackets"
  shows "fold (\<lambda>b c. fst (Client_recvLoop_step (CData b) c)) (map Packet_MarshalBinary ps) c
    = c\<lparr>cl_rxpipe := (cl_rxpipe c)\<lparr>ch := ch (cl_rxpipe c) @ ps\<rparr>\<rparr>"
  using assms
  by (induction ps arbitrary: c)
    (simp_all add: Client_recvLoop_step_def Packet_roundtrip pipe_WritePacket_def)

end
