(* ===== verification/Uplink.thy ===== *)
theory Uplink
  imports UdpClient
begin

text \<open>
  The uplink protocol: package \<^verbatim>\<open>server/uplink\<close> (\<^verbatim>\<open>src/server/uplink/protocol.go\<close>) and its client
  (\<^verbatim>\<open>src/client/uplink/client.go\<close>). An uplink joins two networks over UDP; since it may carry packets from and to any
  address, both sides prove to each other that they know a password before anything is forwarded.

  \<^verbatim>\<open>encoding/json\<close> and \<^verbatim>\<open>crypto/sha256\<close> are the fields of a \<open>codec\<close>. The inner connection is given by its methods on a
  state \<open>'i\<close>.
\<close>

section \<open>Messages\<close>

definition Address :: addr where
  "Address = MkAddr 0x55 0x70 0x4c 0x69 0x4e 0x4b"

definition MessageTypeGetChallengeRequest :: string where
  "MessageTypeGetChallengeRequest = ''get-challenge-request''"
definition MessageTypeGetChallengeResponse :: string where
  "MessageTypeGetChallengeResponse = ''get-challenge-response''"
definition MessageTypeSubmitSolution :: string where
  "MessageTypeSubmitSolution = ''submit-solution''"
definition MessageTypeSubmitSolutionAccepted :: string where
  "MessageTypeSubmitSolutionAccepted = ''submit-solution-accepted''"
definition MessageTypeSubmitSolutionRejected :: string where
  "MessageTypeSubmitSolutionRejected = ''submit-solution-rejected''"
definition MessageTypeKeepalive :: string where
  "MessageTypeKeepalive = ''keepalive''"
definition MessageTypeClose :: string where
  "MessageTypeClose = ''close-connection''"

lemmas message_types = MessageTypeGetChallengeRequest_def MessageTypeGetChallengeResponse_def MessageTypeSubmitSolution_def
  MessageTypeSubmitSolutionAccepted_def MessageTypeSubmitSolutionRejected_def MessageTypeKeepalive_def MessageTypeClose_def

definition MinChallengeLength :: nat where
  "MinChallengeLength = 64"

record Message =
  m_Type :: string
  m_Challenge :: bytes
  m_Solution :: bytes

record codec =
  m_Marshal :: "Message \<Rightarrow> error + bytes"
  m_Unmarshal :: "bytes \<Rightarrow> error + Message"
  sha256 :: "bytes \<Rightarrow> bytes"

text \<open>A message with only its type set.\<close>

definition plain_message :: "string \<Rightarrow> Message" where
  "plain_message t = \<lparr>m_Type = t, m_Challenge = [], m_Solution = []\<rparr>"

definition str_bytes :: "string \<Rightarrow> bytes" where
  "str_bytes s = map (\<lambda>c. of_nat (of_char c)) s"

definition SolveChallenge :: "codec \<Rightarrow> string \<Rightarrow> string \<Rightarrow> bytes \<Rightarrow> bytes" where
  "SolveChallenge K side password challenge =
     sha256 K (str_bytes side @ challenge @ str_bytes password @ challenge)"

definition control_packet :: "bytes \<Rightarrow> Packet" where
  "control_packet data = \<lparr>Header = zeroHeader\<lparr>Dest := zeroHeaderAddr\<lparr>Addr := Address\<rparr>\<rparr>, Payload = data\<rparr>"

section \<open>The server side\<close>

record uplink_protocol =
  up_Password :: string
  up_KeepaliveTime :: duration

record uclient =
  authenticated :: bool
  uc_challenge :: bytes
  lastSendTime :: time

definition uplink_IsRegistrationPacket :: "codec \<Rightarrow> Packet \<Rightarrow> bool" where
  "uplink_IsRegistrationPacket K packet =
     (if Addr (Dest (Header packet)) \<noteq> Address then False
      else case m_Unmarshal K (Payload packet) of
             Inl err \<Rightarrow> False
           | Inr msg \<Rightarrow> m_Type msg = MessageTypeGetChallengeRequest)"

text \<open>
  The start of \<^verbatim>\<open>StartClient\<close>: the new client object and the node it is joined to. \<open>rnd\<close> is what \<^verbatim>\<open>rand.Read\<close> fills the
  challenge with, or its error.
\<close>

definition uplink_StartClient :: "'s network \<Rightarrow> env \<Rightarrow> error + bytes \<Rightarrow> 's \<Rightarrow> ('s \<times> (error + uclient \<times> int)) option" where
  "uplink_StartClient net e rnd s =
     (case rnd of
        Inl err \<Rightarrow> Some (s, Inl err)
      | Inr challenge \<Rightarrow>
          map_option (\<lambda>(s', r). (s', map_sum id (\<lambda>node.
              (\<lparr>authenticated = False, uc_challenge = challenge, lastSendTime = 0\<rparr>, node)) r))
            (NewNode net e s))"

definition sendUplinkMessage :: "codec \<Rightarrow> 'i rwc \<Rightarrow> Message \<Rightarrow> 'i \<Rightarrow> 'i \<times> error option" where
  "sendUplinkMessage K I msg i =
     (case m_Marshal K msg of
        Inl err \<Rightarrow> (i, Some err)
      | Inr jsonData \<Rightarrow> (fst (rw_Write I (control_packet jsonData) i), None))"

text \<open>One iteration of \<^verbatim>\<open>sendKeepalives\<close>, at the time \<open>now\<close>.\<close>

definition uplink_keepalive :: "codec \<Rightarrow> uplink_protocol \<Rightarrow> 'i rwc \<Rightarrow> time \<Rightarrow> uclient \<Rightarrow> 'i \<Rightarrow> 'i" where
  "uplink_keepalive K P I now c i =
     (if authenticated c \<and> now - lastSendTime c > up_KeepaliveTime P
      then fst (sendUplinkMessage K I (plain_message MessageTypeKeepalive) i) else i)"

definition authenticate ::
  "codec \<Rightarrow> uplink_protocol \<Rightarrow> 'i rwc \<Rightarrow> time \<Rightarrow> Message \<Rightarrow> uclient \<Rightarrow> 'i \<Rightarrow> uclient \<times> 'i \<times> error option" where
  "authenticate K P I now msg c i =
     (if length (m_Challenge msg) < MinChallengeLength
      then (c, i, Some (Errorf ''client challenge too short'' [int MinChallengeLength, int (length (m_Challenge msg))]))
      else if m_Solution msg \<noteq> SolveChallenge K ''client'' (up_Password P) (uc_challenge c) then
        (let (i, _) = rw_Close I i;
             (i, err) = sendUplinkMessage K I (plain_message MessageTypeSubmitSolutionRejected) i
         in (c, i, err))
      else
        let c = (if \<not> authenticated c then c\<lparr>authenticated := True, lastSendTime := now\<rparr> else c);
            (i, err) = sendUplinkMessage K I \<lparr>m_Type = MessageTypeSubmitSolutionAccepted, m_Challenge = [],
                m_Solution = SolveChallenge K ''server'' (up_Password P) (m_Challenge msg)\<rparr> i
        in (c, i, err))"

definition handleUplinkPacket ::
  "codec \<Rightarrow> uplink_protocol \<Rightarrow> 'i rwc \<Rightarrow> time \<Rightarrow> Packet \<Rightarrow> uclient \<Rightarrow> 'i \<Rightarrow> uclient \<times> 'i \<times> error option" where
  "handleUplinkPacket K P I now packet c i =
     (case m_Unmarshal K (Payload packet) of
        Inl err \<Rightarrow> (c, i, Some err)
      | Inr msg \<Rightarrow>
          if m_Type msg = MessageTypeGetChallengeRequest then
            (let (i, err) = sendUplinkMessage K I \<lparr>m_Type = MessageTypeGetChallengeResponse,
                m_Challenge = uc_challenge c, m_Solution = []\<rparr> i
             in (c, i, err))
          else if m_Type msg = MessageTypeSubmitSolution then authenticate K P I now msg c i
          else if m_Type msg = MessageTypeClose then (c, fst (rw_Close I i), None)
          else (c, i, None))"

text \<open>
  One iteration of the loop of \<^verbatim>\<open>ReadPacket\<close>, for a packet from the inner connection: the packet is returned to the
  caller, or the loop goes on.
\<close>

definition uplink_recv ::
  "codec \<Rightarrow> uplink_protocol \<Rightarrow> 'i rwc \<Rightarrow> time \<Rightarrow> Packet \<Rightarrow> uclient \<Rightarrow> 'i \<Rightarrow> uclient \<times> 'i \<times> Packet option" where
  "uplink_recv K P I now packet c i =
     (let (c, i) = (if Addr (Dest (Header packet)) = Address
                    then (let (c, i, _) = handleUplinkPacket K P I now packet c i in (c, i)) else (c, i))
      in if \<not> authenticated c then (c, i, None) else (c, i, Some packet))"

definition uplink_WritePacket :: "'i rwc \<Rightarrow> time \<Rightarrow> Packet \<Rightarrow> uclient \<Rightarrow> 'i \<Rightarrow> uclient \<times> 'i \<times> error option" where
  "uplink_WritePacket I now packet c i =
     (if \<not> authenticated c then (c, i, None)
      else let c = c\<lparr>lastSendTime := now\<rparr>; (i, err) = rw_Write I packet i in (c, i, err))"

definition uplink_Close :: "'i rwc \<Rightarrow> 'i \<Rightarrow> 'i \<times> error option" where
  "uplink_Close I i = rw_Close I i"

section \<open>The client side\<close>

definition maxConnectAttempts :: nat where
  "maxConnectAttempts = 5"

definition client_sendUplinkMessage :: "codec \<Rightarrow> 'i rwc \<Rightarrow> Message \<Rightarrow> 'i \<Rightarrow> 'i \<times> error option" where
  "client_sendUplinkMessage K I msg i =
     (case m_Marshal K msg of Inl err \<Rightarrow> (i, Some err) | Inr jsonData \<Rightarrow> rw_Write I (control_packet jsonData) i)"

text \<open>
  The loop of \<^verbatim>\<open>sendUntilResponse\<close>. Each iteration reads the clock and then waits for a packet until the deadline
  \<^verbatim>\<open>nextSendTime\<close>; the list has the clock reading and the result of the read for each iteration. \<open>None\<close> is a loop that
  has not ended yet, otherwise the result comes with the iterations that are left.
\<close>

fun sendUntilResponse ::
  "codec \<Rightarrow> 'i rwc \<Rightarrow> Message \<Rightarrow> time \<Rightarrow> nat \<Rightarrow> rounds \<Rightarrow> 'i \<Rightarrow> 'i \<times> ((error + Message) \<times> rounds) option" where
  "sendUntilResponse K I msg nextSendTime attempts [] i = (i, None)"
| "sendUntilResponse K I msg nextSendTime attempts ((now, rd) # rds) i =
     (if now > nextSendTime \<and> attempts \<ge> maxConnectAttempts
      then (i, Some (Inl (Errorf ''no response'' [int attempts]), rds))
      else
        let (i, attempts, nextSendTime) =
              (if now > nextSendTime then (fst (client_sendUplinkMessage K I msg i), attempts + 1, now + second)
               else (i, attempts, nextSendTime))
        in case rd of
             RBlock \<Rightarrow> (i, None)
           | RError err \<Rightarrow>
               if err = ContextDeadlineExceeded then sendUntilResponse K I msg nextSendTime attempts rds i
               else (i, Some (Inl err, rds))
           | RPacket packet \<Rightarrow>
               if Addr (Dest (Header packet)) \<noteq> Address then sendUntilResponse K I msg nextSendTime attempts rds i
               else case m_Unmarshal K (Payload packet) of
                      Inl err \<Rightarrow> (i, Some (Inl err, rds))
                    | Inr result \<Rightarrow>
                        if m_Type result = MessageTypeKeepalive then sendUntilResponse K I msg nextSendTime attempts rds i
                        else (i, Some (Inr result, rds)))"

definition ErrPermission :: error where
  "ErrPermission = OtherError ''permission denied''"

text \<open>
  \<open>rnd\<close> is the client's challenge, \<open>t\<close> and \<open>t'\<close> the clock readings at the start of the two exchanges. The result is
  \<open>None\<close> while the handshake has not ended, then the error, if any.
\<close>

definition handshakeConnect ::
  "codec \<Rightarrow> 'i rwc \<Rightarrow> string \<Rightarrow> bytes \<Rightarrow> time \<Rightarrow> time \<Rightarrow> rounds \<Rightarrow> 'i \<Rightarrow> 'i \<times> error option option" where
  "handshakeConnect K I password clientChallenge t t' rds i =
     (let clientSolution = SolveChallenge K ''server'' password clientChallenge;
          (i, r) = sendUntilResponse K I (plain_message MessageTypeGetChallengeRequest) t 0 rds i
      in case r of
           None \<Rightarrow> (i, None)
         | Some (Inl err, _) \<Rightarrow> (i, Some (Some err))
         | Some (Inr response, rds) \<Rightarrow>
             if m_Type response \<noteq> MessageTypeGetChallengeResponse
             then (i, Some (Some (Errorf ''wrong response to challenge request'' [])))
             else if length (m_Challenge response) < MinChallengeLength
             then (i, Some (Some (Errorf ''server challenge too short'' [int MinChallengeLength, int (length (m_Challenge response))])))
             else
               let (i, r) = sendUntilResponse K I \<lparr>m_Type = MessageTypeSubmitSolution, m_Challenge = clientChallenge,
                     m_Solution = SolveChallenge K ''client'' password (m_Challenge response)\<rparr> t' 0 rds i
               in case r of
                    None \<Rightarrow> (i, None)
                  | Some (Inl err, _) \<Rightarrow> (i, Some (Some err))
                  | Some (Inr response, _) \<Rightarrow>
                      if m_Type response = MessageTypeSubmitSolutionRejected then (i, Some (Some ErrPermission))
                      else if m_Type response \<noteq> MessageTypeSubmitSolutionAccepted
                      then (i, Some (Some (Errorf ''wrong response type from server'' [])))
                      else if m_Solution response \<noteq> clientSolution
                      then (i, Some (Some (Errorf ''wrong solution from server to client challenge'' [])))
                      else (i, Some None))"

text \<open>One iteration of \<^verbatim>\<open>recvLoop\<close> with the result \<open>rd\<close> of the read; the flag says whether the loop goes on.\<close>

definition recvLoop_step :: "read \<Rightarrow> pipe \<Rightarrow> pipe \<times> bool" where
  "recvLoop_step rd rxpipe =
     (case rd of
        RError err \<Rightarrow> (rxpipe, err \<noteq> ErrClosedPipe)
      | RBlock \<Rightarrow> (rxpipe, True)
      | RPacket packet \<Rightarrow>
          if Addr (Dest (Header packet)) = Address then (rxpipe, True)
          else (fst (pipe_WritePacket packet rxpipe), True))"

definition uclient_ReadPacket :: "ctx \<Rightarrow> pipe \<Rightarrow> pipe \<times> read" where
  "uclient_ReadPacket ctx rxpipe = pipe_ReadPacket ctx rxpipe"

definition uclient_WritePacket :: "'i rwc \<Rightarrow> Packet \<Rightarrow> 'i \<Rightarrow> 'i \<times> error option" where
  "uclient_WritePacket I packet i = rw_Write I packet i"

definition uclient_Close :: "codec \<Rightarrow> 'i rwc \<Rightarrow> pipe \<Rightarrow> 'i \<Rightarrow> pipe \<times> 'i \<times> error option" where
  "uclient_Close K I rxpipe i =
     (let (i, _) = client_sendUplinkMessage K I (plain_message MessageTypeClose) i;
          (rxpipe, _) = pipe_Close rxpipe;
          (i, err) = rw_Close I i
      in (rxpipe, i, err))"

section \<open>Histories of the server side\<close>

text \<open>
  The goroutines of a connection: copying from the client to the node (\<open>UpRecv\<close>), from the node to the client
  (\<open>UpSend\<close>), and keepalives (\<open>UpTick\<close>). The third component of the state is what was written to the node.
\<close>

datatype uplink_event = UpRecv time Packet | UpSend time Packet | UpTick time

fun uplink_step ::
  "codec \<Rightarrow> uplink_protocol \<Rightarrow> 'i rwc \<Rightarrow> uplink_event \<Rightarrow> uclient \<times> 'i \<times> Packet list \<Rightarrow> uclient \<times> 'i \<times> Packet list" where
  "uplink_step K P I (UpRecv now p) (c, i, node) =
     (case uplink_recv K P I now p c i of (c, i, r) \<Rightarrow> (c, i, node @ (case r of None \<Rightarrow> [] | Some q \<Rightarrow> [q])))"
| "uplink_step K P I (UpSend now p) (c, i, node) = (case uplink_WritePacket I now p c i of (c, i, _) \<Rightarrow> (c, i, node))"
| "uplink_step K P I (UpTick now) (c, i, node) = (c, uplink_keepalive K P I now c i, node)"

definition uplink_run ::
  "codec \<Rightarrow> uplink_protocol \<Rightarrow> 'i rwc \<Rightarrow> uplink_event list \<Rightarrow> uclient \<times> 'i \<times> Packet list \<Rightarrow> uclient \<times> 'i \<times> Packet list" where
  "uplink_run K P I evs s = fold (uplink_step K P I) evs s"

text \<open>A packet that carries a correct solution to the challenge \<open>chal\<close>.\<close>

definition solves :: "codec \<Rightarrow> uplink_protocol \<Rightarrow> bytes \<Rightarrow> Packet \<Rightarrow> bool" where
  "solves K P chal p \<longleftrightarrow> Addr (Dest (Header p)) = Address
     \<and> (case m_Unmarshal K (Payload p) of
          Inl _ \<Rightarrow> False
        | Inr msg \<Rightarrow> m_Type msg = MessageTypeSubmitSolution \<and> MinChallengeLength \<le> length (m_Challenge msg)
            \<and> m_Solution msg = SolveChallenge K ''client'' (up_Password P) chal)"

definition is_control :: "Packet \<Rightarrow> bool" where
  "is_control p \<longleftrightarrow> Addr (Dest (Header p)) = Address"

fun solving :: "codec \<Rightarrow> uplink_protocol \<Rightarrow> bytes \<Rightarrow> uplink_event \<Rightarrow> bool" where
  "solving K P chal (UpRecv now p) = solves K P chal p"
| "solving K P chal ev = False"

text \<open>The packets from the client and from the node in a history.\<close>

fun recvs :: "uplink_event list \<Rightarrow> Packet list" where
  "recvs [] = []"
| "recvs (UpRecv now p # evs) = p # recvs evs"
| "recvs (ev # evs) = recvs evs"

fun sends :: "uplink_event list \<Rightarrow> Packet list" where
  "sends [] = []"
| "sends (UpSend now p # evs) = p # sends evs"
| "sends (ev # evs) = sends evs"

abbreviation data_packets :: "Packet list \<Rightarrow> Packet list" where
  "data_packets \<equiv> filter (\<lambda>p. \<not> is_control p)"

section \<open>Authentication\<close>

lemma control_packet_control [simp]: "is_control (control_packet b)" "Addr (Dest (Header (control_packet b))) = Address"
  by (simp_all add: is_control_def control_packet_def)

lemma sendUplinkMessage_log:
  "data_packets (fst (sendUplinkMessage K log_rwc msg i)) = data_packets i"
  "sendUplinkMessage K log_rwc msg i = (i', err) \<Longrightarrow> data_packets i' = data_packets i"
  by (auto simp: sendUplinkMessage_def split: sum.splits)

lemma authenticate_log:
  assumes "authenticate K P log_rwc now msg c i = (c', i', err)"
  shows "data_packets i' = data_packets i" "uc_challenge c' = uc_challenge c"
    and "authenticated c' \<longleftrightarrow> authenticated c \<or> MinChallengeLength \<le> length (m_Challenge msg)
      \<and> m_Solution msg = SolveChallenge K ''client'' (up_Password P) (uc_challenge c)"
  using assms
  by (auto simp: authenticate_def Let_def dest: sendUplinkMessage_log(2) split: if_splits prod.splits)

lemma handleUplinkPacket_log:
  assumes "handleUplinkPacket K P log_rwc now p c i = (c', i', err)" "is_control p"
  shows "data_packets i' = data_packets i \<and> uc_challenge c' = uc_challenge c
    \<and> (authenticated c' \<longleftrightarrow> authenticated c \<or> solves K P (uc_challenge c) p)"
proof (cases "m_Unmarshal K (Payload p)")
  case (Inl err)
  with assms show ?thesis by (auto simp: handleUplinkPacket_def solves_def)
next
  case (Inr msg)
  show ?thesis
  proof (cases "m_Type msg = MessageTypeSubmitSolution")
    case True
    with assms Inr have "authenticate K P log_rwc now msg c i = (c', i', err)"
      by (simp add: handleUplinkPacket_def message_types)
    from authenticate_log [OF this] True Inr assms(2) show ?thesis
      by (auto simp: solves_def is_control_def)
  next
    case False
    with assms Inr show ?thesis
      by (auto simp: handleUplinkPacket_def solves_def Let_def dest: sendUplinkMessage_log(2) split: if_splits prod.splits)
  qed
qed

lemma uplink_recv_log:
  assumes "uplink_recv K P log_rwc now p c i = (c', i', r)"
  shows "data_packets i' = data_packets i" "uc_challenge c' = uc_challenge c"
    "authenticated c' \<longleftrightarrow> authenticated c \<or> solves K P (uc_challenge c) p" "r = (if authenticated c' then Some p else None)"
proof -
  have "data_packets i' = data_packets i \<and> uc_challenge c' = uc_challenge c
    \<and> (authenticated c' \<longleftrightarrow> authenticated c \<or> solves K P (uc_challenge c) p) \<and> r = (if authenticated c' then Some p else None)"
  proof (cases "is_control p")
    case True
    obtain c1 i1 err where h: "handleUplinkPacket K P log_rwc now p c i = (c1, i1, err)" by (metis prod.exhaust)
    from handleUplinkPacket_log [OF h True] h True assms show ?thesis
      by (auto simp: uplink_recv_def is_control_def split: if_splits)
  next
    case False
    with assms show ?thesis by (auto simp: uplink_recv_def is_control_def solves_def split: if_splits)
  qed
  then show "data_packets i' = data_packets i" "uc_challenge c' = uc_challenge c"
    "authenticated c' \<longleftrightarrow> authenticated c \<or> solves K P (uc_challenge c) p" "r = (if authenticated c' then Some p else None)" by auto
qed

text \<open>A single step, before and after authentication.\<close>

lemma uplink_step_log:
  assumes "uplink_step K P log_rwc ev (c, i, node) = (c', i', node')"
  shows "uc_challenge c' = uc_challenge c"
    and "authenticated c' \<longleftrightarrow> authenticated c \<or> solving K P (uc_challenge c) ev"
    and "node' = node @ (if authenticated c' then recvs [ev] else [])"
    and "data_packets i' = data_packets i @ (if authenticated c' then data_packets (sends [ev]) else [])"
proof -
  have "uc_challenge c' = uc_challenge c \<and> (authenticated c' \<longleftrightarrow> authenticated c \<or> solving K P (uc_challenge c) ev)
    \<and> node' = node @ (if authenticated c' then recvs [ev] else [])
    \<and> data_packets i' = data_packets i @ (if authenticated c' then data_packets (sends [ev]) else [])"
  proof (cases ev)
    case (UpRecv now p)
    obtain c1 i1 r where h: "uplink_recv K P log_rwc now p c i = (c1, i1, r)" by (metis prod.exhaust)
    from uplink_recv_log [OF h] UpRecv h assms show ?thesis by auto
  next
    case (UpSend now p)
    with assms show ?thesis by (cases "authenticated c") (auto simp: uplink_WritePacket_def)
  next
    case (UpTick now)
    with assms sendUplinkMessage_log(1) show ?thesis by (auto simp: uplink_keepalive_def)
  qed
  then show "uc_challenge c' = uc_challenge c" "authenticated c' \<longleftrightarrow> authenticated c \<or> solving K P (uc_challenge c) ev"
    "node' = node @ (if authenticated c' then recvs [ev] else [])"
    "data_packets i' = data_packets i @ (if authenticated c' then data_packets (sends [ev]) else [])" by auto
qed

lemma recvs_Cons: "recvs (ev # evs) = recvs [ev] @ recvs evs" and sends_Cons: "sends (ev # evs) = sends [ev] @ sends evs"
  by (cases ev; simp)+

lemma uplink_run_log:
  assumes "uplink_run K P log_rwc evs (c, i, node) = (c', i', node')"
  shows "let rest = (if authenticated c then evs else dropWhile (\<lambda>ev. \<not> solving K P (uc_challenge c) ev) evs)
    in (authenticated c' \<longleftrightarrow> authenticated c \<or> rest \<noteq> []) \<and> node' = node @ recvs rest \<and> data_packets i' = data_packets i @ data_packets (sends rest)"
  using assms
proof (induction evs arbitrary: c i node)
  case Nil
  then show ?case by (simp add: uplink_run_def)
next
  case (Cons ev evs)
  obtain c1 i1 node1 where s: "uplink_step K P log_rwc ev (c, i, node) = (c1, i1, node1)" by (metis prod.exhaust)
  with Cons.prems have r: "uplink_run K P log_rwc evs (c1, i1, node1) = (c', i', node')" by (simp add: uplink_run_def)
  note st = uplink_step_log [OF s]
  from Cons.IH [OF r] show ?case
    by (cases "authenticated c1")
      (auto simp: st Let_def recvs_Cons [of ev evs] sends_Cons [of ev evs])
qed

section \<open>The handshake\<close>

definition json_ok :: "codec \<Rightarrow> bool" where
  "json_ok K \<longleftrightarrow> (\<forall>m. \<exists>b. m_Marshal K m = Inr b \<and> m_Unmarshal K b = Inr m)"

text \<open>The packet that carries a message.\<close>

definition wire :: "codec \<Rightarrow> Message \<Rightarrow> Packet" where
  "wire K m = control_packet (projr (m_Marshal K m))"

lemma json_okD:
  assumes "json_ok K"
  shows "m_Unmarshal K (Payload (wire K m)) = Inr m" "m_Marshal K m = Inr (projr (m_Marshal K m))"
    "Addr (Dest (Header (wire K m))) = Address"
  using assms unfolding json_ok_def wire_def by (metis sum.sel(2) control_packet_def Packet.simps(2), metis sum.sel(2), simp)

lemma sendUplinkMessage_wire:
  assumes "json_ok K"
  shows "sendUplinkMessage K log_rwc m i = (i @ [wire K m], None)" "client_sendUplinkMessage K log_rwc m i = (i @ [wire K m], None)"
  using json_okD(2) [OF assms, of m] by (auto simp: sendUplinkMessage_def client_sendUplinkMessage_def wire_def split: sum.split)

text \<open>The two messages of a client with password \<open>pw\<close>.\<close>

definition request_message :: Message where
  "request_message = plain_message MessageTypeGetChallengeRequest"

definition submit_message :: "codec \<Rightarrow> string \<Rightarrow> bytes \<Rightarrow> bytes \<Rightarrow> Message" where
  "submit_message K pw cch chal =
     \<lparr>m_Type = MessageTypeSubmitSolution, m_Challenge = cch, m_Solution = SolveChallenge K ''client'' pw chal\<rparr>"

text \<open>A request that is answered at once.\<close>

lemma sendUntilResponse_answer:
  assumes "json_ok K" "now > t" "m_Type r \<noteq> MessageTypeKeepalive"
  shows "sendUntilResponse K log_rwc m t 0 ((now, RPacket (wire K r)) # rds) i = (i @ [wire K m], Some (Inr r, rds))"
  using assms by (simp add: sendUplinkMessage_wire json_okD maxConnectAttempts_def)

text \<open>A response is one of the packets that were read.\<close>

lemma sendUntilResponse_read:
  "sendUntilResponse K I m t n rds i = (i', Some (Inr r, rds')) \<Longrightarrow>
     set rds' \<subseteq> set rds \<and> (\<exists>now p. (now, RPacket p) \<in> set rds \<and> is_control p \<and> m_Unmarshal K (Payload p) = Inr r)"
proof (induction rds arbitrary: t n i)
  case (Cons x rds)
  obtain now rd where x: "x = (now, rd)" by (rule prod.exhaust)
  obtain i1 n1 t1 where y: "(if now > t then (fst (client_sendUplinkMessage K I m i), n + 1, now + second) else (i, n, t)) = (i1, n1, t1)"
    by (metis prod.exhaust)
  have go: "\<not> (now > t \<and> n \<ge> maxConnectAttempts)" using Cons.prems by (auto simp: x split: if_splits)
  note IH = Cons.IH [of t1 n1 i1]
  show ?case
  proof (cases rd)
    case (RPacket p)
    with Cons.prems IH go y show ?thesis
      by (simp add: x is_control_def split: if_splits sum.splits) blast+
  next
    case (RError e)
    with Cons.prems IH go y show ?thesis by (simp add: x split: if_splits) blast+
  next
    case RBlock
    with Cons.prems go y show ?thesis by (simp add: x split: if_splits)
  qed
qed simp

text \<open>A client that reports success has seen the server's solution to its own challenge.\<close>

lemma handshake_sound:
  assumes "handshakeConnect K I pw cch t t' rds i = (i', Some None)"
  shows "\<exists>now p m. (now, RPacket p) \<in> set rds \<and> is_control p \<and> m_Unmarshal K (Payload p) = Inr m
    \<and> m_Type m = MessageTypeSubmitSolutionAccepted \<and> m_Solution m = SolveChallenge K ''server'' pw cch"
proof -
  obtain i1 x1 where 1: "sendUntilResponse K I (plain_message MessageTypeGetChallengeRequest) t 0 rds i = (i1, x1)" by (rule prod.exhaust)
  with assms obtain r1 rds1 where x1: "x1 = Some (Inr r1, rds1)"
    by (auto simp: handshakeConnect_def Let_def split: option.splits sum.splits)
  obtain i2 x2 where 2: "sendUntilResponse K I \<lparr>m_Type = MessageTypeSubmitSolution, m_Challenge = cch,
      m_Solution = SolveChallenge K ''client'' pw (m_Challenge r1)\<rparr> t' 0 rds1 i1 = (i2, x2)" by (rule prod.exhaust)
  with assms 1 x1 obtain r2 rds2 where x2: "x2 = Some (Inr r2, rds2)"
    and r2: "m_Type r2 = MessageTypeSubmitSolutionAccepted" "m_Solution r2 = SolveChallenge K ''server'' pw cch"
    by (auto simp: handshakeConnect_def Let_def split: option.splits sum.splits if_splits)
  from sendUntilResponse_read [OF 1 [unfolded x1]] sendUntilResponse_read [OF 2 [unfolded x2]] r2
  show ?thesis by blast
qed

section \<open>Properties\<close>

text \<open>
  C6. Nothing crosses an uplink before it is authenticated: whatever the client sends and the network offers, the
  client counts as authenticated exactly from the first packet on that carries the right solution to the server's
  challenge; the packets written to the network are exactly those received from there on, and apart from control
  messages the client is sent exactly the network packets from there on.
\<close>

theorem uplink_authenticated:
  "let (c, i, node) = uplink_run K P log_rwc evs (\<lparr>authenticated = False, uc_challenge = chal, lastSendTime = 0\<rparr>, [], []);
       rest = dropWhile (\<lambda>ev. \<not> solving K P chal ev) evs
   in (authenticated c \<longleftrightarrow> rest \<noteq> []) \<and> node = recvs rest \<and> data_packets i = data_packets (sends rest)"
proof -
  obtain c i node where r: "uplink_run K P log_rwc evs (\<lparr>authenticated = False, uc_challenge = chal, lastSendTime = 0\<rparr>, [], []) = (c, i, node)"
    by (metis prod.exhaust)
  from uplink_run_log [OF r] r show ?thesis by (simp add: Let_def)
qed

text \<open>
  C19. The handshake does what it is for: if the client's packets reach the server and the server's answers reach
  the client, both sides using the same password end up connected, with the client returning no error and the server
  having authenticated the client; if the client's password gives another solution, the client gets a permission error
  and is not authenticated.
\<close>

theorem uplink_handshake:
  assumes "json_ok K" "MinChallengeLength \<le> length chal" "MinChallengeLength \<le> length cch" "t < n1" "t' < n2"
  shows "\<exists>c r1 r2 node.
      uplink_run K P log_rwc [UpRecv u1 (wire K request_message), UpRecv u2 (wire K (submit_message K pw cch chal))]
        (\<lparr>authenticated = False, uc_challenge = chal, lastSendTime = 0\<rparr>, [], []) = (c, [r1, r2], node)
    \<and> handshakeConnect K log_rwc pw cch t t' [(n1, RPacket r1), (n2, RPacket r2)] [] =
        ([wire K request_message, wire K (submit_message K pw cch chal)], Some (if authenticated c then
            (if SolveChallenge K ''server'' pw cch = SolveChallenge K ''server'' (up_Password P) cch then None
             else Some (Errorf ''wrong solution from server to client challenge'' [])) else Some ErrPermission))
    \<and> (authenticated c \<longleftrightarrow> SolveChallenge K ''client'' pw chal = SolveChallenge K ''client'' (up_Password P) chal)"
proof -
  let ?agree = "SolveChallenge K ''client'' pw chal = SolveChallenge K ''client'' (up_Password P) chal"
  let ?r1 = "\<lparr>m_Type = MessageTypeGetChallengeResponse, m_Challenge = chal, m_Solution = []\<rparr>"
  let ?r2 = "if ?agree then \<lparr>m_Type = MessageTypeSubmitSolutionAccepted, m_Challenge = [], m_Solution = SolveChallenge K ''server'' (up_Password P) cch\<rparr>
    else plain_message MessageTypeSubmitSolutionRejected"
  let ?c = "\<lparr>authenticated = ?agree, uc_challenge = chal, lastSendTime = if ?agree then u2 else 0\<rparr>"
  have "uplink_run K P log_rwc [UpRecv u1 (wire K request_message), UpRecv u2 (wire K (submit_message K pw cch chal))]
        (\<lparr>authenticated = False, uc_challenge = chal, lastSendTime = 0\<rparr>, [], [])
      = (?c, [wire K ?r1, wire K ?r2], if ?agree then [wire K (submit_message K pw cch chal)] else [])"
    using assms(1-3)
    by (simp add: uplink_run_def uplink_recv_def handleUplinkPacket_def authenticate_def json_okD sendUplinkMessage_wire
        request_message_def submit_message_def plain_message_def message_types)
  moreover have "m_Type ?r1 \<noteq> MessageTypeKeepalive" "m_Type ?r2 \<noteq> MessageTypeKeepalive"
    by (simp_all add: message_types plain_message_def)
  note a1 = sendUntilResponse_answer [OF assms(1,4) this(1), of request_message] and a2 = sendUntilResponse_answer [OF assms(1,5) this(2), of "submit_message K pw cch chal"]
  have "handshakeConnect K log_rwc pw cch t t' [(n1, RPacket (wire K ?r1)), (n2, RPacket (wire K ?r2))] [] =
        ([wire K request_message, wire K (submit_message K pw cch chal)], Some (if ?agree then
            (if SolveChallenge K ''server'' pw cch = SolveChallenge K ''server'' (up_Password P) cch then None
             else Some (Errorf ''wrong solution from server to client challenge'' [])) else Some ErrPermission))"
    using assms(2) a1 a2 unfolding handshakeConnect_def Let_def request_message_def submit_message_def
    by (simp add: plain_message_def message_types)
  ultimately show ?thesis by simp
qed

section \<open>Examples\<close>

text \<open>An encoding of messages that can be decoded: each byte string with a marker before every byte and one at its end.\<close>

fun mark :: "bytes \<Rightarrow> bytes" where
  "mark [] = [0]"
| "mark (b # bs) = 1 # b # mark bs"

fun unmark :: "bytes \<Rightarrow> bytes \<times> bytes" where
  "unmark (x # y # r) = (if x = 0 then ([], y # r) else let (bs, r') = unmark r in (y # bs, r'))"
| "unmark r = ([], [])"

lemma unmark_mark: "unmark (mark bs @ r) = (bs, r)"
  by (induction bs) (cases r; simp)+

definition demo_json :: codec where
  "demo_json = \<lparr>
     m_Marshal = (\<lambda>m. Inr (mark (str_bytes (m_Type m)) @ mark (m_Challenge m) @ mark (m_Solution m))),
     m_Unmarshal = (\<lambda>b. let (t, b) = unmark b; (c, b) = unmark b; (s, b) = unmark b
        in Inr \<lparr>m_Type = map (\<lambda>x. char_of (unat x)) t, m_Challenge = c, m_Solution = s\<rparr>),
     sha256 = id\<rparr>"

lemma str_bytes_inverse: "map (\<lambda>x. char_of (unat x)) (str_bytes s) = s"
proof -
  have "char_of (unat (of_nat (of_char c) :: byte)) = c" for c
  proof -
    have "char_of (of_char c mod (256 :: nat)) = c" by simp
    then show ?thesis by (simp add: unat_of_nat)
  qed
  then show ?thesis by (simp add: str_bytes_def comp_def)
qed

lemma demo_json_ok: "json_ok demo_json"
  using unmark_mark [of _ "[]"] by (simp add: json_ok_def demo_json_def unmark_mark str_bytes_inverse)

theorem uplink_handshake_witness:
  "\<exists>c r1 r2 node. uplink_run demo_json \<lparr>up_Password = ''secret'', up_KeepaliveTime = 5\<rparr> log_rwc
        [UpRecv 1 (wire demo_json request_message), UpRecv 2 (wire demo_json (submit_message demo_json ''secret'' (replicate 64 1) (replicate 64 2)))]
        (\<lparr>authenticated = False, uc_challenge = replicate 64 2, lastSendTime = 0\<rparr>, [], []) = (c, [r1, r2], node)
    \<and> snd (handshakeConnect demo_json log_rwc ''secret'' (replicate 64 1) 0 2 [(1, RPacket r1), (3, RPacket r2)] []) = Some None
    \<and> authenticated c"
  using uplink_handshake [OF demo_json_ok, of "replicate 64 2" "replicate 64 1" 0 1 2 3 "\<lparr>up_Password = ''secret'', up_KeepaliveTime = 5\<rparr>" 1 2 "''secret''"]
  by (auto simp: MinChallengeLength_def)

end
