(* ===== verification/Dosbox.thy ===== *)
theory Dosbox
  imports Stack UdpClient
begin

text \<open>
  The DOSBox IPX protocol: package \<^verbatim>\<open>server/dosbox\<close> (\<^verbatim>\<open>src/server/dosbox/protocol.go\<close>) and its client
  (\<^verbatim>\<open>src/client/dosbox/client.go\<close>). A client registers with a packet to socket 2 of the null address and is told its
  address in the reply; the server pings clients it has not heard from.
\<close>

section \<open>The server side\<close>

definition addrPingReply :: addr where
  "addrPingReply = MkAddr 0x02 0xff 0xff 0xff 0x00 0x00"

definition isRegistrationPacket :: "Packet \<Rightarrow> bool" where
  "isRegistrationPacket packet =
     (let h = Header packet
      in Socket (Dest h) = 2 \<and> Network (Dest h) = ZeroNetwork \<and> Addr (Dest h) = AddrNull)"

record dclient =
  nodeAddr :: addr
  lastRecvTime :: time

definition registration_reply :: "addr \<Rightarrow> Packet" where
  "registration_reply a = \<lparr>Header = zeroHeader\<lparr>Checksum := 0xffff, Length := 30, TransControl := 0,
       Dest := \<lparr>Network = MkNet 0 0 0 0, Addr = a, Socket = 2\<rparr>,
       Src := \<lparr>Network = MkNet 0 0 0 1, Addr = AddrBroadcast, Socket = 2\<rparr>\<rparr>, Payload = []\<rparr>"

definition sendRegistrationReply :: "'i rwc \<Rightarrow> dclient \<Rightarrow> 'i \<Rightarrow> 'i" where
  "sendRegistrationReply I c i = fst (rw_Write I (registration_reply (nodeAddr c)) i)"

definition ping_packet :: Packet where
  "ping_packet = \<lparr>Header = zeroHeader\<lparr>
       Dest := zeroHeaderAddr\<lparr>Addr := AddrBroadcast, Socket := 2\<rparr>,
       Src := zeroHeaderAddr\<lparr>Addr := addrPingReply, Socket := 0\<rparr>\<rparr>, Payload = []\<rparr>"

definition sendPing :: "'i rwc \<Rightarrow> 'i \<Rightarrow> 'i" where
  "sendPing I i = fst (rw_Write I ping_packet i)"

text \<open>
  \<^verbatim>\<open>StartClient\<close> up to the copying of packets: \<open>rd\<close> is the first packet of the client. The result is an error, or that
  there is nothing to do, or the new client object with its node.
\<close>

datatype start = StartError error | StartIgnored | Started dclient int

definition dosbox_StartClient ::
  "'s network \<Rightarrow> 'i rwc \<Rightarrow> env \<Rightarrow> time \<Rightarrow> error + Packet \<Rightarrow> 's \<Rightarrow> 'i \<Rightarrow> ('s \<times> 'i \<times> start) option" where
  "dosbox_StartClient net I e now rd s i =
     (case rd of
        Inl err \<Rightarrow> Some (s, i, StartError err)
      | Inr packet \<Rightarrow>
          if \<not> isRegistrationPacket packet then Some (s, i, StartIgnored)
          else
            map_option (\<lambda>(s', r).
              case r of
                Inl err \<Rightarrow> (s', i, StartError err)
              | Inr node \<Rightarrow>
                  let c = \<lparr>nodeAddr = NodeAddress net node s', lastRecvTime = now\<rparr>
                  in (s', sendRegistrationReply I c i, Started c node))
              (NewNode net e s))"

text \<open>The rest of \<^verbatim>\<open>StartClient\<close>: when \<^verbatim>\<open>DuplexCopyPackets\<close> has returned \<open>err\<close>, the node is closed.\<close>

definition dosbox_StartClient_return :: "'s network \<Rightarrow> int \<Rightarrow> error option \<Rightarrow> 's \<Rightarrow> 's \<times> error option" where
  "dosbox_StartClient_return net node err s = (fst (Close net node s), err)"

text \<open>
  One iteration of the loop of \<^verbatim>\<open>ReadPacket\<close>, for a packet from the inner connection: the packet is returned to the
  caller, or the loop goes on.
\<close>

definition dosbox_recv :: "'i rwc \<Rightarrow> time \<Rightarrow> Packet \<Rightarrow> dclient \<Rightarrow> 'i \<Rightarrow> dclient \<times> 'i \<times> Packet option" where
  "dosbox_recv I now packet c i =
     (let c = c\<lparr>lastRecvTime := now\<rparr>
      in if isRegistrationPacket packet then (c, sendRegistrationReply I c i, None) else (c, i, Some packet))"

definition dosbox_WritePacket :: "'i rwc \<Rightarrow> Packet \<Rightarrow> 'i \<Rightarrow> 'i \<times> error option" where
  "dosbox_WritePacket I packet i = rw_Write I packet i"

definition dosbox_Close :: "'i rwc \<Rightarrow> 'i \<Rightarrow> 'i \<times> error option" where
  "dosbox_Close I i = rw_Close I i"

text \<open>One iteration of \<^verbatim>\<open>sendKeepalives\<close>, which runs if the keepalive time is not 0, at the time \<open>now\<close>.\<close>

definition dosbox_keepalive :: "'i rwc \<Rightarrow> duration \<Rightarrow> time \<Rightarrow> dclient \<Rightarrow> 'i \<Rightarrow> 'i" where
  "dosbox_keepalive I checkPeriod now c i = (if now > lastRecvTime c + checkPeriod then sendPing I i else i)"

section \<open>The client side\<close>

definition dosbox_maxConnectAttempts :: nat where
  "dosbox_maxConnectAttempts = 5"

definition connectFailure :: error where
  "connectFailure = Errorf ''failed to connect to server'' []"

record dconnection =
  dc_rxpipe :: pipe
  dc_addr :: addr

definition dconnection_ReadPacket :: "ctx \<Rightarrow> dconnection \<Rightarrow> dconnection \<times> read" where
  "dconnection_ReadPacket ctx c = (let (p, r) = pipe_ReadPacket ctx (dc_rxpipe c) in (c\<lparr>dc_rxpipe := p\<rparr>, r))"

definition dconnection_WritePacket :: "'i rwc \<Rightarrow> Packet \<Rightarrow> 'i \<Rightarrow> 'i \<times> error option" where
  "dconnection_WritePacket I packet i = rw_Write I packet i"

definition dconnection_Close :: "'i rwc \<Rightarrow> dconnection \<Rightarrow> 'i \<Rightarrow> dconnection \<times> 'i \<times> error option" where
  "dconnection_Close I c i =
     (let (p, _) = pipe_Close (dc_rxpipe c); (i, err) = rw_Close I i in (c\<lparr>dc_rxpipe := p\<rparr>, i, err))"

definition dconnection_GetProperty :: "prop_kind \<Rightarrow> dconnection \<Rightarrow> property option" where
  "dconnection_GetProperty k c = (case k of KAddr \<Rightarrow> Some (PAddr (dc_addr c)) | _ \<Rightarrow> None)"

definition ping_reply :: "addr \<Rightarrow> addr \<Rightarrow> Packet" where
  "ping_reply dst src = \<lparr>Header = zeroHeader\<lparr>
       Dest := zeroHeaderAddr\<lparr>Addr := dst, Socket := 2\<rparr>,
       Src := zeroHeaderAddr\<lparr>Addr := src, Socket := 0\<rparr>\<rparr>, Payload = []\<rparr>"

definition sendPingReply :: "'i rwc \<Rightarrow> addr \<Rightarrow> dconnection \<Rightarrow> 'i \<Rightarrow> 'i" where
  "sendPingReply I a c i = fst (rw_Write I (ping_reply a (dc_addr c)) i)"

definition isPing :: "Header \<Rightarrow> bool" where
  "isPing hdr \<longleftrightarrow> Addr (Dest hdr) = AddrBroadcast \<and> Socket (Dest hdr) = 2"

text \<open>One iteration of \<^verbatim>\<open>recvLoop\<close> with the result \<open>rd\<close> of the read; the flag says whether the loop goes on.\<close>

definition dosbox_recvLoop_step :: "'i rwc \<Rightarrow> read \<Rightarrow> dconnection \<Rightarrow> 'i \<Rightarrow> dconnection \<times> 'i \<times> bool" where
  "dosbox_recvLoop_step I rd c i =
     (case rd of
        RError err \<Rightarrow> (c, i, err \<noteq> ErrClosedPipe)
      | RBlock \<Rightarrow> (c, i, True)
      | RPacket packet \<Rightarrow>
          if isPing (Header packet) then (c, sendPingReply I (Addr (Src (Header packet))) c i, True)
          else (c\<lparr>dc_rxpipe := fst (pipe_WritePacket packet (dc_rxpipe c))\<rparr>, i, True))"

definition registration_packet :: Packet where
  "registration_packet = \<lparr>Header = zeroHeader\<lparr>
       Dest := zeroHeaderAddr\<lparr>Addr := AddrNull, Socket := 2\<rparr>,
       Src := zeroHeaderAddr\<lparr>Addr := AddrNull, Socket := 2\<rparr>\<rparr>, Payload = []\<rparr>"

definition sendRegistrationPacket :: "'i rwc \<Rightarrow> 'i \<Rightarrow> 'i" where
  "sendRegistrationPacket I i = fst (rw_Write I registration_packet i)"

definition isRegistrationResponse :: "Header \<Rightarrow> bool" where
  "isRegistrationResponse hdr \<longleftrightarrow>
     Socket (Dest hdr) = 2 \<and> Socket (Src hdr) = 2 \<and> Addr (Dest hdr) \<noteq> AddrBroadcast"

text \<open>The loop of \<^verbatim>\<open>handshakeConnect\<close>; \<open>None\<close> is a loop that has not ended yet.\<close>

fun dosbox_handshake_loop :: "'i rwc \<Rightarrow> time \<Rightarrow> nat \<Rightarrow> rounds \<Rightarrow> 'i \<Rightarrow> 'i \<times> (error + addr) option" where
  "dosbox_handshake_loop I nextSendTime attempts [] i = (i, None)"
| "dosbox_handshake_loop I nextSendTime attempts ((now, rd) # rds) i =
     (if now > nextSendTime \<and> attempts \<ge> dosbox_maxConnectAttempts then (i, Some (Inl connectFailure))
      else
        let (i, attempts, nextSendTime) =
              (if now > nextSendTime then (sendRegistrationPacket I i, attempts + 1, now + second)
               else (i, attempts, nextSendTime))
        in case rd of
             RBlock \<Rightarrow> (i, None)
           | RError err \<Rightarrow>
               if err = ContextDeadlineExceeded then dosbox_handshake_loop I nextSendTime attempts rds i
               else (i, Some (Inl err))
           | RPacket packet \<Rightarrow>
               if isRegistrationResponse (Header packet) then (i, Some (Inr (Addr (Dest (Header packet)))))
               else dosbox_handshake_loop I nextSendTime attempts rds i)"

definition dosbox_handshakeConnect :: "'i rwc \<Rightarrow> time \<Rightarrow> rounds \<Rightarrow> 'i \<Rightarrow> 'i \<times> (error + addr) option" where
  "dosbox_handshakeConnect I t rds i = dosbox_handshake_loop I t 0 rds i"

text \<open>\<^verbatim>\<open>Dial\<close> on an open UDP connection; \<open>None\<close> as above.\<close>

definition dosbox_Dial :: "'i rwc \<Rightarrow> time \<Rightarrow> rounds \<Rightarrow> 'i \<Rightarrow> 'i \<times> (error + dconnection) option" where
  "dosbox_Dial I t rds i =
     (case dosbox_handshakeConnect I t rds i of
        (i, None) \<Rightarrow> (i, None)
      | (i, Some (Inl err)) \<Rightarrow> (fst (rw_Close I i), Some (Inl err))
      | (i, Some (Inr a)) \<Rightarrow> (i, Some (Inr \<lparr>dc_rxpipe = pipe_New, dc_addr = a\<rparr>)))"

section \<open>Packets\<close>

lemmas dosbox_packets = registration_packet_def registration_reply_def ping_packet_def ping_reply_def
  zeroHeader_def zeroHeaderAddr_def

text \<open>Which packets of the protocol are taken for which.\<close>

lemma packet_kinds:
  "isRegistrationPacket registration_packet" "\<not> isRegistrationPacket ping_packet"
  "isRegistrationPacket (ping_reply dst src) \<longleftrightarrow> dst = AddrNull"
  "isRegistrationPacket (registration_reply a) \<longleftrightarrow> a = AddrNull"
  "isPing (Header ping_packet)" "isPing (Header (registration_reply a)) \<longleftrightarrow> a = AddrBroadcast"
  "isRegistrationResponse (Header (registration_reply a)) \<longleftrightarrow> a \<noteq> AddrBroadcast"
  "\<not> isRegistrationResponse (Header ping_packet)"
  by (simp_all add: isRegistrationPacket_def isPing_def isRegistrationResponse_def dosbox_packets ZeroNetwork_def AddrBroadcast_def AddrNull_def)

lemma ping_reply_addr: "addrPingReply \<noteq> AddrNull"
  by (simp add: addrPingReply_def AddrNull_def)

section \<open>Waiting for the server\<close>

text \<open>A round in which there is nothing to send and the read gives no answer of the server.\<close>

definition idle_round :: "time \<Rightarrow> time \<times> read \<Rightarrow> bool" where
  "idle_round t r = (fst r \<le> t \<and>
     (case snd r of RError err \<Rightarrow> err = ContextDeadlineExceeded
      | RPacket p \<Rightarrow> \<not> isRegistrationResponse (Header p) | RBlock \<Rightarrow> False))"

lemma handshake_skips:
  "list_all (idle_round t) rds \<Longrightarrow> dosbox_handshake_loop I t n (rds @ rds') i = dosbox_handshake_loop I t n rds' i"
  by (induction rds) (auto simp: idle_round_def not_less split: read.splits)

text \<open>A server that never answers: five registration packets are sent, then the client gives up.\<close>

lemma handshake_silent:
  assumes "sorted_wrt (\<lambda>r r'. fst r + second < fst r') rds"
    and "\<forall>r \<in> set rds. t < fst r \<and> snd r = RError ContextDeadlineExceeded"
    and "n \<le> dosbox_maxConnectAttempts" "n + length rds = dosbox_maxConnectAttempts + 1"
  shows "dosbox_handshake_loop log_rwc t n rds i
    = (i @ replicate (dosbox_maxConnectAttempts - n) registration_packet, Some (Inl connectFailure))"
  using assms
proof (induction rds arbitrary: t n i)
  case (Cons r rds)
  obtain now rd where r: "r = (now, rd)" by (rule prod.exhaust)
  show ?case
  proof (cases "dosbox_maxConnectAttempts \<le> n")
    case False
    with Cons.IH [of "now + second" "Suc n" "i @ [registration_packet]"] Cons.prems r show ?thesis
      by (simp add: sendRegistrationPacket_def Suc_diff_le [symmetric] flip: replicate_Suc)
  qed (use Cons.prems r in simp)
qed simp

section \<open>Connecting to the assembled network\<close>

lemma make_net_NewNode_addr:
  assumes "NewNode (make_net d a) e s = Some (s', Inr h)"
  shows "\<exists>b1 b2 b3 b4 b5. NodeAddress (make_net d a) h s' = MkAddr 0x02 b1 b2 b3 b4 b5"
proof -
  from assms obtain i r where r: "addressable_NewNode (make_base d a) e (s_inner s) = Some (i, r)"
    by (auto simp: make_net_def stats_NewNode_def bind_eq_Some_conv)
  with assms obtain m where n: "addressable_NewNode (make_base d a) e (s_inner s) = Some (i, Inr m)"
    and s': "s_inner s' = i" "sn_inner (s_nodes s' h) = m"
    by (cases r) (auto simp: make_net_def stats_NewNode_def Let_def)
  from n obtain j where "an_addr (a_nodes i m) = candidate (env_rand e) j"
    by (rule addressable_NewNode_Inr) (auto dest: generate_Some)
  with candidate_prefix [of "env_rand e" j] show ?thesis
    by (simp add: make_net_NodeAddress s')
qed

text \<open>
  C18. A DOSBox client that dials a server of the assembled network gets connected, and stays connected. The
  registration packet that \<^verbatim>\<open>Dial\<close> sends makes \<^verbatim>\<open>StartClient\<close> create a node and answer with one packet; after waiting
  through rounds without an answer, \<^verbatim>\<open>Dial\<close> takes from it exactly the address of that node, which is neither null nor
  broadcast, having sent one packet. A silence longer than the keepalive time makes the server send a ping; the
  connected client answers it, from its own address; the server takes the answer for data of a live client and not
  for a new registration.
\<close>

theorem dosbox_connects:
  assumes "NewNode (make_net d a) e s = Some (s', Inr node)"
    and "t < n1" "idle_round (n1 + second) (n1, r1)" "list_all (idle_round (n1 + second)) waiting" "n2 \<le> n1 + second"
  shows "\<exists>c conn reply q.
      dosbox_StartClient (make_net d a) log_rwc e now (Inr registration_packet) s [] = Some (s', [reply], Started c node)
    \<and> dosbox_Dial log_rwc t ((n1, r1) # waiting @ [(n2, RPacket reply)]) [] = ([registration_packet], Some (Inr conn))
    \<and> dc_addr conn = NodeAddress (make_net d a) node s' \<and> dc_addr conn \<notin> {AddrNull, AddrBroadcast}
    \<and> dosbox_keepalive log_rwc period now' c [] = (if now' > now + period then [ping_packet] else [])
    \<and> dosbox_recvLoop_step log_rwc (RPacket ping_packet) conn [] = (conn, [q], True)
    \<and> Addr (Src (Header q)) = dc_addr conn
    \<and> dosbox_recv log_rwc now'' q c [] = (c\<lparr>lastRecvTime := now''\<rparr>, [], Some q)"
proof -
  let ?a = "NodeAddress (make_net d a) node s'" and ?c = "\<lparr>nodeAddr = NodeAddress (make_net d a) node s', lastRecvTime = now\<rparr>"
  from make_net_NewNode_addr [OF assms(1)] have a: "?a \<noteq> AddrNull" "?a \<noteq> AddrBroadcast"
    by (auto simp: AddrNull_def AddrBroadcast_def)
  have "dosbox_handshake_loop log_rwc t 0 ((n1, r1) # waiting @ [(n2, RPacket (registration_reply ?a))]) []
      = dosbox_handshake_loop log_rwc (n1 + second) 1 (waiting @ [(n2, RPacket (registration_reply ?a))]) [registration_packet]"
    using assms(2,3)
    by (auto simp: idle_round_def dosbox_maxConnectAttempts_def sendRegistrationPacket_def split: read.splits)
  also have "\<dots> = ([registration_packet], Some (Inr ?a))"
    using assms(4,5) a by (simp add: handshake_skips packet_kinds) (simp add: registration_reply_def)
  finally show ?thesis
    using a assms(1) ping_reply_addr
    by (intro exI [of _ ?c] exI [of _ "\<lparr>dc_rxpipe = pipe_New, dc_addr = ?a\<rparr>"] exI [of _ "registration_reply ?a"]
        exI [of _ "ping_reply addrPingReply ?a"])
      (simp add: dosbox_StartClient_def packet_kinds sendRegistrationReply_def dosbox_Dial_def
        dosbox_handshakeConnect_def dosbox_keepalive_def sendPing_def dosbox_recvLoop_step_def sendPingReply_def
        dosbox_recv_def Let_def, simp add: ping_packet_def ping_reply_def)
qed

theorem dosbox_connects_witness:
  "\<exists>s' node c conn. dosbox_Dial log_rwc 0 [(1, RError ContextDeadlineExceeded), (2, RPacket ping_packet),
       (3, RPacket (registration_reply (MkAddr 2 0 0 0 0 2)))] [] = ([registration_packet], Some (Inr conn))
     \<and> NewNode (make_net False False) demo_env (box_net demo_box) = Some (s', Inr node)
     \<and> dc_addr conn = NodeAddress (make_net False False) node s'"
proof -
  have new: "\<exists>s' node. NewNode (make_net False False) demo_env (box_net demo_box) = Some (s', Inr node)
      \<and> NodeAddress (make_net False False) node s' = MkAddr 2 0 0 0 0 2"
    unfolding make_net_NodeAddress by (simp add: demo_box_def stack_eval)
  then obtain s' node where n: "NewNode (make_net False False) demo_env (box_net demo_box) = Some (s', Inr node)"
    and a: "NodeAddress (make_net False False) node s' = MkAddr 2 0 0 0 0 2" by blast
  show ?thesis
    using dosbox_connects [OF n, of 0 1 "RError ContextDeadlineExceeded" "[(2, RPacket ping_packet)]" 3 0 0 0 0] n a
    by (auto simp: idle_round_def packet_kinds dosbox_StartClient_def sendRegistrationReply_def Let_def)
qed

end
