(* ===== verification/Modules.thy ===== *)
theory Modules
  imports UdpServer Uplink Dosbox
begin

text \<open>
  The modules that make up a server: the interface and the optional modules of package \<^verbatim>\<open>module\<close> (\<^verbatim>\<open>src/module/module.go\<close>), their
  combination (\<^verbatim>\<open>src/module/aggregate/module.go\<close>), what the single modules start (\<^verbatim>\<open>src/module/*/module.go\<close>), and the main
  program (\<^verbatim>\<open>src/ipxbox.go\<close>, \<^verbatim>\<open>src/standalone/ipxbox_minimal.go\<close>). A module that has been started either still runs, \<open>Waiting\<close>, or
  its \<^verbatim>\<open>Start\<close> has returned.
\<close>

section \<open>Running modules\<close>

definition NotNeeded :: error where
  "NotNeeded = OtherError ''module exited with nothing to do''"

definition EarlyTermination :: error where
  "EarlyTermination = OtherError ''module terminated unexpectedly''"

definition optional_Start :: "bool \<Rightarrow> loop_status \<Rightarrow> loop_status" where
  "optional_Start enabled inner = (if \<not> enabled then Returned (Some NotNeeded) else inner)"

text \<open>What becomes of the goroutine of a module: \<open>Exits\<close> is the end of the program by \<^verbatim>\<open>log.Fatalf\<close>.\<close>

datatype runner = Running | Ends "error option" | Exits error

fun moduleRunner :: "loop_status \<Rightarrow> runner" where
  "moduleRunner Waiting = Running"
| "moduleRunner (Returned err) =
     (if err = Some NotNeeded then Ends None
      else Exits (case err of None \<Rightarrow> EarlyTermination | Some e \<Rightarrow> e))"

fun exits :: "runner \<Rightarrow> bool" where
  "exits (Exits err) = True"
| "exits _ = False"

text \<open>\<^verbatim>\<open>aggregate.Start\<close>, given what has become of the modules so far.\<close>

definition aggregate_Start :: "loop_status list \<Rightarrow> runner" where
  "aggregate_Start modules =
     (let runners = map moduleRunner modules
      in case List.find exits runners of
           Some r \<Rightarrow> r
         | None \<Rightarrow> if Running \<in> set runners then Running else Ends (Some NotNeeded))"

section \<open>The modules\<close>

text \<open>
  \<open>run\<close> is what becomes of copying packets between the stream and a node of the network. \<^verbatim>\<open>MustMakeNode\<close>, which ends the
  program if there is no node, is not part of it.
\<close>

definition bridge_Start :: "bool \<Rightarrow> error + 'st option \<Rightarrow> ('st \<Rightarrow> loop_status) \<Rightarrow> loop_status" where
  "bridge_Start uplinkable stream run =
     (if \<not> uplinkable then Returned (Some NotNeeded)
      else case stream of
             Inl err \<Rightarrow> Returned (Some err)
           | Inr None \<Rightarrow> Returned (Some NotNeeded)
           | Inr (Some st) \<Rightarrow> run st)"

definition ipxpkt_Start :: "error + 'st \<Rightarrow> ('st \<Rightarrow> loop_status) \<Rightarrow> loop_status" where
  "ipxpkt_Start stream run = (case stream of Inl err \<Rightarrow> Returned (Some err) | Inr st \<Rightarrow> run st)"

definition pptp_Start :: "error option \<Rightarrow> bool \<Rightarrow> loop_status" where
  "pptp_Start newServer running =
     (case newServer of
        Some err \<Rightarrow> Returned (Some (Errorf ''failed to start PPTP server'' []))
      | None \<Rightarrow> if running then Waiting else Returned None)"

text \<open>
  The addresses that the Quake proxy is started for: \<open>split_comma\<close> is \<^verbatim>\<open>strings.Split(s, ",")\<close>. The group of proxies is
  waited for until all of them have ended; each ends with an error.
\<close>

fun split_comma :: "string \<Rightarrow> string list" where
  "split_comma [] = [[]]"
| "split_comma (x # xs) =
     (if x = CHR 0x2C then [] # split_comma xs
      else case split_comma xs of y # ys \<Rightarrow> (x # y) # ys | [] \<Rightarrow> [[x]])"

definition qproxy_Start :: "string \<Rightarrow> (string \<Rightarrow> bool) \<Rightarrow> loop_status" where
  "qproxy_Start quakeServers running =
     (if quakeServers = '''' then Returned (Some NotNeeded)
      else if list_ex running (split_comma quakeServers) then Waiting
      else Returned (Some (Errorf ''proxy to quake server terminated'' [])))"

datatype protocol = DosboxProtocol duration | UplinkProtocol string duration

definition server_protocols :: "string \<Rightarrow> bool \<Rightarrow> error + protocol list" where
  "server_protocols uplinkPassword uplinkable =
     (let protocols = [DosboxProtocol (5 * second)]
      in if uplinkPassword \<noteq> '''' then
           (if \<not> uplinkable then Inl (Errorf ''Sorry, a direct connection is needed to run an uplink server.'' [])
            else Inr (protocols @ [UplinkProtocol uplinkPassword (5 * second)]))
         else Inr protocols)"

fun IsRegistrationPacket :: "codec \<Rightarrow> protocol \<Rightarrow> Packet \<Rightarrow> bool" where
  "IsRegistrationPacket K (DosboxProtocol keepalive) = isRegistrationPacket"
| "IsRegistrationPacket K (UplinkProtocol password keepalive) = uplink_IsRegistrationPacket K"

definition module_config :: "codec \<Rightarrow> protocol list \<Rightarrow> duration \<Rightarrow> server_config" where
  "module_config K protocols clientTimeout =
     \<lparr>Protocols = map (IsRegistrationPacket K) protocols, ClientTimeout = clientTimeout\<rparr>"

definition server_Start :: "string \<Rightarrow> bool \<Rightarrow> error option \<Rightarrow> bool \<Rightarrow> loop_status" where
  "server_Start uplinkPassword uplinkable newServer running =
     (case server_protocols uplinkPassword uplinkable of
        Inl err \<Rightarrow> Returned (Some err)
      | Inr protocols \<Rightarrow>
          (case newServer of
             Some err \<Rightarrow> Returned (Some err)
           | None \<Rightarrow> if running then Waiting else Returned None))"

section \<open>The main program\<close>

definition main_Start :: "bool \<Rightarrow> bool \<Rightarrow> loop_status \<Rightarrow> loop_status \<Rightarrow> loop_status \<Rightarrow> loop_status \<Rightarrow> loop_status \<Rightarrow> runner" where
  "main_Start enableIpxpkt enablePPTP ipxpkt pptp bridge qproxy server =
     aggregate_Start [optional_Start enableIpxpkt ipxpkt, optional_Start enablePPTP pptp, bridge, qproxy, server]"

definition minimal_net :: "bool \<Rightarrow> switch anet snet network" where
  "minimal_net allowNetBIOS =
     stats_Wrap (addressable_Wrap (if \<not> allowNetBIOS then filter_Wrap switch_network else switch_network))"

section \<open>Lemmas\<close>

text \<open>
  The program ends exactly when a module fails or comes to an end although it was needed, and as the server module
  is always needed, it never ends for lack of work.
\<close>

lemma aggregate_ends:
  "(\<exists>err. aggregate_Start ms = Exits err) \<longleftrightarrow> (\<exists>m \<in> set ms. \<exists>e. m = Returned e \<and> e \<noteq> Some NotNeeded)"
proof -
  have "(\<exists>err. aggregate_Start ms = Exits err) \<longleftrightarrow> (\<exists>m \<in> set ms. exits (moduleRunner m))"
  proof (cases "List.find exits (map moduleRunner ms)")
    case None
    moreover from None have "\<not> (\<exists>m \<in> set ms. exits (moduleRunner m))" by (simp add: find_None_iff)
    ultimately show ?thesis by (simp add: aggregate_Start_def)
  next
    case (Some r)
    then obtain i where "exits r" "i < length ms" "r = moduleRunner (ms ! i)"
      by (auto simp: find_Some_iff)
    then have "\<exists>m \<in> set ms. exits (moduleRunner m)" "exits r" using nth_mem by auto
    moreover from this obtain err where "r = Exits err" by (cases r) simp_all
    ultimately show ?thesis using Some by (auto simp: aggregate_Start_def)
  qed
  moreover have "exits (moduleRunner m) \<longleftrightarrow> (\<exists>e. m = Returned e \<and> e \<noteq> Some NotNeeded)" for m
    by (cases m) auto
  ultimately show ?thesis by simp
qed

lemma main_ends:
  assumes "server_Start password uplinkable newServer running \<noteq> Waiting" "newServer \<noteq> Some NotNeeded"
  shows "\<exists>err. main_Start x y a b c d (server_Start password uplinkable newServer running) = Exits err"
proof -
  have "\<exists>e. server_Start password uplinkable newServer running = Returned e \<and> e \<noteq> Some NotNeeded"
    using assms
    by (auto simp: server_Start_def server_protocols_def NotNeeded_def Let_def split: option.splits if_splits)
  then show ?thesis unfolding main_Start_def aggregate_ends by auto
qed

text \<open>The list of addresses given to the Quake proxy module is split at the commas and nowhere else.\<close>

fun join_comma :: "string list \<Rightarrow> string" where
  "join_comma [] = []"
| "join_comma [x] = x"
| "join_comma (x # y # ys) = x @ CHR 0x2C # join_comma (y # ys)"

lemma split_comma_join:
  "join_comma (split_comma s) = s \<and> split_comma s \<noteq> [] \<and> (\<forall>x \<in> set (split_comma s). CHR 0x2C \<notin> set x)"
proof (induction s)
  case (Cons x s)
  then obtain y ys where "split_comma s = y # ys" by (cases "split_comma s") auto
  with Cons show ?case by (cases ys) auto
qed simp

text \<open>Reads on the network of the minimal program return.\<close>

lemma minimal_reads_return:
  "snet_inv (anet_inv switch_inv) s \<Longrightarrow> ReadPacket (minimal_net False) c n s \<noteq> None"
  unfolding minimal_net_def using safsw.read_returns by simp

section \<open>Who is admitted\<close>

lemma registration_exclusive: "isRegistrationPacket p \<Longrightarrow> \<not> uplink_IsRegistrationPacket K p"
  by (simp add: isRegistrationPacket_def uplink_IsRegistrationPacket_def Let_def Address_def AddrNull_def)

lemma findProtocol_module:
  assumes "server_protocols password uplinkable = Inr ps"
  shows "findProtocol (module_config K ps t) p = Some i \<longleftrightarrow>
    i = 0 \<and> isRegistrationPacket p \<or> i = 1 \<and> password \<noteq> '''' \<and> uplinkable \<and> uplink_IsRegistrationPacket K p"
  using assms registration_exclusive [of p K]
  by (auto simp: server_protocols_def findProtocol_def module_config_def Let_def split: if_splits)

text \<open>
  C17. Who is admitted. In every history of the server that the server module runs, a client is started for the
  DOSBox protocol only if a DOSBox registration packet arrived from its address, and for the uplink protocol only if a
  password is configured and an uplink registration packet arrived from its address. The two kinds of
  registration packets exclude each other. Without a password there is no uplink client.
\<close>

theorem admitted_clients:
  assumes "server_protocols password uplinkable = Inr ps"
    and "(cid, i) \<in> set (sv_started (server_run (module_config K ps t) evs (server_New now)))"
  shows "\<exists>c p. sv_store (server_run (module_config K ps t) evs (server_New now)) cid = Some c
    \<and> p \<in> received_from evs (sc_addr c)
    \<and> (i = 0 \<and> isRegistrationPacket p \<and> \<not> uplink_IsRegistrationPacket K p
      \<or> i = 1 \<and> password \<noteq> '''' \<and> uplinkable \<and> uplink_IsRegistrationPacket K p \<and> \<not> isRegistrationPacket p)"
proof -
  have "origin_inv (module_config K ps t) (received_from evs) (server_New now)"
    by (simp add: origin_inv_def server_New_def)
  then have "origin_inv (module_config K ps t) (received_from evs) (server_run (module_config K ps t) evs (server_New now))"
    by (rule origin_inv_run [OF _ server_inv_New]) simp
  from origin_invD(2) [OF this assms(2)] obtain c p where
    c: "sv_store (server_run (module_config K ps t) evs (server_New now)) cid = Some c" "p \<in> received_from evs (sc_addr c)"
    and f: "findProtocol (module_config K ps t) p = Some i" by blast
  from f have "i = 0 \<and> isRegistrationPacket p \<or> i = 1 \<and> password \<noteq> '''' \<and> uplinkable \<and> uplink_IsRegistrationPacket K p"
    by (simp add: findProtocol_module [OF assms(1)])
  with c registration_exclusive [of p K] show ?thesis by (intro exI [of _ c] exI [of _ p]) auto
qed

theorem admitted_clients_witness:
  "\<exists>c p. sv_store (server_run (module_config demo_json [DosboxProtocol (5 * second)] second)
       [SvPoll (\<lambda>_. 0) (UPacket (Packet_MarshalBinary registration_packet) ''a'')] (server_New 0)) 0 = Some c
     \<and> p \<in> received_from [SvPoll (\<lambda>_. 0) (UPacket (Packet_MarshalBinary registration_packet) ''a'')] (sc_addr c)
     \<and> isRegistrationPacket p"
proof -
  have ps: "server_protocols '''' True = Inr [DosboxProtocol (5 * second)]" by (simp add: server_protocols_def)
  have "(0, 0) \<in> set (sv_started (server_run (module_config demo_json [DosboxProtocol (5 * second)] second)
      [SvPoll (\<lambda>_. 0) (UPacket (Packet_MarshalBinary registration_packet) ''a'')] (server_New 0)))"
    by (simp add: server_run_def server_New_def poll_def processPacket_def Packet_roundtrip findProtocol_def
        module_config_def packet_kinds newClient_def receive_packet_def put_client_def Let_def)
  from admitted_clients [OF ps this] show ?thesis by auto
qed

end
