(* ===== verification/Spec2Isabelle.thy ===== *)
theory Spec2Isabelle
  imports IpxpktRouter Doom QProxy Pptp Bridge Modules
begin

text \<open>
  \<^bold>\<open>A verification of ipxbox\<close>

  ipxbox is a server for IPX, the network protocol of DOS games. Clients reach it over UDP (the DOSBox protocol, or the
  authenticated uplink protocol of other servers) or over PPTP; inside, a virtual switch connects them with each other and with
  a bridge to a physical network, a router for the ipxpkt driver, and proxies for Quake servers.

  \<^bold>\<open>How the parts interact.\<close> \<^verbatim>\<open>makeNetwork\<close> in \<^verbatim>\<open>src/ipxbox.go\<close> stacks layers on the switch: taps for the packet
  dump, the NetBIOS filter, then, for clients, the addressable layer and statistics, and for uplinks and bridges statistics
  only. Every layer implements the interfaces of \<^verbatim>\<open>src/network/network.go\<close>. Each protocol obtains a node and copies packets
  between it and its client with \<^verbatim>\<open>CopyPackets\<close>; what is queued for a node waits in a pipe.

  \<^bold>\<open>Theories.\<close> A struct is a record, a method a function of the same name that returns the new state, an error a
  value of the datatype of \<^verbatim>\<open>Prelude\<close>, a panic the result \<open>Panic\<close>.

  \<^item> \<^verbatim>\<open>Prelude\<close>: machine integers, byte orders, errors, outcomes and shared lemmas.
  \<^item> \<^verbatim>\<open>Ipx\<close> (\<^verbatim>\<open>src/ipx\<close>): headers, packets, \<^verbatim>\<open>CopyPackets\<close>; the codecs are inverse to each other.
  \<^item> \<^verbatim>\<open>Pipe\<close> (\<^verbatim>\<open>src/network/pipe\<close>): first in, first out, bounded; the locale \<open>packet_queue\<close>.
  \<^item> \<^verbatim>\<open>RoutingTable\<close>, \<^verbatim>\<open>IpxSwitch\<close> (\<^verbatim>\<open>src/network/ipxswitch\<close>): learning of addresses (the locale
    \<open>address_learning\<close>), forwarding, and privacy of unicast.
  \<^item> \<^verbatim>\<open>NetIface\<close> (\<^verbatim>\<open>src/network/network.go\<close>): the locale \<open>network_contract\<close>, which says that operations keep the
    invariant, that reads return, and that what is read was queued. It is interpreted on the switch and on every layer.
  \<^item> \<^verbatim>\<open>PacketFilter\<close>, \<^verbatim>\<open>Addressable\<close>, \<^verbatim>\<open>Stats\<close>, \<^verbatim>\<open>Tappable\<close> (\<^verbatim>\<open>src/network\<close>): the layers. Filtered
    packets never pass, addresses are unique and cannot be forged, counters are exact, taps change nothing.
  \<^item> \<^verbatim>\<open>Stack\<close> (\<^verbatim>\<open>makeNetwork\<close>): all configurations, delivery from client to client.
  \<^item> \<^verbatim>\<open>Fragments\<close>, \<^verbatim>\<open>IpxpktRouter\<close> (\<^verbatim>\<open>src/module/ipxpkt\<close>): reassembly in any order, bounded memory, round trip.
  \<^item> \<^verbatim>\<open>Doom\<close> (\<^verbatim>\<open>src/network/doom\<close>): wire format; the window of tics refines a history of what was sent.
  \<^item> \<^verbatim>\<open>Lcp\<close>, \<^verbatim>\<open>Negotiate\<close>, \<^verbatim>\<open>Session\<close> (\<^verbatim>\<open>src/ppp\<close>): messages, negotiation, and a session as interleaved steps of
    its goroutines; no IPX packet is sent to the client before both negotiations are complete.
  \<^item> \<^verbatim>\<open>Gre\<close>, \<^verbatim>\<open>Pptp\<close> (\<^verbatim>\<open>src/ppp/pptp\<close>): isolation and sequence numbers of sessions; the control connection.
  \<^item> \<^verbatim>\<open>Sharder\<close>, \<^verbatim>\<open>QProxy\<close> (\<^verbatim>\<open>src/module/qproxy\<close>): the reliable stream and the proxy.
  \<^item> \<^verbatim>\<open>UdpServer\<close>, \<^verbatim>\<open>Uplink\<close>, \<^verbatim>\<open>Dosbox\<close>, \<^verbatim>\<open>UdpClient\<close> (\<^verbatim>\<open>src/server\<close>, \<^verbatim>\<open>src/client\<close>): the table of
    clients, timeouts, and both protocols with their clients.
  \<^item> \<^verbatim>\<open>Framing\<close>, \<^verbatim>\<open>Phys\<close> (\<^verbatim>\<open>src/phys\<close>): Ethernet framings, the detection of looped back packets, checksums.
  \<^item> \<^verbatim>\<open>Bridge\<close> (\<^verbatim>\<open>DuplexCopyPackets\<close> as \<^verbatim>\<open>src/module/bridge\<close> uses it): from a frame on the physical network to the
    read of a client, and from the write of a client to a frame.
  \<^item> \<^verbatim>\<open>Modules\<close> (\<^verbatim>\<open>src/module\<close>, \<^verbatim>\<open>main\<close>): which modules run and when the program ends.

  \<^bold>\<open>Loops, bounds and concurrency.\<close> Loops that need not end (\<^verbatim>\<open>CopyPackets\<close>, reading until a packet passes, drawing
  an address, reading a frame from the ipxpkt router, shifting the window of tics) are partial functions with the value \<open>None\<close> for
  not returning. That reads of the network and of the router return is proved, and of the window under the condition on
  tic numbers that is stated there. Receive loops are
  single iterations, run over arbitrary lists of events, so no fuel is chosen anywhere; goroutines are interleaved at
  this granularity, and interleavings inside one iteration are not considered. A read that would block is the result \<open>RBlock\<close>. The bounds
  are those of the source: 16 packets in a pipe, 16 frames in reassembly; counters and sequence numbers wrap at their width
  where they are words.

  \<^bold>\<open>Parameters.\<close> Sockets, JSON, SHA-256, the clock, random bytes and the packet library are arguments. What is assumed of the
  packet library (\<open>gopacket_ok\<close>: a frame that was serialized is decoded again) is proved of a concrete encoder and decoder.

  \<^bold>\<open>Not modelled.\<close>
  \<^item> \<^verbatim>\<open>src/phys/pcap.go\<close>, \<^verbatim>\<open>slirp.go\<close>, \<^verbatim>\<open>tap.go\<close>: calls of the operating system and of libraries.
  \<^item> \<^verbatim>\<open>src/logging\<close>, log output and the text of \<^verbatim>\<open>String\<close> methods: no effect on packets.
  \<^item> The main programs in \<^verbatim>\<open>src/standalone\<close>, except the network of the minimal server, and the registration of flags.
  \<^item> \<^verbatim>\<open>src/testing\<close>: fixtures of tests.
  \<^item> The opening of sockets in the \<^verbatim>\<open>Dial\<close> functions; \<^verbatim>\<open>MustMakeNode\<close>, which ends the program when there is no node; and
    the text search by which \<^verbatim>\<open>Session.Run\<close> recognises errors of closed connections, whose texts belong to libraries.
  \<^item> In \<^verbatim>\<open>Bridge\<close>, the cancelling of one direction of the copying when the other ends.
\<close>

end
